(* ===== verification/Prelude.thy ===== *)
theory Prelude
  imports Main "HOL-Library.Word" "HOL-Library.Sublist"
begin

text \<open>
  Shared vocabulary of the development: kernel error numbers, the outcome type of fallible C
  code, byte memories with bounds-checked loads and stores, little-endian numbers, the
  \<^verbatim>\<open>ALIGN\<close> macro and 32-bit wrap-around. An out-of-range access is the outcome
  \<open>UB\<close> (undefined behaviour), never a default value, so a theorem that an outcome is not
  \<open>UB\<close> is a memory-safety statement.
\<close>

named_theorems mem_simps \<open>loads and stores on byte memories\<close>
named_theorems result_splits \<open>case rules for the outcome type\<close>

section \<open>Errors and outcomes\<close>

text \<open>The \<^verbatim>\<open>errno\<close> values the modelled sources return (negated, as the kernel does).\<close>

datatype errno =
    EPERM | ENOENT | ENXIO | EAGAIN | ENOMEM | EFAULT | EBUSY | EEXIST | ENODEV | EINVAL
  | ENOSPC | EOPNOTSUPP | ETIMEDOUT | ETOOSMALL | EPROBE_DEFER | EREMOTE int

datatype 'a result = OK 'a | Err errno | UB

fun rbind :: "'a result \<Rightarrow> ('a \<Rightarrow> 'b result) \<Rightarrow> 'b result" where
  "rbind (OK x) f = f x"
| "rbind (Err e) f = Err e"
| "rbind UB f = UB"

definition of_opt :: "'a option \<Rightarrow> 'a result" where
  "of_opt x = (case x of None \<Rightarrow> UB | Some v \<Rightarrow> OK v)"

lemma rbind_OK_iff [simp]: "rbind m f = OK y \<longleftrightarrow> (\<exists>x. m = OK x \<and> f x = OK y)"
  by (cases m) auto

lemma rbind_UB_iff: "rbind m f = UB \<longleftrightarrow> m = UB \<or> (\<exists>x. m = OK x \<and> f x = UB)"
  by (cases m) auto

lemma rbind_not_UB [intro]:
  "m \<noteq> UB \<Longrightarrow> (\<And>x. m = OK x \<Longrightarrow> f x \<noteq> UB) \<Longrightarrow> rbind m f \<noteq> UB"
  by (cases m) auto

lemma of_opt_simps [simp]:
  "of_opt None = UB" "of_opt (Some v) = OK v"
  "of_opt x = OK v \<longleftrightarrow> x = Some v" "of_opt x = UB \<longleftrightarrow> x = None" "of_opt x \<noteq> Err e"
  by (auto simp: of_opt_def split: option.splits)

lemma rbind_weak_cong: "m = m' \<Longrightarrow> rbind m f = rbind m' f"
  by simp

lemma rbind_cong [fundef_cong]:
  "m = m' \<Longrightarrow> (\<And>x. m' = OK x \<Longrightarrow> f x = f' x) \<Longrightarrow> rbind m f = rbind m' f'"
  by (cases m') auto

lemmas [result_splits] = result.splits option.splits if_splits prod.splits

section \<open>Fixed-width arithmetic on naturals\<close>

text \<open>
  Sizes, offsets and counters of C type \<open>u32\<close> are naturals with the wrap-around written
  out. Subtraction wraps below zero as it does in C.
\<close>

type_synonym u32w = "32 word"

definition u32 :: "nat \<Rightarrow> nat" where
  "u32 n = n mod 2 ^ 32"

definition u32_sub :: "nat \<Rightarrow> nat \<Rightarrow> nat" where
  "u32_sub a b = (a + (2 ^ 32 - b mod 2 ^ 32)) mod 2 ^ 32"

definition u64 :: "nat \<Rightarrow> nat" where
  "u64 n = n mod 2 ^ 64"

lemma u32_id [simp]: "n < 2 ^ 32 \<Longrightarrow> u32 n = n"
  by (simp add: u32_def)

lemma u32_less [simp]: "u32 n < 2 ^ 32"
  by (simp add: u32_def)

lemma u64_id [simp]: "n < 2 ^ 64 \<Longrightarrow> u64 n = n"
  by (simp add: u64_def)

lemma u32_sub_le: "b \<le> a \<Longrightarrow> a < 2 ^ 32 \<Longrightarrow> u32_sub a b = a - b"
  by (simp add: u32_sub_def mod_if)

lemma u32_sub_wrap: "a < b \<Longrightarrow> b < 2 ^ 32 \<Longrightarrow> u32_sub a b = 2 ^ 32 - (b - a)"
  by (simp add: u32_sub_def)

lemma u32_sub_less [simp]: "u32_sub a b < 2 ^ 32"
  by (simp add: u32_sub_def)

text \<open>
  The kernel's \<^verbatim>\<open>ALIGN(x, a)\<close> on \<open>size_t\<close>: \<open>(x + a - 1) & ~(a - 1)\<close>, computed
  in 64 bits. For a power of two it rounds up; for \<open>a = 0\<close> it yields 0.
\<close>

unbundle bit_operations_syntax

definition ALIGN :: "nat \<Rightarrow> nat \<Rightarrow> nat" where
  "ALIGN x a = unat ((of_nat x + (of_nat a - 1)) AND NOT (of_nat a - 1) :: 64 word)"

lemma and_not_mask_nat:
  "unat (w AND NOT (2 ^ k - 1) :: 64 word) = 2 ^ k * (unat w div 2 ^ k)"
proof -
  have lt: "unat w < 2 ^ 64" using unsigned_less [of w] by simp
  have self: "take_bit 64 (unat w) = unat w"
    using lt by (simp add: take_bit_nat_eq_self)
  have le: "unat w div 2 ^ k * 2 ^ k \<le> unat w" by (rule div_times_less_eq_dividend)
  have "w AND NOT (2 ^ k - 1) = push_bit k (drop_bit k w)"
    by (rule bit_word_eqI) (auto simp: bit_simps mask_eq_exp_minus_1 [symmetric])
  then have "unat (w AND NOT (2 ^ k - 1)) = take_bit 64 (push_bit k (drop_bit k (unat w)))"
    by (simp add: unsigned_push_bit_eq unsigned_drop_bit_eq self)
  also have "\<dots> = push_bit k (drop_bit k (unat w))"
    unfolding push_bit_eq_mult drop_bit_eq_div
    by (rule take_bit_nat_eq_self) (rule le_less_trans [OF le lt])
  finally show ?thesis by (simp add: push_bit_eq_mult drop_bit_eq_div)
qed

lemma ALIGN_pow2:
  assumes "x + 2 ^ k \<le> 2 ^ 64" "k < 64"
  shows "ALIGN x (2 ^ k) = 2 ^ k * ((x + 2 ^ k - 1) div 2 ^ k)"
proof -
  have "x + 2 ^ k - 1 = x + (2 ^ k - 1)" by simp
  then have "of_nat x + (of_nat (2 ^ k) - 1) = (of_nat (x + 2 ^ k - 1) :: 64 word)"
    by (simp only: of_nat_add) simp
  moreover have "unat (of_nat (x + 2 ^ k - 1) :: 64 word) = x + 2 ^ k - 1"
    using assms by (simp add: unat_of_nat mod_if)
  ultimately show ?thesis
    using and_not_mask_nat [of "of_nat (x + 2 ^ k - 1)" k]
    by (simp add: ALIGN_def)
qed

lemma ALIGN_8:
  assumes "x + 8 \<le> 2 ^ 64"
  shows "ALIGN x 8 = 8 * ((x + 7) div 8)" and "x \<le> ALIGN x 8" and "ALIGN x 8 < x + 8"
proof -
  show *: "ALIGN x 8 = 8 * ((x + 7) div 8)"
    using ALIGN_pow2 [of x 3] assms by simp
  show "x \<le> ALIGN x 8" and "ALIGN x 8 < x + 8"
    unfolding * by presburger+
qed

section \<open>Little-endian numbers\<close>

type_synonym byte = "8 word"
type_synonym bytes = "byte list"

primrec le_bytes :: "nat \<Rightarrow> nat \<Rightarrow> bytes" where
  "le_bytes 0 v = []"
| "le_bytes (Suc n) v = of_nat v # le_bytes n (v div 256)"

primrec le_val :: "bytes \<Rightarrow> nat" where
  "le_val [] = 0"
| "le_val (b # bs) = unat b + 256 * le_val bs"

lemma le_bytes_numeral: "le_bytes (numeral w) v = of_nat v # le_bytes (pred_numeral w) (v div 256)"
  by (simp add: numeral_eq_Suc [of w])

lemma replicate_numeral: "replicate (numeral w) x = x # replicate (pred_numeral w) x"
  by (simp add: numeral_eq_Suc [of w])

lemma length_le_bytes [simp]: "length (le_bytes n v) = n"
  by (induction n arbitrary: v) auto

lemma le_val_le_bytes [simp]: "le_val (le_bytes n v) = v mod 256 ^ n"
proof (induction n arbitrary: v)
  case (Suc n)
  have "unat (of_nat v :: byte) = v mod 256" by (simp add: unat_of_nat)
  with Suc show ?case by (simp add: mod_mult2_eq)
qed simp

lemma le_val_less: "le_val bs < 256 ^ length bs"
proof (induction bs)
  case (Cons b bs)
  have "unat b < 256" using unsigned_less [of b] by simp
  with Cons show ?case by simp
qed simp

lemma le_bytes_le_val [simp]: "length bs = n \<Longrightarrow> le_bytes n (le_val bs) = bs"
proof (induction bs arbitrary: n)
  case (Cons b bs)
  have b: "unat b < 256" using unsigned_less [of b] by simp
  obtain m where m: "n = Suc m" "length bs = m" using Cons.prems by auto
  have "(unat b + 256 * le_val bs) div 256 = le_val bs" using b by simp
  moreover have "(of_nat (unat b + 256 * le_val bs) :: byte) = b"
  proof -
    have "(256 :: byte) = 0" by simp
    then show ?thesis by (simp only: of_nat_add of_nat_mult of_nat_numeral) simp
  qed
  ultimately show ?case using Cons.IH [OF m(2)] m(1) by simp
qed simp

section \<open>Byte memories\<close>

definition load :: "bytes \<Rightarrow> nat \<Rightarrow> nat \<Rightarrow> bytes option" where
  "load m p n = (if p + n \<le> length m then Some (take n (drop p m)) else None)"

definition store :: "bytes \<Rightarrow> nat \<Rightarrow> bytes \<Rightarrow> bytes option" where
  "store m p d = (if p + length d \<le> length m
                  then Some (take p m @ d @ drop (p + length d) m) else None)"

lemma load_nth:
  "load m p n = Some bs \<longleftrightarrow> p + n \<le> length m \<and> length bs = n \<and> (\<forall>i < n. bs ! i = m ! (p + i))"
  by (auto simp: load_def intro: nth_equalityI split: if_splits)

lemma store_nth:
  "store m p d = Some m' \<Longrightarrow> i < length m \<Longrightarrow>
     m' ! i = (if p \<le> i \<and> i < p + length d then d ! (i - p) else m ! i)"
  by (auto simp: store_def nth_append not_less min_def split: if_splits)

lemma store_length: "store m p d = Some m' \<Longrightarrow> length m' = length m"
  by (auto simp: store_def split: if_splits)

lemma load_store_other:
  assumes "store m p d = Some m'" "q + n \<le> p \<or> p + length d \<le> q"
  shows "load m' q n = load m q n"
proof (cases "q + n \<le> length m")
  case True
  have "take n (drop q m') = take n (drop q m)"
    using True assms store_length [OF assms(1)]
    by (intro nth_equalityI) (auto simp: store_nth [OF assms(1)])
  then show ?thesis using store_length [OF assms(1)] by (simp add: load_def)
qed (use store_length [OF assms(1)] in \<open>simp add: load_def\<close>)

text \<open>
  The contract of a byte memory: what a load returns after a store, and that a store keeps
  the size. Everything the components need about typed accesses follows from these laws.
\<close>

locale byte_memory =
  fixes ld :: "'m \<Rightarrow> nat \<Rightarrow> nat \<Rightarrow> bytes option"
    and st :: "'m \<Rightarrow> nat \<Rightarrow> bytes \<Rightarrow> 'm option"
    and msize :: "'m \<Rightarrow> nat"
  assumes ld_defined: "(ld m p n \<noteq> None) = (p + n \<le> msize m)"
    and st_defined: "(st m p d \<noteq> None) = (p + length d \<le> msize m)"
    and ld_length: "ld m p n = Some bs \<Longrightarrow> length bs = n"
    and st_msize: "st m p d = Some m' \<Longrightarrow> msize m' = msize m"
    and ld_st_same: "st m p d = Some m' \<Longrightarrow> ld m' p (length d) = Some d"
    and ld_st_other: "st m p d = Some m' \<Longrightarrow> q + n \<le> p \<or> p + length d \<le> q \<Longrightarrow> ld m' q n = ld m q n"
begin

lemma st_then_ld_number:
  assumes "st m p (le_bytes n v) = Some m'"
  shows "map_option le_val (ld m' p n) = Some (v mod 256 ^ n)"
  using ld_st_same [OF assms] by simp

lemma number_st_other:
  assumes "st m p d = Some m'" "q + n \<le> p \<or> p + length d \<le> q"
  shows "map_option le_val (ld m' q n) = map_option le_val (ld m q n)"
  using ld_st_other [OF assms] by simp

lemma number_in_range:
  assumes "p + n \<le> msize m"
  obtains v where "map_option le_val (ld m p n) = Some v" "v < 256 ^ n"
proof -
  obtain bs where bs: "ld m p n = Some bs" using assms ld_defined by blast
  show ?thesis
  proof (rule that)
    show "map_option le_val (ld m p n) = Some (le_val bs)" using bs by simp
    show "le_val bs < 256 ^ n" using le_val_less [of bs] ld_length [OF bs] by simp
  qed
qed

lemma two_stores_commute_load:
  assumes "st m p d = Some m1" "st m1 q e = Some m2" "q + length e \<le> p \<or> p + length d \<le> q"
  shows "ld m2 p (length d) = Some d"
  using ld_st_same [OF assms(1)] ld_st_other [OF assms(2), of p "length d"] assms(3) by auto

end

interpretation bm: byte_memory load store length
proof (unfold_locales, goal_cases)
  case (6 m p d m' q n)
  then show ?case by (rule load_store_other)
qed (auto simp: load_def store_def split: if_splits)

definition num :: "bytes \<Rightarrow> nat \<Rightarrow> nat \<Rightarrow> nat option" where
  "num m p n = map_option le_val (load m p n)"

definition put :: "bytes \<Rightarrow> nat \<Rightarrow> nat \<Rightarrow> nat \<Rightarrow> bytes option" where
  "put m p n v = store m p (le_bytes n v)"

lemma load_None_iff [mem_simps]: "load m p n = None \<longleftrightarrow> length m < p + n"
  by (auto simp: load_def)

lemma store_None_iff [mem_simps]: "store m p d = None \<longleftrightarrow> length m < p + length d"
  by (auto simp: store_def)

lemma num_None_iff [mem_simps]: "num m p n = None \<longleftrightarrow> length m < p + n"
  by (simp add: num_def mem_simps)

lemma put_None_iff [mem_simps]: "put m p n v = None \<longleftrightarrow> length m < p + n"
  by (simp add: put_def mem_simps)

lemma num_OK: "p + n \<le> length m \<Longrightarrow> \<exists>v. num m p n = Some v \<and> v < 256 ^ n"
  using bm.number_in_range [of p n m] by (metis num_def)

lemma put_OK: "p + n \<le> length m \<Longrightarrow> \<exists>m'. put m p n v = Some m' \<and> length m' = length m"
  by (auto simp: put_def store_def)

lemma put_num:
  "put m p n v = Some m' \<Longrightarrow> num m' p n = Some (v mod 256 ^ n)"
  "put m p n v = Some m' \<Longrightarrow> q + k \<le> p \<or> p + n \<le> q \<Longrightarrow> num m' q k = num m q k"
  using bm.st_then_ld_number [of m p n v m'] bm.number_st_other [of m p "le_bytes n v" m' q k]
  by (auto simp: put_def num_def)

lemma put_length: "put m p n v = Some m' \<Longrightarrow> length m' = length m"
  unfolding put_def by (rule store_length)

text \<open>Two memories that agree on a range, and what that gives for accesses inside it.\<close>

definition same_on :: "bytes \<Rightarrow> bytes \<Rightarrow> nat \<Rightarrow> nat \<Rightarrow> bool" where
  "same_on m m' lo hi = (length m' = length m \<and> (\<forall>i. lo \<le> i \<and> i < hi \<longrightarrow> m' ! i = m ! i))"

lemma same_on_load:
  assumes "same_on m m' lo hi" "lo \<le> p" "p + n \<le> hi"
  shows "load m' p n = load m p n"
proof (cases "p + n \<le> length m")
  case True
  have "take n (drop p m') = take n (drop p m)"
    using assms True by (intro nth_equalityI) (auto simp: same_on_def)
  then show ?thesis using assms(1) by (simp add: load_def same_on_def)
qed (use assms(1) in \<open>simp add: load_def same_on_def\<close>)

lemma same_on_num: "same_on m m' lo hi \<Longrightarrow> lo \<le> p \<Longrightarrow> p + n \<le> hi \<Longrightarrow> num m' p n = num m p n"
  using same_on_load [of m m' lo hi p n] by (simp add: num_def)

lemma put_same_on:
  "put m p n v = Some m' \<Longrightarrow> hi \<le> p \<or> p + n \<le> lo \<Longrightarrow> hi \<le> length m \<Longrightarrow> same_on m m' lo hi"
  unfolding put_def same_on_def by (auto dest: store_length simp: store_nth)

lemma same_on_trans: "same_on m m1 lo hi \<Longrightarrow> same_on m1 m2 lo hi \<Longrightarrow> same_on m m2 lo hi"
  by (auto simp: same_on_def)

lemma num_less: "num m p n = Some v \<Longrightarrow> v < 256 ^ n"
  using le_val_less bm.ld_length by (fastforce simp: num_def)

end
