(* ===== verification/Qmi_Desc.thy ===== *)
theory Qmi_Desc
  imports Prelude
begin

text \<open>
  QMI message descriptors: \<^verbatim>\<open>struct qmi_elem_info\<close> of
  \<^verbatim>\<open>include/linux/soc/qcom/qmi.h\<close> and the descriptor walks of
  \<^verbatim>\<open>drivers/soc/qcom/qmi_encdec.c\<close> that both the encoder and the decoder use.
  A descriptor array is a list that contains its \<open>QMI_EOTI\<close> terminator; a pointer into it
  is an index, and reading past the list is \<open>UB\<close>. The C fields of type \<open>u32\<close> and
  \<open>u8\<close> are naturals.
\<close>

named_theorems qmi_wf \<open>well-formedness of QMI descriptors\<close>

datatype qmi_elem_type =
    QMI_EOTI | QMI_OPT_FLAG | QMI_DATA_LEN
  | QMI_UNSIGNED_1_BYTE | QMI_UNSIGNED_2_BYTE | QMI_UNSIGNED_4_BYTE | QMI_UNSIGNED_8_BYTE
  | QMI_SIGNED_2_BYTE_ENUM | QMI_SIGNED_4_BYTE_ENUM | QMI_STRUCT | QMI_STRING

datatype qmi_array_type = NO_ARRAY | STATIC_ARRAY | VAR_LEN_ARRAY

datatype qmi_elem_info =
  EI (data_type: qmi_elem_type) (elem_len: nat) (elem_size: nat) (array_type: qmi_array_type)
     (tlv_type: nat) (offset: nat) (ei_array: "qmi_elem_info list option")

definition TLV_LEN_SIZE :: nat where "TLV_LEN_SIZE = 2"
definition TLV_TYPE_SIZE :: nat where "TLV_TYPE_SIZE = 1"
definition OPTIONAL_TLV_TYPE_START :: nat where "OPTIONAL_TLV_TYPE_START = 0x10"
definition U8_MAX :: nat where "U8_MAX = 255"

lemmas qmi_consts = TLV_LEN_SIZE_def TLV_TYPE_SIZE_def OPTIONAL_TLV_TYPE_START_def U8_MAX_def

text \<open>The fixed-size data types handled by one case of the encoder's and decoder's switch.\<close>

fun basic_type :: "qmi_elem_type \<Rightarrow> bool" where
  "basic_type QMI_UNSIGNED_1_BYTE = True"
| "basic_type QMI_UNSIGNED_2_BYTE = True"
| "basic_type QMI_UNSIGNED_4_BYTE = True"
| "basic_type QMI_UNSIGNED_8_BYTE = True"
| "basic_type QMI_SIGNED_2_BYTE_ENUM = True"
| "basic_type QMI_SIGNED_4_BYTE_ENUM = True"
| "basic_type _ = False"

definition ei_at :: "qmi_elem_info list \<Rightarrow> nat \<Rightarrow> qmi_elem_info option" where
  "ei_at arr k = (if k < length arr then Some (arr ! k) else None)"

lemma ei_at_Some [simp]: "ei_at arr k = Some ei \<longleftrightarrow> k < length arr \<and> arr ! k = ei"
  by (auto simp: ei_at_def)

lemma ei_at_None [simp]: "ei_at arr k = None \<longleftrightarrow> length arr \<le> k"
  by (auto simp: ei_at_def)

subsection \<open>Descriptor walks\<close>

text \<open>The \<^verbatim>\<open>do ... while\<close> loop of \<^verbatim>\<open>skip_to_next_elem\<close>.\<close>

function skip_same_tlv :: "qmi_elem_info list \<Rightarrow> nat \<Rightarrow> nat result" where
  "skip_same_tlv arr k =
     (case ei_at arr k of None \<Rightarrow> UB
      | Some ei \<Rightarrow>
          (case ei_at arr (Suc k) of None \<Rightarrow> UB
           | Some ei' \<Rightarrow>
               if tlv_type ei = tlv_type ei' then skip_same_tlv arr (Suc k) else OK (Suc k)))"
  by pat_completeness auto
termination
  by (relation "measure (\<lambda>(arr, k). length arr - k)") auto

declare skip_same_tlv.simps [simp del]

definition skip_to_next_elem :: "qmi_elem_info list \<Rightarrow> nat \<Rightarrow> nat \<Rightarrow> nat result" where
  "skip_to_next_elem arr k level = (if level > 1 then OK (Suc k) else skip_same_tlv arr k)"

lemma skip_same_tlv_bounds: "skip_same_tlv arr k = OK k' \<Longrightarrow> k < k' \<and> k' < length arr"
proof (induction arr k rule: skip_same_tlv.induct)
  case (1 arr k)
  from "1.prems" show ?case
    by (subst (asm) skip_same_tlv.simps)
      (use "1.IH" [of "arr ! k" "arr ! Suc k"] in \<open>auto split: option.splits if_splits\<close>)
qed

lemma skip_to_next_elem_advances: "skip_to_next_elem arr k level = OK k' \<Longrightarrow> k < k'"
  by (auto simp: skip_to_next_elem_def dest: skip_same_tlv_bounds split: if_splits)

fun find_ei_from :: "qmi_elem_info list \<Rightarrow> nat \<Rightarrow> nat \<Rightarrow> nat option result" where
  "find_ei_from [] k type = UB"
| "find_ei_from (ei # eis) k type =
     (if data_type ei = QMI_EOTI then OK None
      else if tlv_type ei = type mod 256 then OK (Some k)
      else find_ei_from eis (Suc k) type)"

definition find_ei :: "qmi_elem_info list \<Rightarrow> nat \<Rightarrow> nat option result" where
  "find_ei arr type = find_ei_from arr 0 type"

text \<open>Width of the length prefix of a \<open>QMI_DATA_LEN\<close> element and of a nested string.\<close>

definition data_len_size :: "qmi_elem_info \<Rightarrow> nat" where
  "data_len_size ei = (if elem_size ei = 1 then 1 else 2)"

definition string_len_size :: "qmi_elem_info \<Rightarrow> nat" where
  "string_len_size ei = (if elem_len ei \<le> U8_MAX then 1 else 2)"

lemma size_member_ei: "ei \<in> set arr \<Longrightarrow> size ei < size_list size arr"
  by (induction arr) auto

lemma size_nth_ei: "k < length arr \<Longrightarrow> size (arr ! k) < size_list size arr"
  by (simp add: size_member_ei)

lemma size_ei_array_opt: "size_option (size_list size) (ei_array ei) < size ei"
  by (cases ei) simp

lemma size_ei_array: "ei_array ei = Some sub \<Longrightarrow> size_list size sub < size ei"
  by (cases ei) simp

function qmi_calc_min_loop ::
  "qmi_elem_info list \<Rightarrow> nat \<Rightarrow> nat \<Rightarrow> nat \<Rightarrow> nat result" where
  "qmi_calc_min_loop arr k level len =
     (case ei_at arr k of None \<Rightarrow> UB
      | Some ei \<Rightarrow>
          if data_type ei = QMI_EOTI then OK len
          else if data_type ei = QMI_OPT_FLAG then
            rbind (skip_to_next_elem arr k level) (\<lambda>k'. qmi_calc_min_loop arr k' level len)
          else if data_type ei = QMI_DATA_LEN then
            qmi_calc_min_loop arr (Suc k) level (u32 (len + data_len_size ei))
          else
            rbind (if data_type ei = QMI_STRUCT then
                     (case ei_array ei of None \<Rightarrow> OK 0
                      | Some sub \<Rightarrow> qmi_calc_min_loop sub 0 (Suc level) 0)
                   else if data_type ei = QMI_STRING then
                     OK ((if level > 1 then string_len_size ei else 0)
                         + u32 (elem_len ei * elem_size ei))
                   else OK (u32 (elem_len ei * elem_size ei)))
              (\<lambda>n. qmi_calc_min_loop arr (Suc k) level
                     (u32 (len + n + (if level = 1 then TLV_TYPE_SIZE + TLV_LEN_SIZE else 0)))))"
  by pat_completeness auto
termination
proof (relation "measures [\<lambda>(arr, k, level, len). size_list size arr,
                           \<lambda>(arr, k, level, len). length arr - k]", goal_cases)
  case (4 arr k level len ei sub)
  then show ?case using size_nth_ei [of k arr] size_ei_array [of ei sub] by simp
qed (auto dest: skip_to_next_elem_advances)

declare qmi_calc_min_loop.simps [simp del]

definition qmi_calc_min_msg_len :: "qmi_elem_info list option \<Rightarrow> nat \<Rightarrow> nat result" where
  "qmi_calc_min_msg_len ei level =
     (case ei of None \<Rightarrow> OK 0 | Some arr \<Rightarrow> qmi_calc_min_loop arr 0 level 0)"

end
