(* ===== verification/Qmi_Encode.thy ===== *)
theory Qmi_Encode
  imports Qmi_Desc
begin

text \<open>
  The encoder of \<^verbatim>\<open>drivers/soc/qcom/qmi_encdec.c\<close>: \<^verbatim>\<open>qmi_encode\<close> and the
  element encoders it calls. The output buffer is a byte memory, \<open>base\<close> the position of
  \<^verbatim>\<open>out_buf\<close> in it; the C structure is a byte memory \<open>src\<close> with \<open>sbase\<close> the
  position of \<^verbatim>\<open>in_c_struct\<close>. The record \<open>enc\<close> holds the local variables of
  \<^verbatim>\<open>qmi_encode\<close>. Byte counts are returned as naturals: the buffers are far below
  \<open>2 ^ 31\<close> bytes, where the \<open>int\<close> of the C code is the identity.
\<close>

subsection \<open>Copying elements\<close>

text \<open>\<^verbatim>\<open>QMI_ENCDEC_ENCODE_N_BYTES\<close> and \<^verbatim>\<open>QMI_ENCDEC_DECODE_N_BYTES\<close> in their loops.\<close>

fun copy_elems :: "bytes \<Rightarrow> nat \<Rightarrow> bytes \<Rightarrow> nat \<Rightarrow> nat \<Rightarrow> nat \<Rightarrow> nat \<Rightarrow> (bytes \<times> nat) result" where
  "copy_elems dst p src q 0 esz rc = OK (dst, rc)"
| "copy_elems dst p src q (Suc n) esz rc =
     rbind (of_opt (load src q esz)) (\<lambda>bs.
     rbind (of_opt (store dst p bs)) (\<lambda>dst'.
       copy_elems dst' (p + esz) src (q + esz) n esz (u32 (rc + esz))))"

definition qmi_encode_basic_elem ::
  "bytes \<Rightarrow> nat \<Rightarrow> bytes \<Rightarrow> nat \<Rightarrow> nat \<Rightarrow> nat \<Rightarrow> (bytes \<times> nat) result" where
  "qmi_encode_basic_elem dst p src q n esz = copy_elems dst p src q n esz 0"

definition c_strlen :: "bytes \<Rightarrow> nat \<Rightarrow> nat option" where
  "c_strlen src q =
     (let s = takeWhile (\<lambda>b. b \<noteq> 0) (drop q src)
      in if q + length s < length src then Some (length s) else None)"

definition qmi_encode_string_elem ::
  "qmi_elem_info \<Rightarrow> bytes \<Rightarrow> nat \<Rightarrow> bytes \<Rightarrow> nat \<Rightarrow> nat \<Rightarrow> nat \<Rightarrow> (bytes \<times> nat) result" where
  "qmi_encode_string_elem ei buf p src q out_buf_len enc_level =
     rbind (of_opt (c_strlen src q)) (\<lambda>string_len.
       if string_len > elem_len ei then Err EINVAL
       else if enc_level = 1 then
         (if string_len + TLV_LEN_SIZE + TLV_TYPE_SIZE > out_buf_len then Err ETOOSMALL
          else qmi_encode_basic_elem buf p src q string_len (elem_size ei))
       else if u32 (string_len + string_len_size ei) > out_buf_len then Err ETOOSMALL
       else
         rbind (qmi_encode_basic_elem buf p (le_bytes 4 string_len) 0 1 (string_len_size ei))
           (\<lambda>(buf', n).
         rbind (qmi_encode_basic_elem buf' (p + n) src q string_len (elem_size ei))
           (\<lambda>(buf'', rc). OK (buf'', n + rc))))"

subsection \<open>The main loop\<close>

record enc =
  e_buf :: bytes
  e_dst :: nat
  e_tlvp :: nat
  e_tlv_len :: nat
  e_bytes :: nat
  e_dlen :: nat
  e_tlv :: bool

definition enc_init :: "bytes \<Rightarrow> nat \<Rightarrow> nat \<Rightarrow> enc" where
  "enc_init buf base level =
     \<lparr>e_buf = buf, e_dst = base + (if level = 1 then TLV_LEN_SIZE + TLV_TYPE_SIZE else 0),
      e_tlvp = base, e_tlv_len = 0, e_bytes = 0, e_dlen = 0, e_tlv = False\<rparr>"

text \<open>The macro \<^verbatim>\<open>UPDATE_ENCODE_VARIABLES\<close> (the element pointer is advanced separately).\<close>

definition enc_update :: "bytes \<Rightarrow> nat \<Rightarrow> enc \<Rightarrow> enc" where
  "enc_update buf rc st =
     st\<lparr>e_buf := buf, e_dst := e_dst st + rc, e_bytes := u32 (e_bytes st + rc),
        e_tlv_len := u32 (e_tlv_len st + rc), e_tlv := True\<rparr>"

definition enc_data_len :: "qmi_elem_info \<Rightarrow> enc \<Rightarrow> enc result" where
  "enc_data_len ei st =
     (case array_type ei of
        NO_ARRAY \<Rightarrow> OK (st\<lparr>e_dlen := 1\<rparr>)
      | STATIC_ARRAY \<Rightarrow> OK (st\<lparr>e_dlen := elem_len ei\<rparr>)
      | VAR_LEN_ARRAY \<Rightarrow>
          if e_dlen st = 0 \<or> elem_len ei < e_dlen st then Err EINVAL else OK st)"

text \<open>
  The cases of the switch in \<^verbatim>\<open>qmi_encode\<close> other than \<open>QMI_STRUCT\<close>; the result is the
  next element and the new local state.
\<close>

definition encode_opt_flag ::
  "qmi_elem_info list \<Rightarrow> nat \<Rightarrow> bytes \<Rightarrow> nat \<Rightarrow> nat \<Rightarrow> enc \<Rightarrow> (nat \<times> enc) result" where
  "encode_opt_flag arr k src q level st =
     rbind (of_opt (load src q 1)) (\<lambda>flag.
     rbind (if flag \<noteq> [0] then OK (Suc k) else skip_to_next_elem arr k level)
       (\<lambda>k'. OK (k', st)))"

definition encode_data_len ::
  "qmi_elem_info list \<Rightarrow> nat \<Rightarrow> qmi_elem_info \<Rightarrow> bytes \<Rightarrow> nat \<Rightarrow> nat \<Rightarrow> nat \<Rightarrow> enc
     \<Rightarrow> (nat \<times> enc) result" where
  "encode_data_len arr k ei src q out_buf_len level st =
     rbind (of_opt (load src q (elem_size ei))) (\<lambda>bs.
     rbind (of_opt (store (le_bytes 4 (e_dlen st)) 0 bs)) (\<lambda>var.
       let dlen = le_val var; sz = data_len_size ei in
       if u32 (sz + e_bytes st) + TLV_LEN_SIZE + TLV_TYPE_SIZE > out_buf_len then Err ETOOSMALL
       else
         rbind (qmi_encode_basic_elem (e_buf st) (e_dst st) (le_bytes 4 dlen) 0 1 sz)
           (\<lambda>(buf, rc).
              let st' = enc_update buf rc (st\<lparr>e_dlen := dlen\<rparr>) in
              if dlen = 0 then
                rbind (skip_to_next_elem arr (Suc k) level) (\<lambda>k'. OK (k', st'))
              else OK (Suc k, st'\<lparr>e_tlv := False\<rparr>))))"

definition encode_basic ::
  "nat \<Rightarrow> qmi_elem_info \<Rightarrow> bytes \<Rightarrow> nat \<Rightarrow> nat \<Rightarrow> enc \<Rightarrow> (nat \<times> enc) result" where
  "encode_basic k ei src q out_buf_len st =
     (if u32 (u32 (e_dlen st * elem_size ei) + e_bytes st) + TLV_LEN_SIZE + TLV_TYPE_SIZE
           > out_buf_len then Err ETOOSMALL
      else
        rbind (qmi_encode_basic_elem (e_buf st) (e_dst st) src q (e_dlen st) (elem_size ei))
          (\<lambda>(buf, rc). OK (Suc k, enc_update buf rc st)))"

definition encode_string ::
  "nat \<Rightarrow> qmi_elem_info \<Rightarrow> bytes \<Rightarrow> nat \<Rightarrow> nat \<Rightarrow> nat \<Rightarrow> enc \<Rightarrow> (nat \<times> enc) result" where
  "encode_string k ei src q out_buf_len level st =
     rbind (qmi_encode_string_elem ei (e_buf st) (e_dst st) src q
              (u32_sub out_buf_len (e_bytes st)) level)
       (\<lambda>(buf, rc). OK (Suc k, enc_update buf rc st))"

definition encode_elem ::
  "qmi_elem_info list \<Rightarrow> nat \<Rightarrow> qmi_elem_info \<Rightarrow> bytes \<Rightarrow> nat \<Rightarrow> nat \<Rightarrow> nat \<Rightarrow> enc
     \<Rightarrow> (nat \<times> enc) result" where
  "encode_elem arr k ei src q out_buf_len level st =
     (case data_type ei of
        QMI_OPT_FLAG \<Rightarrow> encode_opt_flag arr k src q level st
      | QMI_DATA_LEN \<Rightarrow> encode_data_len arr k ei src q out_buf_len level st
      | QMI_STRING \<Rightarrow> encode_string k ei src q out_buf_len level st
      | QMI_EOTI \<Rightarrow> Err EINVAL
      | QMI_STRUCT \<Rightarrow> Err EINVAL
      | _ \<Rightarrow> encode_basic k ei src q out_buf_len st)"

text \<open>The type-length header written back once a top-level element is complete.\<close>

definition enc_finish_tlv :: "qmi_elem_info \<Rightarrow> nat \<Rightarrow> enc \<Rightarrow> enc result" where
  "enc_finish_tlv ei level st =
     (if e_tlv st \<and> level = 1 then
        rbind (of_opt (store (e_buf st) (e_tlvp st)
                        (of_nat (tlv_type ei) # le_bytes 2 (e_tlv_len st)))) (\<lambda>buf.
          OK (st\<lparr>e_buf := buf, e_bytes := u32 (e_bytes st + (TLV_TYPE_SIZE + TLV_LEN_SIZE)),
                 e_tlvp := e_dst st, e_tlv_len := 0,
                 e_dst := e_dst st + TLV_LEN_SIZE + TLV_TYPE_SIZE, e_tlv := False\<rparr>))
      else OK st)"

lemma encode_elem_advances:
  "encode_elem arr k ei src q len level st = OK (k', st') \<Longrightarrow> k < k'"
  by (auto simp: encode_elem_def encode_opt_flag_def encode_data_len_def encode_basic_def
      encode_string_def Let_def split: qmi_elem_type.splits if_splits
      dest: skip_to_next_elem_advances)

function qmi_encode ::
  "qmi_elem_info list option \<Rightarrow> bytes \<Rightarrow> nat \<Rightarrow> bytes \<Rightarrow> nat \<Rightarrow> nat \<Rightarrow> nat \<Rightarrow> (bytes \<times> nat) result"
and qmi_encode_loop ::
  "qmi_elem_info list \<Rightarrow> nat \<Rightarrow> bytes \<Rightarrow> nat \<Rightarrow> nat \<Rightarrow> nat \<Rightarrow> enc \<Rightarrow> (bytes \<times> nat) result"
and qmi_encode_struct_elem ::
  "qmi_elem_info \<Rightarrow> bytes \<Rightarrow> nat \<Rightarrow> bytes \<Rightarrow> nat \<Rightarrow> nat \<Rightarrow> nat \<Rightarrow> nat \<Rightarrow> nat \<Rightarrow> (bytes \<times> nat) result"
where
  "qmi_encode eis buf base src sbase out_buf_len level =
     (case eis of None \<Rightarrow> OK (buf, 0)
      | Some arr \<Rightarrow> qmi_encode_loop arr 0 src sbase out_buf_len level (enc_init buf base level))"
| "qmi_encode_loop arr k src sbase out_buf_len level st =
     (case ei_at arr k of None \<Rightarrow> UB
      | Some ei \<Rightarrow>
          if data_type ei = QMI_EOTI then OK (e_buf st, e_bytes st)
          else
            rbind (enc_data_len ei st) (\<lambda>st1.
            rbind (if data_type ei = QMI_STRUCT then
                     rbind (qmi_encode_struct_elem ei (e_buf st1) (e_dst st1) src
                              (sbase + offset ei) (e_dlen st1)
                              (u32_sub out_buf_len (e_bytes st1)) (Suc level) 0)
                       (\<lambda>(buf, rc). OK (Suc k, enc_update buf rc st1))
                   else encode_elem arr k ei src (sbase + offset ei) out_buf_len level st1)
              (\<lambda>(k', st2).
            rbind (enc_finish_tlv ei level st2) (\<lambda>st3.
              qmi_encode_loop arr k' src sbase out_buf_len level st3))))"
| "qmi_encode_struct_elem ei buf p src q n out_buf_len level encoded =
     (case n of 0 \<Rightarrow> OK (buf, encoded)
      | Suc m \<Rightarrow>
          rbind (qmi_encode (ei_array ei) buf p src q (u32_sub out_buf_len encoded) level)
            (\<lambda>(buf', rc).
               qmi_encode_struct_elem ei buf' (p + rc) src (q + elem_size ei) m out_buf_len level
                 (encoded + rc)))"
  by pat_completeness auto
termination
proof (relation "measures
   [\<lambda>x. case x of
      Inl (eis, _) \<Rightarrow> size_option (size_list size) eis
    | Inr (Inl (arr, _)) \<Rightarrow> size_list size arr
    | Inr (Inr (ei, _)) \<Rightarrow> size ei,
    \<lambda>x. case x of
      Inl _ \<Rightarrow> 0
    | Inr (Inl (arr, k, _)) \<Rightarrow> length arr - k
    | Inr (Inr (ei, buf, p, src, q, n, _)) \<Rightarrow> n]", goal_cases)
  case (4 arr k src sbase out_buf_len level st ei st1 p k' st2 st3)
  then show ?case
    by (auto dest: encode_elem_advances split: if_splits)
qed (auto simp: size_nth_ei size_ei_array_opt less_imp_neq)

declare qmi_encode.simps [simp del] qmi_encode_loop.simps [simp del]
  qmi_encode_struct_elem.simps [simp del]

end
