(* ===== verification/Qmi_Decode.thy ===== *)
theory Qmi_Decode
  imports Qmi_Encode
begin

text \<open>
  The decoder of \<^verbatim>\<open>drivers/soc/qcom/qmi_encdec.c\<close>. The input message is a byte memory
  \<open>src\<close> with \<open>q\<close> the read position (\<^verbatim>\<open>buf_src\<close>); the C structure being filled is
  a byte memory with \<open>cbase\<close> the position of \<^verbatim>\<open>out_c_struct\<close>. The record \<open>dec\<close>
  holds the local variables of \<^verbatim>\<open>qmi_decode\<close>.
\<close>

subsection \<open>Element decoders\<close>

definition qmi_decode_basic_elem ::
  "bytes \<Rightarrow> nat \<Rightarrow> bytes \<Rightarrow> nat \<Rightarrow> nat \<Rightarrow> nat \<Rightarrow> nat \<Rightarrow> (bytes \<times> nat) result" where
  "qmi_decode_basic_elem dst p src q n esz src_len =
     (if u32 (n * esz) > src_len then Err EINVAL else copy_elems dst p src q n esz 0)"

definition qmi_decode_string_elem ::
  "qmi_elem_info \<Rightarrow> bytes \<Rightarrow> nat \<Rightarrow> bytes \<Rightarrow> nat \<Rightarrow> nat \<Rightarrow> nat \<Rightarrow> nat \<Rightarrow> (bytes \<times> nat) result" where
  "qmi_decode_string_elem ei dst p src q tlv_len dec_level src_len =
     rbind (if dec_level = 1 then OK (tlv_len, 0)
            else rbind (qmi_decode_basic_elem (le_bytes 4 0) 0 src q 1 (string_len_size ei) src_len)
                   (\<lambda>(var, rc). OK (le_val var, rc)))
       (\<lambda>(string_len, decoded).
          if string_len \<ge> elem_len ei then Err ETOOSMALL
          else if string_len > tlv_len then Err EFAULT
          else
            rbind (qmi_decode_basic_elem dst p src (q + decoded) string_len (elem_size ei)
                     (u32_sub src_len decoded)) (\<lambda>(dst', rc).
            rbind (of_opt (store dst' (p + string_len) [0])) (\<lambda>dst''.
              OK (dst'', decoded + rc))))"

subsection \<open>The main loop\<close>

record dec =
  d_struct :: bytes
  d_src :: nat
  d_bytes :: nat
  d_dlen :: nat
  d_tlv_len :: nat
  d_tlv_type :: nat

definition dec_init :: "bytes \<Rightarrow> nat \<Rightarrow> dec" where
  "dec_init cs q = \<lparr>d_struct = cs, d_src = q, d_bytes = 0, d_dlen = 0, d_tlv_len = 0,
                    d_tlv_type = 0\<rparr>"

text \<open>The macro \<^verbatim>\<open>UPDATE_DECODE_VARIABLES\<close>.\<close>

definition dec_update :: "nat \<Rightarrow> dec \<Rightarrow> dec" where
  "dec_update rc st = st\<lparr>d_src := d_src st + rc, d_bytes := u32 (d_bytes st + rc)\<rparr>"

text \<open>
  Choosing the element: at level 1 the type-length header is read and the descriptor is
  searched for its type (\<open>None\<close>: an unknown optional element, skipped over); below, the
  current element is decoded in the remaining space.
\<close>

definition dec_select ::
  "qmi_elem_info list \<Rightarrow> nat \<Rightarrow> bytes \<Rightarrow> nat \<Rightarrow> nat \<Rightarrow> dec \<Rightarrow> (nat option \<times> dec) result" where
  "dec_select arr k src in_buf_len level st =
     (if level = 1 then
        (if d_bytes st + TLV_TYPE_SIZE + TLV_LEN_SIZE > in_buf_len then Err EINVAL
         else
           rbind (of_opt (num src (d_src st) 1)) (\<lambda>type.
           rbind (of_opt (num src (d_src st + 1) 2)) (\<lambda>len.
             let st1 = (dec_update (TLV_TYPE_SIZE + TLV_LEN_SIZE) st)
                         \<lparr>d_tlv_type := type, d_tlv_len := len\<rparr> in
             rbind (find_ei arr type) (\<lambda>found.
               case found of
                 None \<Rightarrow> if type < OPTIONAL_TLV_TYPE_START then Err EINVAL
                         else OK (None, dec_update len st1)
               | Some k' \<Rightarrow> OK (Some k', st1)))))
      else OK (Some k, st\<lparr>d_tlv_len := u32_sub in_buf_len (d_bytes st)\<rparr>))"

definition dec_opt_flag ::
  "qmi_elem_info list \<Rightarrow> nat \<Rightarrow> nat \<Rightarrow> dec \<Rightarrow> (nat \<times> dec) result" where
  "dec_opt_flag arr k cbase st =
     rbind (of_opt (ei_at arr k)) (\<lambda>ei.
       if data_type ei = QMI_OPT_FLAG then
         rbind (of_opt (store (d_struct st) (cbase + offset ei) [1])) (\<lambda>cs.
           OK (Suc k, st\<lparr>d_struct := cs\<rparr>))
       else OK (k, st))"

text \<open>
  The length prefix is copied into the low bytes of \<^verbatim>\<open>data_len_value\<close>, which keeps the
  other bytes of its previous value; the whole \<open>u32\<close> is then stored in the structure.
\<close>

definition dec_data_len ::
  "qmi_elem_info list \<Rightarrow> nat \<Rightarrow> nat \<Rightarrow> bytes \<Rightarrow> nat \<Rightarrow> dec \<Rightarrow> (nat \<times> dec) result" where
  "dec_data_len arr k cbase src in_buf_len st =
     rbind (of_opt (ei_at arr k)) (\<lambda>ei.
       if data_type ei = QMI_DATA_LEN then
         let sz = data_len_size ei in
         rbind (qmi_decode_basic_elem (le_bytes 4 (d_dlen st)) 0 src (d_src st) 1 sz
                  (u32_sub in_buf_len (d_bytes st))) (\<lambda>(var, rc).
         rbind (of_opt (store (d_struct st) (cbase + offset ei) var)) (\<lambda>cs.
           OK (Suc k, dec_update rc (st\<lparr>d_struct := cs, d_dlen := le_val var,
                                        d_tlv_len := u32_sub (d_tlv_len st) sz\<rparr>))))
       else OK (k, st))"

definition dec_array_len :: "qmi_elem_info \<Rightarrow> dec \<Rightarrow> dec result" where
  "dec_array_len ei st =
     (case array_type ei of
        NO_ARRAY \<Rightarrow> OK (st\<lparr>d_dlen := 1\<rparr>)
      | STATIC_ARRAY \<Rightarrow> OK (st\<lparr>d_dlen := elem_len ei\<rparr>)
      | VAR_LEN_ARRAY \<Rightarrow> if d_dlen st > elem_len ei then Err ETOOSMALL else OK st)"

text \<open>The part of the loop body before the switch: element, option flag, length prefix, count.\<close>

definition dec_prefix ::
  "qmi_elem_info list \<Rightarrow> nat \<Rightarrow> nat \<Rightarrow> bytes \<Rightarrow> nat \<Rightarrow> dec \<Rightarrow> (nat \<times> qmi_elem_info \<times> dec) result" where
  "dec_prefix arr k cbase src in_buf_len st =
     rbind (dec_opt_flag arr k cbase st) (\<lambda>(k1, st1).
     rbind (dec_data_len arr k1 cbase src in_buf_len st1) (\<lambda>(k2, st2).
     rbind (of_opt (ei_at arr k2)) (\<lambda>ei.
     rbind (dec_array_len ei st2) (\<lambda>st3. OK (k2, ei, st3)))))"

text \<open>The cases of the switch in \<^verbatim>\<open>qmi_decode\<close> other than \<open>QMI_STRUCT\<close>.\<close>

definition dec_elem ::
  "qmi_elem_info \<Rightarrow> nat \<Rightarrow> bytes \<Rightarrow> nat \<Rightarrow> nat \<Rightarrow> dec \<Rightarrow> (bytes \<times> nat) result" where
  "dec_elem ei p src in_buf_len level st =
     (case data_type ei of
        QMI_STRING \<Rightarrow> qmi_decode_string_elem ei (d_struct st) p src (d_src st) (d_tlv_len st) level
                        (u32_sub in_buf_len (d_bytes st))
      | QMI_EOTI \<Rightarrow> Err EINVAL
      | QMI_OPT_FLAG \<Rightarrow> Err EINVAL
      | QMI_DATA_LEN \<Rightarrow> Err EINVAL
      | QMI_STRUCT \<Rightarrow> Err EINVAL
      | _ \<Rightarrow> qmi_decode_basic_elem (d_struct st) p src (d_src st) (d_dlen st) (elem_size ei)
               (u32_sub in_buf_len (d_bytes st)))"

lemma dec_select_cases:
  assumes "dec_select arr k src len level st = OK (ok, st')"
  shows "(level = 1 \<and> d_src st < length src \<and> d_src st < d_src st') \<or>
         (level \<noteq> 1 \<and> ok = Some k \<and> d_src st' = d_src st)"
  using assms
  by (auto simp: dec_select_def dec_update_def qmi_consts mem_simps num_def load_def Let_def
      split: if_splits option.splits)

lemma dec_prefix_advances:
  assumes "dec_prefix arr k cbase src len st = OK (k', ei, st')"
  shows "k \<le> k' \<and> k' < length arr \<and> ei = arr ! k' \<and> d_src st \<le> d_src st'"
  using assms
  by (auto simp: dec_prefix_def dec_opt_flag_def dec_data_len_def dec_array_len_def dec_update_def
      Let_def split: if_splits option.splits qmi_array_type.splits)

lemma dec_skip_measure:
  "dec_select arr k src len level st = OK (None, st1) \<Longrightarrow>
     level = 1 \<and> length src - d_src st1 < length src - d_src st"
  using dec_select_cases [of arr k src len level st None st1] by auto

lemma dec_step_measure:
  assumes "dec_select arr k src len level st = OK (Some k1, st1)"
    and "dec_prefix arr k1 cbase src len' st1 = OK (k2, ei, st2)"
  shows "level = 1 \<and> length src - (d_src st2 + rc) < length src - d_src st \<or>
         level \<noteq> 1 \<and> length arr - Suc k2 < length arr - k"
  using dec_select_cases [OF assms(1)] dec_prefix_advances [OF assms(2)] by auto

lemma dec_prefix_size:
  "dec_prefix arr k cbase src len st = OK (k', ei, st') \<Longrightarrow> size ei < size_list size arr"
  using dec_prefix_advances [of arr k cbase src len st k' ei st'] size_nth_ei by auto

function qmi_decode ::
  "qmi_elem_info list option \<Rightarrow> bytes \<Rightarrow> nat \<Rightarrow> bytes \<Rightarrow> nat \<Rightarrow> nat \<Rightarrow> nat \<Rightarrow> (bytes \<times> nat) result"
and qmi_decode_loop ::
  "qmi_elem_info list \<Rightarrow> nat \<Rightarrow> nat \<Rightarrow> bytes \<Rightarrow> nat \<Rightarrow> nat \<Rightarrow> dec \<Rightarrow> (bytes \<times> nat) result"
and qmi_decode_struct_elem ::
  "qmi_elem_info \<Rightarrow> bytes \<Rightarrow> nat \<Rightarrow> bytes \<Rightarrow> nat \<Rightarrow> nat \<Rightarrow> nat \<Rightarrow> nat \<Rightarrow> nat \<Rightarrow> (bytes \<times> nat) result"
and qmi_decode_structs ::
  "qmi_elem_info \<Rightarrow> bytes \<Rightarrow> nat \<Rightarrow> bytes \<Rightarrow> nat \<Rightarrow> nat \<Rightarrow> nat \<Rightarrow> nat \<Rightarrow> nat \<Rightarrow> nat \<Rightarrow> (bytes \<times> nat) result"
where
  "qmi_decode eis cs cbase src q in_buf_len level =
     (case eis of
        None \<Rightarrow> if in_buf_len = 0 then OK (cs, 0) else UB
      | Some arr \<Rightarrow> qmi_decode_loop arr 0 cbase src in_buf_len level (dec_init cs q))"
| "qmi_decode_loop arr k cbase src in_buf_len level st =
     (if \<not> d_bytes st < in_buf_len then OK (d_struct st, d_bytes st)
      else if level \<ge> 2 \<and> length arr \<le> k then UB
      else if level \<ge> 2 \<and> data_type (arr ! k) = QMI_EOTI then OK (d_struct st, d_bytes st)
      else
        rbind (dec_select arr k src in_buf_len level st) (\<lambda>(sel, st1).
          case sel of
            None \<Rightarrow> qmi_decode_loop arr k cbase src in_buf_len level st1
          | Some k1 \<Rightarrow>
              rbind (dec_prefix arr k1 cbase src in_buf_len st1) (\<lambda>(k2, ei, st2).
              rbind (if data_type ei = QMI_STRUCT then
                       qmi_decode_struct_elem ei (d_struct st2) (cbase + offset ei) src (d_src st2)
                         (d_dlen st2) (d_tlv_len st2) (Suc level)
                         (u32_sub in_buf_len (d_bytes st2))
                     else dec_elem ei (cbase + offset ei) src in_buf_len level st2)
                (\<lambda>(cs, rc).
                   qmi_decode_loop arr (Suc k2) cbase src in_buf_len level
                     (dec_update rc (st2\<lparr>d_struct := cs\<rparr>))))))"
| "qmi_decode_struct_elem ei cs p src q elem_count tlv_len level src_len =
     (if tlv_len > src_len then Err EINVAL
      else qmi_decode_structs ei cs p src q elem_count 0 tlv_len level 0)"
| "qmi_decode_structs ei cs p src q elem_count i tlv_len level decoded =
     (if i < elem_count \<and> decoded < tlv_len then
        rbind (qmi_decode (ei_array ei) cs p src q (u32_sub tlv_len decoded) level)
          (\<lambda>(cs', rc).
             qmi_decode_structs ei cs' (p + elem_size ei) src (q + rc) elem_count (Suc i)
               tlv_len level (decoded + rc))
      else if (level \<le> 2 \<and> decoded \<noteq> tlv_len) \<or> (level > 2 \<and> (i < elem_count \<or> decoded > tlv_len))
      then Err EFAULT
      else OK (cs, decoded))"
  by pat_completeness auto
termination
proof (relation "measures
   [\<lambda>x. case x of
      Inl (Inl (eis, _)) \<Rightarrow> size_option (size_list size) eis
    | Inl (Inr (arr, _)) \<Rightarrow> size_list size arr
    | Inr (Inl (ei, _)) \<Rightarrow> size ei
    | Inr (Inr (ei, _)) \<Rightarrow> size ei,
    \<lambda>x. case x of
      Inl (Inl _) \<Rightarrow> 0
    | Inl (Inr (arr, k, cbase, src, len, level, st)) \<Rightarrow>
        if level = 1 then length src - d_src st else length arr - k
    | Inr (Inl (ei, cs, p, src, q, n, _)) \<Rightarrow> Suc n
    | Inr (Inr (ei, cs, p, src, q, n, i, _)) \<Rightarrow> n - i]", goal_cases)
  case (4 arr k cbase src in_buf_len level st x sel st1 k1 y k2 z ei st2)
  then show ?case using dec_prefix_size by fastforce
next
  case (3 arr k cbase src in_buf_len level st x sel st1)
  then show ?case using dec_skip_measure by fastforce
next
  case (5 arr k cbase src in_buf_len level st x sel st1 k1 y k2 z ei st2 w cs rc)
  then show ?case
    using dec_step_measure [of arr k src in_buf_len level st k1 st1 cbase in_buf_len k2 ei st2 rc]
    by (auto simp: dec_update_def)
qed (auto simp: size_ei_array_opt less_imp_neq)

declare qmi_decode.simps [simp del] qmi_decode_loop.simps [simp del]
  qmi_decode_struct_elem.simps [simp del] qmi_decode_structs.simps [simp del]

end
