(* ===== verification/Qmi_Message.thy ===== *)
theory Qmi_Message
  imports Qmi_Decode
begin

text \<open>
  The message level of \<^verbatim>\<open>drivers/soc/qcom/qmi_encdec.c\<close>:
  \<^verbatim>\<open>qmi_encode_message\<close>, \<^verbatim>\<open>qmi_decode_message\<close> and the descriptor of the common
  response header. Whether \<^verbatim>\<open>kzalloc\<close> succeeds is a parameter.
\<close>

definition QMI_HEADER_SIZE :: nat where "QMI_HEADER_SIZE = 7"

text \<open>The packed \<^verbatim>\<open>struct qmi_header\<close>: type, transaction, message and length.\<close>

definition qmi_header :: "nat \<Rightarrow> nat \<Rightarrow> nat \<Rightarrow> nat \<Rightarrow> bytes" where
  "qmi_header type txn_id msg_id msg_len =
     le_bytes 1 type @ le_bytes 2 txn_id @ le_bytes 2 msg_id @ le_bytes 2 msg_len"

definition qmi_encode_message ::
  "(nat \<Rightarrow> bool) \<Rightarrow> nat \<Rightarrow> nat \<Rightarrow> nat \<Rightarrow> nat \<Rightarrow> qmi_elem_info list option \<Rightarrow> bytes option
     \<Rightarrow> (bytes \<times> nat) result" where
  "qmi_encode_message kzalloc_ok type msg_id len txn_id ei c_struct =
     rbind (case c_struct of
              None \<Rightarrow> rbind (qmi_calc_min_msg_len ei 1)
                        (\<lambda>n. if n \<noteq> 0 then Err EINVAL else OK ())
            | Some _ \<Rightarrow> OK ()) (\<lambda>_.
       if \<not> kzalloc_ok (QMI_HEADER_SIZE + len) then Err ENOMEM
       else
         let msg = replicate (QMI_HEADER_SIZE + len) 0 in
         rbind (case c_struct of
                  None \<Rightarrow> OK (msg, 0)
                | Some cs \<Rightarrow> qmi_encode ei msg QMI_HEADER_SIZE cs 0 (u32 len) 1)
           (\<lambda>(msg', msglen).
              rbind (of_opt (store msg' 0 (qmi_header type txn_id msg_id msglen)))
                (\<lambda>msg''. OK (msg'', QMI_HEADER_SIZE + msglen))))"

definition qmi_decode_message ::
  "bytes option \<Rightarrow> nat \<Rightarrow> qmi_elem_info list option \<Rightarrow> bytes option \<Rightarrow> (bytes \<times> nat) result" where
  "qmi_decode_message buf len ei c_struct =
     (case ei of None \<Rightarrow> Err EINVAL
      | Some arr \<Rightarrow>
          (case (c_struct, buf) of
             (Some cs, Some b) \<Rightarrow>
               if len = 0 then Err EINVAL
               else qmi_decode (Some arr) cs 0 b QMI_HEADER_SIZE
                      (u32 (u64 (len + (2 ^ 64 - QMI_HEADER_SIZE)))) 1
           | _ \<Rightarrow> Err EINVAL))"

text \<open>\<^verbatim>\<open>qmi_response_type_v01_ei\<close>; \<open>result\<close> and \<open>error\<close> are at offsets 0 and 2.\<close>

definition qmi_response_type_v01_ei :: "qmi_elem_info list" where
  "qmi_response_type_v01_ei =
     [EI QMI_SIGNED_2_BYTE_ENUM 1 2 NO_ARRAY 0 0 None,
      EI QMI_SIGNED_2_BYTE_ENUM 1 2 NO_ARRAY 0 2 None,
      EI QMI_EOTI 0 0 NO_ARRAY 0 0 None]"

end
