(* ===== verification/Qmi_Safety.thy ===== *)
theory Qmi_Safety
  imports Qmi_Message
begin

text \<open>
  Memory safety of the QMI decoder on arbitrary input, and of the encoder on well-formed
  descriptors. A descriptor is checked against the size of the C structure it describes.
\<close>

subsection \<open>Copying\<close>

lemma copy_elems_OK:
  assumes "q + n * esz \<le> length src" "p + n * esz \<le> length dst"
  shows "\<exists>dst'. copy_elems dst p src q n esz rc = OK (dst', if n = 0 then rc else u32 (rc + n * esz))
           \<and> store dst p (take (n * esz) (drop q src)) = Some dst'"
  using assms
proof (induction n arbitrary: dst p q rc)
  case 0
  then show ?case by (simp add: store_def)
next
  case (Suc n)
  from Suc.prems have "q + esz \<le> length src" "p + esz \<le> length dst" by auto
  then obtain bs d1 where bs: "load src q esz = Some bs" and d1: "store dst p bs = Some d1"
    and len: "length bs = esz"
    by (auto simp: load_def store_def)
  have l1: "length d1 = length dst" using d1 by (rule store_length)
  have "q + esz + n * esz \<le> length src" "p + esz + n * esz \<le> length d1"
    using Suc.prems l1 by auto
  from Suc.IH [OF this] obtain d2 where
    c: "copy_elems d1 (p + esz) src (q + esz) n esz (u32 (rc + esz))
          = OK (d2, if n = 0 then u32 (rc + esz) else u32 (u32 (rc + esz) + n * esz))"
    and s2: "store d1 (p + esz) (take (n * esz) (drop (q + esz) src)) = Some d2"
    by blast
  have r: "u32 (u32 (rc + esz) + n * esz) = u32 (rc + (esz + n * esz))"
    by (simp add: u32_def mod_add_left_eq add.assoc)
  have "store dst p (take (Suc n * esz) (drop q src)) = Some d2"
  proof -
    have split: "take (Suc n * esz) (drop q src) = bs @ take (n * esz) (drop (q + esz) src)"
      using bs take_add [of esz "n * esz" "drop q src"]
      by (simp add: load_def add.commute [of esz q] split: if_splits)
    have "length d2 = length dst" using store_length [OF s2] l1 by simp
    moreover obtain d3 where d3: "store dst p (bs @ take (n * esz) (drop (q + esz) src)) = Some d3"
      using Suc.prems len by (simp add: store_def)
    moreover have "d3 = d2"
    proof (rule nth_equalityI)
      show "length d3 = length d2" using store_length [OF d3] \<open>length d2 = length dst\<close> by simp
      fix i assume "i < length d3"
      then have i: "i < length dst" using store_length [OF d3] by simp
      show "d3 ! i = d2 ! i"
        using i l1 len Suc.prems
        by (auto simp: store_nth [OF d3] store_nth [OF s2] store_nth [OF d1] nth_append)
    qed
    ultimately show ?thesis unfolding split by simp
  qed
  moreover have "copy_elems dst p src q (Suc n) esz rc = OK (d2, u32 (rc + Suc n * esz))"
    using bs d1 c r by (simp add: add.assoc)
  ultimately show ?case by simp
qed

lemma copy_elems_safe:
  assumes "q + n * esz \<le> length src" "p + n * esz \<le> length dst"
  shows "copy_elems dst p src q n esz 0 \<noteq> UB"
    and "copy_elems dst p src q n esz 0 = OK (dst', rc) \<Longrightarrow>
           length dst' = length dst \<and> rc = u32 (n * esz)"
proof -
  obtain d where "copy_elems dst p src q n esz 0 = OK (d, u32 (n * esz))" "length d = length dst"
    using copy_elems_OK [OF assms, of 0] by (auto simp: u32_def dest: store_length split: if_splits)
  then show "copy_elems dst p src q n esz 0 \<noteq> UB"
    and "copy_elems dst p src q n esz 0 = OK (dst', rc) \<Longrightarrow>
           length dst' = length dst \<and> rc = u32 (n * esz)"
    by auto
qed

lemma decode_basic_safe:
  assumes "n * esz < 2 ^ 32" "p + n * esz \<le> length dst" "q + src_len \<le> length src"
  shows "qmi_decode_basic_elem dst p src q n esz src_len \<noteq> UB"
    and "qmi_decode_basic_elem dst p src q n esz src_len = OK (dst', rc) \<Longrightarrow>
           length dst' = length dst \<and> rc = n * esz \<and> rc \<le> src_len"
proof -
  have u: "u32 (n * esz) = n * esz" using assms(1) by (rule u32_id)
  have "n * esz \<le> src_len \<Longrightarrow> q + n * esz \<le> length src" using assms(3) by linarith
  note safe = copy_elems_safe [OF this assms(2)]
  show "qmi_decode_basic_elem dst p src q n esz src_len \<noteq> UB"
    using safe(1) by (simp add: qmi_decode_basic_elem_def u)
  show "qmi_decode_basic_elem dst p src q n esz src_len = OK (dst', rc) \<Longrightarrow>
           length dst' = length dst \<and> rc = n * esz \<and> rc \<le> src_len"
    using safe(2) [of dst' rc] by (simp add: qmi_decode_basic_elem_def u split: if_splits)
qed

subsection \<open>Well-formed descriptors\<close>

text \<open>The number of instances of an element the C structure has room for.\<close>

definition max_count :: "qmi_elem_info \<Rightarrow> nat" where
  "max_count ei = (if array_type ei = NO_ARRAY then 1 else elem_len ei)"

text \<open>The index of the terminator.\<close>

definition eoti :: "qmi_elem_info list \<Rightarrow> nat" where
  "eoti arr = length (takeWhile (\<lambda>ei. data_type ei \<noteq> QMI_EOTI) arr)"

text \<open>
  An element fits a structure of \<open>S\<close> bytes: a flag is one byte, a length field is the
  \<open>u32\<close> the decoder writes, a string has room for its terminator, and a nested structure
  is itself well formed.
\<close>

lemma size_nested_ei: "ei_array ei = Some sub \<Longrightarrow> x \<in> set sub \<Longrightarrow> size x < size ei"
  using size_ei_array size_member_ei less_trans by blast

function wf_elem :: "nat \<Rightarrow> qmi_elem_info \<Rightarrow> bool" where
  "wf_elem S ei =
     (elem_len ei * elem_size ei < 2 ^ 32 \<and> elem_size ei < 2 ^ 32 \<and> tlv_type ei < 256 \<and>
      (case data_type ei of
         QMI_EOTI \<Rightarrow> True
       | QMI_OPT_FLAG \<Rightarrow> offset ei + 1 \<le> S
       | QMI_DATA_LEN \<Rightarrow> offset ei + 4 \<le> S
       | QMI_STRING \<Rightarrow> elem_size ei = 1 \<and> offset ei + elem_len ei \<le> S
       | QMI_STRUCT \<Rightarrow> offset ei + max_count ei * elem_size ei \<le> S \<and>
           (case ei_array ei of None \<Rightarrow> False
            | Some sub \<Rightarrow> eoti sub < length sub \<and> list_all (wf_elem (elem_size ei)) sub)
       | _ \<Rightarrow> offset ei + max_count ei * elem_size ei \<le> S))"
  by pat_completeness auto
termination
  by (relation "measure (\<lambda>(S, ei). size ei)")
    (auto simp: size_nested_ei)

declare wf_elem.simps [simp del]

definition wf_desc :: "nat \<Rightarrow> qmi_elem_info list \<Rightarrow> bool" where
  "wf_desc S arr = (eoti arr < length arr \<and> list_all (wf_elem S) arr)"

lemma eoti_nth: "eoti arr < length arr \<Longrightarrow> data_type (arr ! eoti arr) = QMI_EOTI"
  by (auto simp: eoti_def dest: nth_length_takeWhile)

lemma before_eoti: "k < eoti arr \<Longrightarrow> data_type (arr ! k) \<noteq> QMI_EOTI"
proof -
  let ?P = "\<lambda>ei. data_type ei \<noteq> QMI_EOTI"
  assume "k < eoti arr"
  then have "arr ! k \<in> set (takeWhile ?P arr)"
    using nth_mem [of k "takeWhile ?P arr"] by (simp add: eoti_def takeWhile_nth)
  then show ?thesis by (auto dest: set_takeWhileD)
qed

lemma eoti_next: "k \<le> eoti arr \<Longrightarrow> eoti arr < length arr \<Longrightarrow> data_type (arr ! k) \<noteq> QMI_EOTI \<Longrightarrow> k < eoti arr"
  using eoti_nth by (cases "k = eoti arr") auto

lemma wf_desc_nth: "wf_desc S arr \<Longrightarrow> k \<le> eoti arr \<Longrightarrow> k < length arr \<and> wf_elem S (arr ! k)"
  by (auto simp: wf_desc_def list_all_length)

lemma find_ei_from_wf:
  "eoti arr < length arr \<Longrightarrow>
     find_ei_from arr i t = OK None \<or> (\<exists>k. find_ei_from arr i t = OK (Some (i + k)) \<and> k < eoti arr)"
proof (induction arr arbitrary: i)
  case (Cons ei arr)
  show ?case
  proof (cases "data_type ei = QMI_EOTI \<or> tlv_type ei = t mod 256")
    case True
    then show ?thesis by (auto simp: eoti_def)
  next
    case False
    then have e: "eoti (ei # arr) = Suc (eoti arr)" by (simp add: eoti_def)
    with Cons.prems have "eoti arr < length arr" by simp
    from Cons.IH [OF this, of "Suc i"] show ?thesis
      using False e by (auto intro: exI [of _ "Suc _"])
  qed
qed simp

lemma find_ei_wf:
  assumes "wf_desc S arr"
  obtains "find_ei arr t = OK None" | k where "find_ei arr t = OK (Some k)" "k < eoti arr"
  using find_ei_from_wf [of arr 0 t] assms by (auto simp: find_ei_def wf_desc_def)

subsection \<open>The decoder\<close>

text \<open>The decoder's cursor agrees with its byte count, and the structure keeps its size.\<close>

definition dec_inv :: "nat \<Rightarrow> nat \<Rightarrow> dec \<Rightarrow> bool" where
  "dec_inv L q st = (length (d_struct st) = L \<and> d_src st = q + d_bytes st)"

lemma dec_update_inv:
  "dec_inv L q st \<Longrightarrow> d_bytes st + rc < 2 ^ 32 \<Longrightarrow> dec_inv L q (dec_update rc st)"
  "d_bytes st + rc < 2 ^ 32 \<Longrightarrow> d_bytes (dec_update rc st) = d_bytes st + rc"
  by (auto simp: dec_inv_def dec_update_def)

lemma dec_inv_fields [simp]:
  "dec_inv L q (st\<lparr>d_tlv_len := a\<rparr>) = dec_inv L q st"
  "dec_inv L q (st\<lparr>d_tlv_type := a\<rparr>) = dec_inv L q st"
  "dec_inv L q (st\<lparr>d_dlen := a\<rparr>) = dec_inv L q st"
  "dec_inv L q (st\<lparr>d_struct := cs\<rparr>) = (length cs = L \<and> d_src st = q + d_bytes st)"
  by (auto simp: dec_inv_def)

lemma dec_select_level1:
  assumes "wf_desc S arr" "dec_inv L q st" "d_bytes st < N" "q + N \<le> length src" "N < 2 ^ 31"
  shows "case dec_select arr k src N 1 st of
           OK (sel, st') \<Rightarrow> dec_inv L q st' \<and> (\<forall>k'. sel = Some k' \<longrightarrow> d_bytes st' \<le> N \<and> k' < eoti arr)
         | Err _ \<Rightarrow> True | UB \<Rightarrow> False"
proof (cases "d_bytes st + 3 \<le> N")
  case True
  let ?st1 = "dec_update (TLV_TYPE_SIZE + TLV_LEN_SIZE) st"
  have "d_src st + 1 \<le> length src" "d_src st + 1 + 2 \<le> length src"
    using assms(2,4) True by (auto simp: dec_inv_def)
  then obtain t l where t: "num src (d_src st) 1 = Some t"
    and l: "num src (d_src st + 1) 2 = Some l" "l < 65536"
    using num_OK [of "d_src st" 1 src] num_OK [of "d_src st + 1" 2 src] by auto
  have b1: "d_bytes ?st1 = d_bytes st + 3" and i1: "dec_inv L q ?st1"
    using True assms dec_update_inv(1) [of L q st 3] dec_update_inv(2) [of st 3]
    by (auto simp: qmi_consts numeral_3_eq_3)
  have i2: "dec_inv L q (dec_update l (?st1\<lparr>d_tlv_type := t, d_tlv_len := l\<rparr>))"
    using b1 i1 l True assms(5) by (intro dec_update_inv) auto
  have c: "\<not> d_bytes st + TLV_TYPE_SIZE + TLV_LEN_SIZE > N" using True by (simp add: qmi_consts)
  from assms(1) show ?thesis
    by (rule find_ei_wf [of S arr t]) (use c t l b1 i1 i2 True in \<open>auto simp: dec_select_def Let_def\<close>)
qed (auto simp: dec_select_def qmi_consts)

lemma dec_select_safe:
  assumes "wf_desc S arr" "dec_inv L q st" "d_bytes st < N" "q + N \<le> length src" "N < 2 ^ 31"
    and "k \<le> eoti arr"
  shows "dec_select arr k src N level st \<noteq> UB"
    and "dec_select arr k src N level st = OK (sel, st') \<Longrightarrow>
           dec_inv L q st' \<and> (sel = None \<longrightarrow> level = 1) \<and>
           (\<forall>k'. sel = Some k' \<longrightarrow> d_bytes st' \<le> N \<and> k' \<le> eoti arr)"
proof -
  have "level \<noteq> 1 \<Longrightarrow> dec_select arr k src N level st = OK (Some k, st\<lparr>d_tlv_len := u32_sub N (d_bytes st)\<rparr>)"
    by (simp add: dec_select_def)
  then show "dec_select arr k src N level st \<noteq> UB"
    and "dec_select arr k src N level st = OK (sel, st') \<Longrightarrow>
           dec_inv L q st' \<and> (sel = None \<longrightarrow> level = 1) \<and>
           (\<forall>k'. sel = Some k' \<longrightarrow> d_bytes st' \<le> N \<and> k' \<le> eoti arr)"
    using dec_select_level1 [OF assms(1-5), of k] assms(2,3,6)
    by (cases "level = 1"; auto split: result.splits)+
qed

lemma dec_opt_flag_safe:
  assumes "wf_desc S arr" "cbase + S \<le> L" "dec_inv L q st" "k \<le> eoti arr"
  shows "dec_opt_flag arr k cbase st \<noteq> UB"
    and "dec_opt_flag arr k cbase st = OK (k', st') \<Longrightarrow>
           dec_inv L q st' \<and> d_bytes st' = d_bytes st \<and> k' \<le> eoti arr \<and> d_tlv_len st' = d_tlv_len st"
proof -
  have w: "k < length arr" "wf_elem S (arr ! k)" using wf_desc_nth [OF assms(1,4)] by auto
  have l: "length (d_struct st) = L" using assms(3) by (simp add: dec_inv_def)
  have n: "data_type (arr ! k) = QMI_OPT_FLAG \<Longrightarrow> Suc k \<le> eoti arr \<and> cbase + offset (arr ! k) + 1 \<le> L"
    using w assms eoti_next [of k arr] by (auto simp: wf_desc_def wf_elem.simps [of S "arr ! k"])
  show "dec_opt_flag arr k cbase st \<noteq> UB"
    using w n l by (auto simp: dec_opt_flag_def mem_simps rbind_UB_iff)
  show "dec_opt_flag arr k cbase st = OK (k', st') \<Longrightarrow>
           dec_inv L q st' \<and> d_bytes st' = d_bytes st \<and> k' \<le> eoti arr \<and> d_tlv_len st' = d_tlv_len st"
    using w n l assms(3,4)
    by (auto simp: dec_opt_flag_def dec_inv_def dest: store_length split: if_splits)
qed

lemma dec_data_len_safe:
  assumes "wf_desc S arr" "cbase + S \<le> L" "dec_inv L q st" "k \<le> eoti arr"
    and "d_bytes st \<le> N" "q + N \<le> length src" "N < 2 ^ 31"
  shows "dec_data_len arr k cbase src N st \<noteq> UB"
    and "dec_data_len arr k cbase src N st = OK (k', st') \<Longrightarrow>
           dec_inv L q st' \<and> d_bytes st' \<le> N \<and> k' \<le> eoti arr"
proof -
  let ?ei = "arr ! k"
  have w: "k < length arr" "wf_elem S ?ei" using wf_desc_nth [OF assms(1,4)] by auto
  have l: "length (d_struct st) = L" "d_src st = q + d_bytes st"
    using assms(3) by (auto simp: dec_inv_def)
  have n: "data_type ?ei = QMI_DATA_LEN \<Longrightarrow> Suc k \<le> eoti arr \<and> cbase + offset ?ei + 4 \<le> L"
    using w assms eoti_next [of k arr] by (auto simp: wf_desc_def wf_elem.simps [of S ?ei])
  have sub: "u32_sub N (d_bytes st) = N - d_bytes st" using assms by (intro u32_sub_le) auto
  have sz: "data_len_size ?ei \<le> 2" by (simp add: data_len_size_def)
  have pre: "1 * data_len_size ?ei < 2 ^ 32" "0 + 1 * data_len_size ?ei \<le> length (le_bytes 4 (d_dlen st))"
    "d_src st + (N - d_bytes st) \<le> length src"
    using sz assms(5,6) l by auto
  note safe = decode_basic_safe [OF pre]
  show "dec_data_len arr k cbase src N st \<noteq> UB"
    using w n l safe
    by (auto simp: dec_data_len_def sub mem_simps rbind_UB_iff Let_def)
  show "dec_data_len arr k cbase src N st = OK (k', st') \<Longrightarrow>
           dec_inv L q st' \<and> d_bytes st' \<le> N \<and> k' \<le> eoti arr"
    using w n l safe(2) assms(3,4,5,7)
    by (fastforce simp: dec_data_len_def sub Let_def dec_inv_def dec_update_def
        dest: store_length split: if_splits)
qed

lemma dec_prefix_safe:
  assumes "wf_desc S arr" "cbase + S \<le> L" "dec_inv L q st" "k \<le> eoti arr"
    and "d_bytes st \<le> N" "q + N \<le> length src" "N < 2 ^ 31"
  shows "dec_prefix arr k cbase src N st \<noteq> UB"
    and "dec_prefix arr k cbase src N st = OK (k', ei, st') \<Longrightarrow>
           dec_inv L q st' \<and> d_bytes st' \<le> N \<and> k' \<le> eoti arr \<and> ei = arr ! k' \<and>
           d_dlen st' \<le> max_count ei"
proof -
  note o = dec_opt_flag_safe [OF assms(1-4)]
  have d: "dec_data_len arr k1 cbase src N st1 \<noteq> UB"
    "dec_data_len arr k1 cbase src N st1 = OK (k2, st2) \<Longrightarrow>
       dec_inv L q st2 \<and> d_bytes st2 \<le> N \<and> k2 \<le> eoti arr"
    if "dec_opt_flag arr k cbase st = OK (k1, st1)" for k1 st1 k2 st2
    using o(2) [OF that] assms(5) dec_data_len_safe(1) [OF assms(1,2) _ _ _ assms(6,7), of st1 k1]
      dec_data_len_safe(2) [OF assms(1,2) _ _ _ assms(6,7), of st1 k1 k2 st2]
    by auto
  have a: "dec_array_len ei st2 \<noteq> UB"
    "dec_array_len ei st2 = OK st3 \<Longrightarrow>
      d_dlen st3 \<le> max_count ei \<and> d_bytes st3 = d_bytes st2 \<and> dec_inv L q st3 = dec_inv L q st2"
    for ei st2 st3
    by (auto simp: dec_array_len_def max_count_def split: qmi_array_type.splits if_splits)
  show "dec_prefix arr k cbase src N st \<noteq> UB"
    using o d a(1) assms(1) by (auto simp: dec_prefix_def rbind_UB_iff wf_desc_def) fastforce
  show "dec_prefix arr k cbase src N st = OK (k', ei, st') \<Longrightarrow>
           dec_inv L q st' \<and> d_bytes st' \<le> N \<and> k' \<le> eoti arr \<and> ei = arr ! k' \<and>
           d_dlen st' \<le> max_count ei"
    using d(2) a(2) by (fastforce simp: dec_prefix_def)
qed

lemma wf_elem_basic:
  assumes "wf_elem S ei" "basic_type (data_type ei)" "n \<le> max_count ei"
  shows "offset ei + n * elem_size ei \<le> S" and "n * elem_size ei < 2 ^ 32"
proof -
  have w: "elem_len ei * elem_size ei < 2 ^ 32" "elem_size ei < 2 ^ 32"
    "offset ei + max_count ei * elem_size ei \<le> S"
    using assms(1,2) by (auto simp: wf_elem.simps [of S ei] split: qmi_elem_type.splits)
  have le: "n * elem_size ei \<le> max_count ei * elem_size ei" using assms(3) by (rule mult_le_mono1)
  show "offset ei + n * elem_size ei \<le> S" using w le by linarith
  have "max_count ei * elem_size ei < 2 ^ 32" using w by (simp add: max_count_def)
  then show "n * elem_size ei < 2 ^ 32" using le by linarith
qed

lemma decode_string_safe:
  assumes "data_type ei = QMI_STRING" "wf_elem S ei" "cbase + S \<le> length dst"
    and "q + src_len \<le> length src" "src_len < 2 ^ 31"
  shows "qmi_decode_string_elem ei dst (cbase + offset ei) src q tlv_len level src_len \<noteq> UB"
    and "qmi_decode_string_elem ei dst (cbase + offset ei) src q tlv_len level src_len = OK (dst', rc)
           \<Longrightarrow> length dst' = length dst \<and> rc \<le> src_len"
proof -
  have w: "elem_size ei = 1" "offset ei + elem_len ei \<le> S" "elem_len ei < 2 ^ 32"
    using assms(1,2) by (auto simp: wf_elem.simps [of S ei])
  let ?pre = "if level = 1 then OK (tlv_len, 0)
            else rbind (qmi_decode_basic_elem (le_bytes 4 0) 0 src q 1 (string_len_size ei) src_len)
                   (\<lambda>(var, rc). OK (le_val var, rc))"
  have sz: "1 * string_len_size ei < 2 ^ 32"
    "0 + 1 * string_len_size ei \<le> length (le_bytes 4 0)"
    by (auto simp: string_len_size_def)
  note pre = decode_basic_safe [OF sz assms(4)]
  have p1: "?pre \<noteq> UB" using pre(1) by (auto simp: rbind_UB_iff)
  have p2: "d \<le> src_len" if "?pre = OK (s, d)" for s d
    using that pre(2) by (auto split: if_splits)
  have body: "qmi_decode_basic_elem dst (cbase + offset ei) src (q + d) s (elem_size ei) (u32_sub src_len d) \<noteq> UB"
    "qmi_decode_basic_elem dst (cbase + offset ei) src (q + d) s (elem_size ei) (u32_sub src_len d) = OK (dst1, rc1)
       \<Longrightarrow> length dst1 = length dst \<and> d + rc1 \<le> src_len \<and> cbase + offset ei + s + 1 \<le> length dst1"
    if "?pre = OK (s, d)" "s < elem_len ei" for s d dst1 rc1
  proof -
    have sub: "u32_sub src_len d = src_len - d"
      using p2 [OF that(1)] assms(5) by (intro u32_sub_le) auto
    have a: "s * elem_size ei < 2 ^ 32" "cbase + offset ei + s * elem_size ei \<le> length dst"
      "q + d + (src_len - d) \<le> length src"
      using that(2) w assms(3,4) p2 [OF that(1)] by auto
    note b = decode_basic_safe [OF a]
    show "qmi_decode_basic_elem dst (cbase + offset ei) src (q + d) s (elem_size ei) (u32_sub src_len d) \<noteq> UB"
      using b(1) by (simp add: sub)
    show "qmi_decode_basic_elem dst (cbase + offset ei) src (q + d) s (elem_size ei) (u32_sub src_len d) = OK (dst1, rc1)
       \<Longrightarrow> length dst1 = length dst \<and> d + rc1 \<le> src_len \<and> cbase + offset ei + s + 1 \<le> length dst1"
      using b(2) [of dst1 rc1] that(2) w assms(3) p2 [OF that(1)] by (auto simp: sub)
  qed
  show "qmi_decode_string_elem ei dst (cbase + offset ei) src q tlv_len level src_len \<noteq> UB"
    using p1 body unfolding qmi_decode_string_elem_def
    by (fastforce simp: rbind_UB_iff mem_simps split: if_splits)
  show "qmi_decode_string_elem ei dst (cbase + offset ei) src q tlv_len level src_len = OK (dst', rc)
           \<Longrightarrow> length dst' = length dst \<and> rc \<le> src_len"
    using body unfolding qmi_decode_string_elem_def
    by (fastforce dest: store_length split: if_splits)
qed

text \<open>What a safe decoding step gives: no out-of-range access, the structure keeps its size, and a
  nested decode consumes no more than it was given.\<close>

definition dec_ok :: "nat \<Rightarrow> nat \<Rightarrow> nat \<Rightarrow> (bytes \<times> nat) result \<Rightarrow> bool" where
  "dec_ok L N level r =
     (case r of OK (cs, n) \<Rightarrow> length cs = L \<and> (level \<noteq> 1 \<longrightarrow> n \<le> N) | Err _ \<Rightarrow> True | UB \<Rightarrow> False)"

lemma dec_ok_simps [simp]:
  "dec_ok L N level (OK (cs, n)) \<longleftrightarrow> length cs = L \<and> (level \<noteq> 1 \<longrightarrow> n \<le> N)"
  "dec_ok L N level (Err e)" "\<not> dec_ok L N level UB"
  by (auto simp: dec_ok_def)

lemma dec_ok_bind:
  assumes "m \<noteq> UB" "\<And>x. m = OK x \<Longrightarrow> dec_ok L N level (f x)"
  shows "dec_ok L N level (rbind m f)"
  using assms by (cases m) auto

lemma dec_elem_safe:
  assumes "wf_elem S ei" "cbase + S \<le> length (d_struct st)" "d_dlen st \<le> max_count ei"
    and "d_src st + (N - d_bytes st) \<le> length src" "d_bytes st \<le> N" "N < 2 ^ 31"
  shows "dec_elem ei (cbase + offset ei) src N level st \<noteq> UB"
    and "dec_elem ei (cbase + offset ei) src N level st = OK (cs, rc) \<Longrightarrow>
           length cs = length (d_struct st) \<and> rc \<le> N - d_bytes st \<and>
           data_type ei \<noteq> QMI_EOTI"
proof -
  have sub: "u32_sub N (d_bytes st) = N - d_bytes st" using assms by (intro u32_sub_le) auto
  have "dec_elem ei (cbase + offset ei) src N level st \<noteq> UB \<and>
    (dec_elem ei (cbase + offset ei) src N level st = OK (cs, rc) \<longrightarrow>
           length cs = length (d_struct st) \<and> rc \<le> N - d_bytes st \<and> data_type ei \<noteq> QMI_EOTI)"
  proof (cases "basic_type (data_type ei)")
    case True
    note w = wf_elem_basic [OF assms(1) True assms(3)]
    have "cbase + offset ei + d_dlen st * elem_size ei \<le> length (d_struct st)"
      using w(1) assms(2) by linarith
    note d = decode_basic_safe [OF w(2) this assms(4)]
    have "dec_elem ei (cbase + offset ei) src N level st =
        qmi_decode_basic_elem (d_struct st) (cbase + offset ei) src (d_src st) (d_dlen st)
          (elem_size ei) (N - d_bytes st)"
      using True by (cases "data_type ei") (auto simp: dec_elem_def sub)
    then show ?thesis using d(1) d(2) [of cs rc] True by auto
  next
    case False
    show ?thesis
    proof (cases "data_type ei = QMI_STRING")
      case True
      have "N - d_bytes st < 2 ^ 31" using assms(6) by auto
      note d = decode_string_safe [OF True assms(1,2,4) this]
      then show ?thesis using True by (auto simp: dec_elem_def sub)
    qed (use False in \<open>cases "data_type ei"; auto simp: dec_elem_def\<close>)
  qed
  then show "dec_elem ei (cbase + offset ei) src N level st \<noteq> UB"
    and "dec_elem ei (cbase + offset ei) src N level st = OK (cs, rc) \<Longrightarrow>
           length cs = length (d_struct st) \<and> rc \<le> N - d_bytes st \<and> data_type ei \<noteq> QMI_EOTI"
    by auto
qed

lemma dec_body_safe:
  assumes "wf_elem S ei" "cbase + S \<le> L" "d_dlen st \<le> max_count ei" "dec_inv L q st"
    and "q + N \<le> length src" "d_bytes st \<le> N" "N < 2 ^ 31"
    and struct: "data_type ei = QMI_STRUCT \<Longrightarrow> dec_ok L (N - d_bytes st) (Suc level) r" "1 \<le> level"
  defines "body \<equiv> if data_type ei = QMI_STRUCT then r else dec_elem ei (cbase + offset ei) src N level st"
  shows "body \<noteq> UB"
    and "body = OK (cs, rc) \<Longrightarrow> length cs = L \<and> d_bytes st + rc \<le> N \<and> data_type ei \<noteq> QMI_EOTI"
proof -
  have i: "length (d_struct st) = L" "d_src st = q + d_bytes st" using assms(4) by (auto simp: dec_inv_def)
  have "cbase + S \<le> length (d_struct st)" "d_src st + (N - d_bytes st) \<le> length src"
    using assms(2,5,6) i by auto
  note e = dec_elem_safe [OF assms(1) this(1) assms(3) this(2) assms(6,7), of level]
  show "body \<noteq> UB"
    using struct e(1) by (auto simp: body_def)
  show "body = OK (cs, rc) \<Longrightarrow> length cs = L \<and> d_bytes st + rc \<le> N \<and> data_type ei \<noteq> QMI_EOTI"
    using struct e(2) [of cs rc] i assms(6) by (auto simp: body_def split: if_splits)
qed

lemmas qmi_decode_induct =
  qmi_decode_qmi_decode_loop_qmi_decode_struct_elem_qmi_decode_structs.induct

lemma wf_elem_struct:
  assumes "wf_elem S ei" "data_type ei = QMI_STRUCT" "n \<le> max_count ei"
  obtains sub where "ei_array ei = Some sub" "wf_desc (elem_size ei) sub"
    "offset ei + n * elem_size ei \<le> S"
proof -
  have "n * elem_size ei \<le> max_count ei * elem_size ei" using assms(3) by (rule mult_le_mono1)
  with assms that show thesis
    by (auto simp: wf_elem.simps [of S ei] wf_desc_def split: option.splits)
qed

text \<open>One round of the decoding loop, for any safe continuation \<open>F\<close> and struct decoder \<open>G\<close>.\<close>

lemma decode_round_safe:
  assumes env: "wf_desc S arr" "cbase + S \<le> L" "dec_inv L q st" "d_bytes st < N"
    "q + N \<le> length src" "N < 2 ^ 31" "1 \<le> level" "k \<le> eoti arr"
    and skip: "\<And>st1. dec_select arr k src N level st = OK (None, st1) \<Longrightarrow> level = 1 \<Longrightarrow>
       dec_inv L q st1 \<Longrightarrow> dec_ok L N level (F k st1)"
    and struct: "\<And>k1 st1 k2 ei st2. dec_select arr k src N level st = OK (Some k1, st1) \<Longrightarrow>
       dec_prefix arr k1 cbase src N st1 = OK (k2, ei, st2) \<Longrightarrow> data_type ei = QMI_STRUCT \<Longrightarrow>
       wf_elem S ei \<Longrightarrow> d_dlen st2 \<le> max_count ei \<Longrightarrow> dec_inv L q st2 \<Longrightarrow> d_bytes st2 \<le> N \<Longrightarrow>
       dec_ok L (N - d_bytes st2) (Suc level) (G ei st2)"
    and cont: "\<And>k1 st1 k2 ei st2 cs rc. dec_select arr k src N level st = OK (Some k1, st1) \<Longrightarrow>
       dec_prefix arr k1 cbase src N st1 = OK (k2, ei, st2) \<Longrightarrow>
       (if data_type ei = QMI_STRUCT then G ei st2
        else dec_elem ei (cbase + offset ei) src N level st2) = OK (cs, rc) \<Longrightarrow>
       dec_inv L q (dec_update rc (st2\<lparr>d_struct := cs\<rparr>)) \<Longrightarrow>
       d_bytes (dec_update rc (st2\<lparr>d_struct := cs\<rparr>)) \<le> N \<Longrightarrow> Suc k2 \<le> eoti arr \<Longrightarrow>
       dec_ok L N level (F (Suc k2) (dec_update rc (st2\<lparr>d_struct := cs\<rparr>)))"
  shows "dec_ok L N level (rbind (dec_select arr k src N level st) (\<lambda>(sel, st1).
          case sel of None \<Rightarrow> F k st1
          | Some k1 \<Rightarrow>
              rbind (dec_prefix arr k1 cbase src N st1) (\<lambda>(k2, ei, st2).
              rbind (if data_type ei = QMI_STRUCT then G ei st2
                     else dec_elem ei (cbase + offset ei) src N level st2)
                (\<lambda>(cs, rc). F (Suc k2) (dec_update rc (st2\<lparr>d_struct := cs\<rparr>))))))"
proof (rule dec_ok_bind, goal_cases)
  case 1
  then show ?case using dec_select_safe(1) [OF env(1,3-6,8)] .
next
  case (2 x)
  then obtain sel st1 where x: "x = (sel, st1)" and sel: "dec_select arr k src N level st = OK (sel, st1)"
    by (cases x) auto
  note s1 = dec_select_safe(2) [OF env(1,3-6,8) sel]
  show ?case
  proof (cases sel)
    case None
    then show ?thesis using s1 skip sel x by simp
  next
    case (Some k1)
    note pre = dec_prefix_safe [OF env(1,2) _ _ _ env(5,6), of st1 k1]
    show ?thesis unfolding x Some prod.case option.case
    proof (rule dec_ok_bind, goal_cases)
      case 1
      then show ?case using pre(1) s1 Some by blast
    next
      case (2 y)
      then obtain k2 ei st2 where y: "y = (k2, ei, st2)"
        and p: "dec_prefix arr k1 cbase src N st1 = OK (k2, ei, st2)" by (cases y) auto
      have s2: "dec_inv L q st2" "d_bytes st2 \<le> N" "k2 \<le> eoti arr" "ei = arr ! k2" "d_dlen st2 \<le> max_count ei"
        using pre(2) [OF _ _ _ p] s1 Some by auto
      have wf: "wf_elem S ei" using s2 wf_desc_nth [OF env(1)] by simp
      note G = struct [OF sel [unfolded Some] p _ wf s2(5,1,2)]
      note body = dec_body_safe [OF wf env(2) s2(5,1) env(5) s2(2) env(6) G env(7)]
      show ?case unfolding y prod.case
      proof (rule dec_ok_bind, goal_cases)
        case 1
        then show ?case using body(1) by simp
      next
        case (2 z)
        then obtain cs rc where z: "z = (cs, rc)"
          and b: "(if data_type ei = QMI_STRUCT then G ei st2
            else dec_elem ei (cbase + offset ei) src N level st2) = OK (cs, rc)" by (cases z) auto
        have "length cs = L" "d_bytes st2 + rc \<le> N" "data_type ei \<noteq> QMI_EOTI" using body(2) [OF _ b] by auto
        moreover have "k2 < eoti arr"
          using eoti_next [of k2 arr] calculation(3) s2 env(1) by (simp add: wf_desc_def)
        ultimately show ?case
          using cont [OF sel [unfolded Some] p b] s2(1) env(6) z
          by (auto simp: dec_update_def dec_inv_def add.assoc)
      qed
    qed
  qed
qed

lemma decode_safe:
  "eis = Some arr \<Longrightarrow> wf_desc S arr \<Longrightarrow> cbase + S \<le> length cs \<Longrightarrow> q + N \<le> length src \<Longrightarrow>
     N < 2 ^ 31 \<Longrightarrow> 1 \<le> level \<Longrightarrow> dec_ok (length cs) N level (qmi_decode eis cs cbase src q N level)"
  "wf_desc S2 arr2 \<Longrightarrow> cbase2 + S2 \<le> L2 \<Longrightarrow> dec_inv L2 q2 st2 \<Longrightarrow> d_bytes st2 \<le> N2 \<or> level2 = 1 \<Longrightarrow>
     q2 + N2 \<le> length src2 \<Longrightarrow> N2 < 2 ^ 31 \<Longrightarrow> 1 \<le> level2 \<Longrightarrow> k2 \<le> eoti arr2 \<Longrightarrow>
     dec_ok L2 N2 level2 (qmi_decode_loop arr2 k2 cbase2 src2 N2 level2 st2)"
  "ei_array ei3 = Some sub3 \<Longrightarrow> wf_desc (elem_size ei3) sub3 \<Longrightarrow> p3 + n3 * elem_size ei3 \<le> length cs3 \<Longrightarrow>
     q3 + src_len3 \<le> length src3 \<Longrightarrow> src_len3 < 2 ^ 31 \<Longrightarrow> 2 \<le> level3 \<Longrightarrow>
     dec_ok (length cs3) src_len3 level3 (qmi_decode_struct_elem ei3 cs3 p3 src3 q3 n3 tlv_len3 level3 src_len3)"
  "ei_array ei4 = Some sub4 \<Longrightarrow> wf_desc (elem_size ei4) sub4 \<Longrightarrow> p4 + (n4 - i4) * elem_size ei4 \<le> length cs4 \<Longrightarrow>
     decoded4 \<le> tlv_len4 \<Longrightarrow> q4 + (tlv_len4 - decoded4) \<le> length src4 \<Longrightarrow> tlv_len4 < 2 ^ 31 \<Longrightarrow> 2 \<le> level4 \<Longrightarrow>
     dec_ok (length cs4) tlv_len4 level4 (qmi_decode_structs ei4 cs4 p4 src4 q4 n4 i4 tlv_len4 level4 decoded4)"
proof (induction eis cs cbase src q N level
    and arr2 k2 cbase2 src2 N2 level2 st2
    and ei3 cs3 p3 src3 q3 n3 tlv_len3 level3 src_len3
    and ei4 cs4 p4 src4 q4 n4 i4 tlv_len4 level4 decoded4
    arbitrary: arr S and S2 L2 q2 and sub3 and sub4 rule: qmi_decode_induct)
  case (1 eis cs cbase src q N level)
  show ?case 
  proof -
    have "dec_inv (length cs) q (dec_init cs q)" by (simp add: dec_inv_def dec_init_def)
    then show ?thesis using 1 by (simp add: qmi_decode.simps dec_init_def)
  qed
next
  case (2 arr k cbase src N level st)
  let ?loop = "\<lambda>k. qmi_decode_loop arr k cbase src N level"
  show ?case
  proof (cases "d_bytes st < N \<and> \<not> (2 \<le> level \<and> data_type (arr ! k) = QMI_EOTI)")
    case True
    have k: "k < length arr" using "2.prems"(1,8) wf_desc_nth by blast
    with True have go: "\<not> \<not> d_bytes st < N" "\<not> (2 \<le> level \<and> length arr \<le> k)"
      "\<not> (2 \<le> level \<and> data_type (arr ! k) = QMI_EOTI)" by auto
    have "dec_ok L2 N level (rbind (dec_select arr k src N level st) (\<lambda>(sel, st1).
          case sel of
            None \<Rightarrow> ?loop k st1
          | Some k1 \<Rightarrow>
              rbind (dec_prefix arr k1 cbase src N st1) (\<lambda>(k2, ei, st2).
              rbind (if data_type ei = QMI_STRUCT then
                       qmi_decode_struct_elem ei (d_struct st2) (cbase + offset ei) src (d_src st2)
                         (d_dlen st2) (d_tlv_len st2) (Suc level) (u32_sub N (d_bytes st2))
                     else dec_elem ei (cbase + offset ei) src N level st2)
                (\<lambda>(cs, rc). ?loop (Suc k2) (dec_update rc (st2\<lparr>d_struct := cs\<rparr>))))))"
    proof (rule decode_round_safe [OF "2.prems"(1,2,3) _ "2.prems"(5-8)], goal_cases)
      case 1
      then show ?case using True by simp
    next
      case (2 st1)
      then show ?case using "2.IH"(1) [OF go] "2.prems" by simp
    next
      case (3 k1 st1 k2 ei st2)
      obtain sub where sub: "ei_array ei = Some sub" "wf_desc (elem_size ei) sub"
        "offset ei + d_dlen st2 * elem_size ei \<le> S2"
        using wf_elem_struct [OF 3(4,3,5)] by blast
      have "u32_sub N (d_bytes st2) = N - d_bytes st2"
        using 3(7) "2.prems"(6) by (intro u32_sub_le) auto
      then show ?case
        using "2.IH"(2) [OF go 3(1) refl refl 3(2) refl refl 3(3) sub(1,2)] 3(6,7) sub(3) "2.prems"
        by (auto simp: dec_inv_def)
    next
      case (4 k1 st1 k2 ei st2 cs rc)
      then show ?case
        using "2.IH"(3) [OF go 4(1) refl refl 4(2) refl refl 4(3) refl "2.prems"(1,2) 4(4)] "2.prems" by simp
    qed
    then show ?thesis using go by (auto simp: qmi_decode_loop.simps [of arr k cbase src N level st])
  next
    case False
    have "\<not> (2 \<le> level \<and> length arr \<le> k)" using "2.prems"(1,8) wf_desc_nth by fastforce
    then show ?thesis using False "2.prems" by (subst qmi_decode_loop.simps) (auto simp: dec_inv_def)
  qed
next
  case (3 ei cs p src q n tlv_len level src_len)
  have "tlv_len \<le> src_len \<Longrightarrow> dec_ok (length cs) tlv_len level (qmi_decode_structs ei cs p src q n 0 tlv_len level 0)"
    using 3 by (intro 3(1)) auto
  then show ?case
    using "3.prems" by (cases "tlv_len \<le> src_len")
      (auto simp: qmi_decode_struct_elem.simps dec_ok_def split: result.splits)
next
  case (4 ei cs p src q n i tlv_len level decoded)
  show ?case 
  proof (cases "i < n \<and> decoded < tlv_len")
    case True
    have s: "u32_sub tlv_len decoded = tlv_len - decoded" using 4 by (intro u32_sub_le) auto
    have "n - i = Suc (n - Suc i)" using True by arith
    then have p: "p + elem_size ei + (n - Suc i) * elem_size ei \<le> length cs" using "4.prems"(3) by simp
    have d: "dec_ok (length cs) (tlv_len - decoded) level (qmi_decode (ei_array ei) cs p src q (tlv_len - decoded) level)"
      using "4.IH"(1) [OF True "4.prems"(1,2)] "4.prems" p unfolding s by simp
    show ?thesis
    proof (cases "qmi_decode (ei_array ei) cs p src q (tlv_len - decoded) level")
      case (OK x)
      obtain cs' rc where x: "x = (cs', rc)" by (cases x)
      have "length cs' = length cs" "decoded + rc \<le> tlv_len" using d OK x True "4.prems"(7) by auto
      then have "dec_ok (length cs') tlv_len level (qmi_decode_structs ei cs' (p + elem_size ei) src (q + rc) n (Suc i) tlv_len level (decoded + rc))"
        using "4.IH"(2) [OF True OK [folded s] x [symmetric] "4.prems"(1,2)] "4.prems"(5-7) p True
        by simp
      then show ?thesis using OK x True s \<open>length cs' = length cs\<close> by (subst qmi_decode_structs.simps) simp
    next
      case (Err e)
      then show ?thesis using True s by (subst qmi_decode_structs.simps) simp
    next
      case UB
      then show ?thesis using d by simp
    qed
  next
    case False
    then show ?thesis using "4.prems" by (subst qmi_decode_structs.simps) auto
  qed
qed
end
