(* ===== verification/Qmi_Bounds.thy ===== *)
theory Qmi_Bounds
  imports Qmi_Safety
begin

text \<open>
  Memory safety of the QMI encoder. The encoder reserves the three header bytes of a
  top-level element before it knows whether the element fits, and the size checks of nested
  elements leave room for that header again; the invariant \<open>enc_inv\<close> relates the write
  position, the byte count and the reserved header.
\<close>

subsection \<open>Descriptors the encoder handles\<close>

text \<open>A length field is at most a \<open>u32\<close> and is followed by the array it counts.\<close>

definition len_fields_ok :: "qmi_elem_info list \<Rightarrow> bool" where
  "len_fields_ok arr =
     (\<forall>k < eoti arr. data_type (arr ! k) = QMI_DATA_LEN \<longrightarrow>
        Suc k < eoti arr \<and> elem_size (arr ! k) \<le> 4)"

text \<open>The terminator's type differs from every other element's, so a skip stops at it.\<close>

definition tlv_closed :: "qmi_elem_info list \<Rightarrow> bool" where
  "tlv_closed arr = (\<forall>k < eoti arr. tlv_type (arr ! k) \<noteq> tlv_type (arr ! eoti arr))"

text \<open>
  A structure element has at least one instance, its own array starts with a mandatory
  element and has no strings.
\<close>

function nested_ok :: "qmi_elem_info \<Rightarrow> bool" where
  "nested_ok ei =
     ((array_type ei = STATIC_ARRAY \<longrightarrow> 0 < elem_len ei) \<and>
      (case ei_array ei of None \<Rightarrow> False
       | Some sub \<Rightarrow>
           len_fields_ok sub \<and> 0 < eoti sub \<and> data_type (sub ! 0) \<noteq> QMI_OPT_FLAG \<and>
           list_all (\<lambda>e. data_type e \<noteq> QMI_STRING \<and> (data_type e = QMI_STRUCT \<longrightarrow> nested_ok e)) sub))"
  by pat_completeness auto
termination
  by (relation "measure size") (auto simp: size_nested_ei)

declare nested_ok.simps [simp del]

definition encodable :: "qmi_elem_info list \<Rightarrow> bool" where
  "encodable arr =
     (len_fields_ok arr \<and> tlv_closed arr \<and>
      list_all (\<lambda>e. data_type e = QMI_STRUCT \<longrightarrow> nested_ok e) arr)"

definition strings_terminated :: "qmi_elem_info list \<Rightarrow> bytes \<Rightarrow> nat \<Rightarrow> bool" where
  "strings_terminated arr src sbase =
     list_all (\<lambda>e. data_type e = QMI_STRING \<longrightarrow> 0 \<in> set (drop (sbase + offset e) src)) arr"

lemma c_strlen_terminated:
  assumes "0 \<in> set (drop q src)"
  obtains n where "c_strlen src q = Some n" "q + n < length src"
proof -
  let ?s = "takeWhile (\<lambda>b. b \<noteq> 0) (drop q src)"
  let ?r = "dropWhile (\<lambda>b. b \<noteq> 0) (drop q src)"
  have "?r \<noteq> []" using assms by (simp add: dropWhile_eq_Nil_conv)
  moreover have "length ?s + length ?r = length (drop q src)"
    by (metis length_append takeWhile_dropWhile_id)
  ultimately have "length ?s < length (drop q src)" by (cases ?r) auto
  then have "q + length ?s < length src" by simp
  with that show thesis by (simp add: c_strlen_def Let_def)
qed

lemma skip_same_tlv_closed:
  assumes "tlv_closed arr" "eoti arr < length arr"
  shows "k < eoti arr \<Longrightarrow> \<exists>k'. skip_same_tlv arr k = OK k' \<and> k' \<le> eoti arr"
proof (induction "eoti arr - k" arbitrary: k)
  case (Suc n)
  show ?case
  proof (cases "Suc k = eoti arr")
    case True
    then have "tlv_type (arr ! k) \<noteq> tlv_type (arr ! Suc k)"
      using assms(1) Suc.prems by (auto simp: tlv_closed_def)
    then show ?thesis using True assms(2) by (subst skip_same_tlv.simps) (auto simp: ei_at_def)
  next
    case False
    then obtain k' where "skip_same_tlv arr (Suc k) = OK k'" "k' \<le> eoti arr"
      using Suc.hyps(1) [of "Suc k"] Suc.hyps(2) Suc.prems by fastforce
    then show ?thesis using False Suc.prems assms(2)
      by (subst skip_same_tlv.simps) (auto simp: ei_at_def)
  qed
qed simp

lemma skip_to_next_elem_closed:
  assumes "level = 1 \<Longrightarrow> tlv_closed arr" "eoti arr < length arr" "k < eoti arr" "1 \<le> level"
  obtains k' where "skip_to_next_elem arr k level = OK k'" "k' \<le> eoti arr"
  using assms skip_same_tlv_closed [of arr k]
  by (cases "level = 1") (auto simp: skip_to_next_elem_def)

subsection \<open>The invariant\<close>

definition hdr_room :: "nat \<Rightarrow> nat" where
  "hdr_room level = (if level = 1 then 3 else 0)"

definition enc_inv :: "nat \<Rightarrow> nat \<Rightarrow> nat \<Rightarrow> nat \<Rightarrow> enc \<Rightarrow> bool" where
  "enc_inv L base N level st =
     (length (e_buf st) = L \<and> e_dst st = base + e_bytes st + hdr_room level \<and>
      base + N + hdr_room level \<le> L + 3 \<and> e_bytes st \<le> N \<and> e_tlv_len st \<le> e_bytes st \<and>
      (level = 1 \<longrightarrow> e_tlvp st + e_tlv_len st + 3 = e_dst st) \<and>
      (e_tlv st \<longrightarrow> e_bytes st + 3 \<le> N))"

lemma enc_inv_dlen [simp]: "enc_inv L base N level (st\<lparr>e_dlen := n\<rparr>) = enc_inv L base N level st"
  by (simp add: enc_inv_def)

lemma enc_inv_no_tlv: "enc_inv L base N level st \<Longrightarrow> enc_inv L base N level (st\<lparr>e_tlv := False\<rparr>)"
  by (simp add: enc_inv_def)

lemma enc_update_inv:
  assumes "enc_inv L base N level st" "length buf = L" "e_bytes st + rc + 3 \<le> N" "N < 2 ^ 31"
    "1 \<le> level"
  shows "enc_inv L base N level (enc_update buf rc st)"
    and "e_bytes (enc_update buf rc st) + 3 \<le> N" "e_dlen (enc_update buf rc st) = e_dlen st"
  using assms by (auto simp: enc_inv_def enc_update_def)

lemma encode_basic_elem_safe:
  assumes "q + n * esz \<le> length src" "p + n * esz \<le> length dst" "n * esz < 2 ^ 32"
  shows "qmi_encode_basic_elem dst p src q n esz \<noteq> UB"
    and "qmi_encode_basic_elem dst p src q n esz = OK (dst', rc) \<Longrightarrow>
           length dst' = length dst \<and> rc = n * esz"
  using copy_elems_safe [OF assms(1,2)] assms(3) by (auto simp: qmi_encode_basic_elem_def)

text \<open>What one element does to the loop state: it stays in range and leaves the header's room.\<close>

definition enc_step_ok ::
  "nat \<Rightarrow> nat \<Rightarrow> nat \<Rightarrow> nat \<Rightarrow> qmi_elem_info list \<Rightarrow> bool \<Rightarrow> (nat \<times> enc) result \<Rightarrow> bool" where
  "enc_step_ok L base N level arr written r =
     (case r of OK (k', st') \<Rightarrow> k' \<le> eoti arr \<and> enc_inv L base N level st' \<and>
                                 (written \<longrightarrow> e_bytes st' + 3 \<le> N)
      | Err _ \<Rightarrow> True | UB \<Rightarrow> False)"

lemma enc_step_ok_simps [simp]:
  "enc_step_ok L base N level arr w (OK (k', st')) \<longleftrightarrow>
     k' \<le> eoti arr \<and> enc_inv L base N level st' \<and> (w \<longrightarrow> e_bytes st' + 3 \<le> N)"
  "enc_step_ok L base N level arr w (Err e)" "\<not> enc_step_ok L base N level arr w UB"
  by (auto simp: enc_step_ok_def)

lemma enc_step_ok_bind:
  assumes "m \<noteq> UB" "\<And>x. m = OK x \<Longrightarrow> enc_step_ok L base N level arr w (f x)"
  shows "enc_step_ok L base N level arr w (rbind m f)"
  using assms by (cases m) auto

lemma encode_opt_flag_ok:
  assumes "enc_inv L base N level st" "q + 1 \<le> length src" "k < eoti arr" "eoti arr < length arr"
    "1 \<le> level" "level = 1 \<Longrightarrow> tlv_closed arr"
  shows "enc_step_ok L base N level arr False (encode_opt_flag arr k src q level st)"
proof -
  obtain k' where "skip_to_next_elem arr k level = OK k'" "k' \<le> eoti arr"
    using skip_to_next_elem_closed [of level arr k] assms by blast
  then show ?thesis
    using assms(1-3) by (auto simp: encode_opt_flag_def load_def)
qed

lemma encode_data_len_ok:
  assumes inv: "enc_inv L base N level st"
    and "q + elem_size ei \<le> length src" "elem_size ei \<le> 4" "Suc k < eoti arr" "eoti arr < length arr"
    and "1 \<le> level" "level = 1 \<Longrightarrow> tlv_closed arr" "N < 2 ^ 31"
  shows "enc_step_ok L base N level arr True (encode_data_len arr k ei src q N level st)"
proof -
  let ?sz = "data_len_size ei"
  have sz: "?sz \<le> 2" by (simp add: data_len_size_def)
  obtain k' where k': "skip_to_next_elem arr (Suc k) level = OK k'" "k' \<le> eoti arr"
    using skip_to_next_elem_closed [of level arr "Suc k"] assms by blast
  obtain bs var where "load src q (elem_size ei) = Some bs" and
    var: "store (le_bytes 4 (e_dlen st)) 0 bs = Some var"
    using assms(2,3) by (auto simp: load_def store_def)
  moreover have "e_bytes st + ?sz < 2 ^ 32" using inv assms(8) sz by (simp add: enc_inv_def)
  then have u: "u32 (?sz + e_bytes st) = e_bytes st + ?sz" by (simp add: add.commute)
  moreover have "enc_step_ok L base N level arr True
      (rbind (qmi_encode_basic_elem (e_buf st) (e_dst st) (le_bytes 4 (le_val var)) 0 1 ?sz)
           (\<lambda>(buf, rc).
              let st' = enc_update buf rc (st\<lparr>e_dlen := le_val var\<rparr>) in
              if le_val var = 0 then
                rbind (skip_to_next_elem arr (Suc k) level) (\<lambda>k'. OK (k', st'))
              else OK (Suc k, st'\<lparr>e_tlv := False\<rparr>)))"
    if "e_bytes st + ?sz + 3 \<le> N"
  proof -
    have pre: "0 + 1 * ?sz \<le> length (le_bytes 4 (le_val var))" "e_dst st + 1 * ?sz \<le> length (e_buf st)"
      "1 * ?sz < 2 ^ 32"
      using inv sz that by (auto simp: enc_inv_def)
    note enc = encode_basic_elem_safe [OF pre]
    show ?thesis
    proof (rule enc_step_ok_bind)
      show "qmi_encode_basic_elem (e_buf st) (e_dst st) (le_bytes 4 (le_val var)) 0 1 ?sz \<noteq> UB"
        by (rule enc(1))
    next
      fix x
      assume "qmi_encode_basic_elem (e_buf st) (e_dst st) (le_bytes 4 (le_val var)) 0 1 ?sz = OK x"
      then obtain buf where x: "x = (buf, ?sz)" "length buf = L"
        using enc(2) inv by (cases x) (auto simp: enc_inv_def)
      have "enc_inv L base N level (st\<lparr>e_dlen := le_val var\<rparr>)" using inv by simp
      from enc_update_inv [OF this x(2) _ assms(8,6), of ?sz] show "enc_step_ok L base N level arr True (case x of (buf, rc) \<Rightarrow>
              let st' = enc_update buf rc (st\<lparr>e_dlen := le_val var\<rparr>) in
              if le_val var = 0 then
                rbind (skip_to_next_elem arr (Suc k) level) (\<lambda>k'. OK (k', st'))
              else OK (Suc k, st'\<lparr>e_tlv := False\<rparr>))"
        using that k' assms(4)
        by (cases "le_val var = 0") (simp_all add: x(1) Let_def enc_inv_no_tlv)
    qed
  qed
  ultimately show ?thesis
    by (simp add: encode_data_len_def Let_def qmi_consts)
qed

lemma encode_basic_ok:
  assumes inv: "enc_inv L base N level st"
    and src: "q + e_dlen st * elem_size ei \<le> length src" "length src < 2 ^ 31"
    and "Suc k \<le> eoti arr" "1 \<le> level" "N < 2 ^ 31"
  shows "enc_step_ok L base N level arr True (encode_basic k ei src q N st)"
proof (cases "e_bytes st + e_dlen st * elem_size ei + 3 \<le> N")
  let ?n = "e_dlen st * elem_size ei"
  have n: "?n < 2 ^ 31" using src by linarith
  then have u: "u32 (u32 ?n + e_bytes st) = e_bytes st + ?n"
    using inv assms(6) by (auto simp: enc_inv_def add.commute)
  case True
  then have "e_dst st + ?n \<le> length (e_buf st)" using inv by (auto simp: enc_inv_def)
  moreover have "?n < 2 ^ 32" using n by simp
  ultimately have enc: "qmi_encode_basic_elem (e_buf st) (e_dst st) src q (e_dlen st) (elem_size ei) \<noteq> UB"
    "\<And>dst' rc. qmi_encode_basic_elem (e_buf st) (e_dst st) src q (e_dlen st) (elem_size ei) = OK (dst', rc)
       \<Longrightarrow> length dst' = L \<and> rc = ?n"
    using encode_basic_elem_safe [OF src(1)] inv by (auto simp: enc_inv_def)
  have "enc_step_ok L base N level arr True
     (rbind (qmi_encode_basic_elem (e_buf st) (e_dst st) src q (e_dlen st) (elem_size ei))
          (\<lambda>(buf, rc). OK (Suc k, enc_update buf rc st)))"
    using enc(1) by (rule enc_step_ok_bind)
      (use enc(2) enc_update_inv [OF inv _ True assms(6,5)] assms(4) in auto)
  then show ?thesis using True u by (simp add: encode_basic_def qmi_consts)
next
  let ?n = "e_dlen st * elem_size ei"
  have n: "?n < 2 ^ 31" using src by linarith
  then have u: "u32 (u32 ?n + e_bytes st) = e_bytes st + ?n"
    using inv assms(6) by (auto simp: enc_inv_def add.commute)
  case False
  then show ?thesis using u by (simp add: encode_basic_def qmi_consts)
qed

lemma encode_string_ok:
  assumes inv: "enc_inv L base N 1 st"
    and "0 \<in> set (drop q src)" "elem_size ei = 1" "length src < 2 ^ 31" "Suc k \<le> eoti arr" "N < 2 ^ 31"
  shows "enc_step_ok L base N 1 arr True (encode_string k ei src q N 1 st)"
proof -
  obtain n where n: "c_strlen src q = Some n" "q + n < length src"
    using c_strlen_terminated [OF assms(2)] .
  have u: "u32_sub N (e_bytes st) = N - e_bytes st"
    using inv assms(6) by (intro u32_sub_le) (auto simp: enc_inv_def)
  show ?thesis
  proof (cases "e_bytes st + n + 3 \<le> N \<and> n \<le> elem_len ei")
    case True
    then have fits: "e_bytes st + n + 3 \<le> N" by simp
    have pre: "q + n * elem_size ei \<le> length src" "e_dst st + n * elem_size ei \<le> length (e_buf st)"
      "n * elem_size ei < 2 ^ 32"
      using n inv fits assms(3,4) by (auto simp: enc_inv_def)
    note enc = encode_basic_elem_safe [OF pre]
    have "enc_step_ok L base N 1 arr True
       (rbind (qmi_encode_basic_elem (e_buf st) (e_dst st) src q n (elem_size ei))
          (\<lambda>(buf, rc). OK (Suc k, enc_update buf rc st)))"
      using enc(1) by (rule enc_step_ok_bind)
        (use enc(2) enc_update_inv [OF inv _ fits assms(6)] assms(3,5) inv in \<open>auto simp: enc_inv_def\<close>)
    then show ?thesis using True
      by (simp add: encode_string_def qmi_encode_string_elem_def n u qmi_consts)
  qed (auto simp: encode_string_def qmi_encode_string_elem_def n u qmi_consts)
qed


lemma encode_elem_ok:
  assumes inv: "enc_inv L base N level st" and wf: "wf_elem S ei" "ei = arr ! k" "k < eoti arr"
    "eoti arr < length arr" "len_fields_ok arr" "level = 1 \<Longrightarrow> tlv_closed arr"
    and src: "sbase + S \<le> length src" "length src < 2 ^ 31" "N < 2 ^ 31" "1 \<le> level"
    and n: "e_dlen st \<le> max_count ei" "data_type ei \<noteq> QMI_STRUCT"
    and str: "data_type ei = QMI_STRING \<Longrightarrow> level = 1 \<and> 0 \<in> set (drop (sbase + offset ei) src)"
  shows "enc_step_ok L base N level arr (data_type ei \<noteq> QMI_OPT_FLAG)
           (encode_elem arr k ei src (sbase + offset ei) N level st)"
proof -
  consider (basic) "basic_type (data_type ei)" | (opt) "data_type ei = QMI_OPT_FLAG"
    | (len) "data_type ei = QMI_DATA_LEN" | (string) "data_type ei = QMI_STRING"
    using n(2) before_eoti [OF wf(3)] wf(2) by (cases "data_type ei") auto
  then show ?thesis
  proof cases
    case basic
    have "sbase + offset ei + e_dlen st * elem_size ei \<le> length src"
      using wf_elem_basic(1) [OF wf(1) basic n(1)] src(1) by linarith
    from encode_basic_ok [OF inv this src(2) _ src(4,3), of k arr] show ?thesis
      using wf(3) basic by (cases "data_type ei") (auto simp: encode_elem_def)
  next
    case opt
    then have "sbase + offset ei + 1 \<le> length src"
      using wf(1) src(1) by (simp add: wf_elem.simps [of S ei])
    from encode_opt_flag_ok [OF inv this wf(3,4) src(4) wf(6)] show ?thesis
      using opt by (simp add: encode_elem_def)
  next
    case len
    then have l: "Suc k < eoti arr" "elem_size ei \<le> 4" using wf(2,3,5) by (auto simp: len_fields_ok_def)
    moreover have "offset ei + 4 \<le> S" using len wf(1) by (simp add: wf_elem.simps [of S ei])
    then have "sbase + offset ei + elem_size ei \<le> length src" using src(1) l by linarith
    ultimately show ?thesis
      using encode_data_len_ok [OF inv _ _ _ wf(4) src(4) wf(6) src(3), of "sbase + offset ei" ei src k] len
      by (simp add: encode_elem_def)
  next
    case string
    have "elem_size ei = 1" using string wf(1) by (simp add: wf_elem.simps [of S ei])
    then show ?thesis
      using encode_string_ok [of L base N st "sbase + offset ei" src ei k arr] inv str string src wf(3)
      by (simp add: encode_elem_def)
  qed
qed

lemma enc_finish_tlv_ok:
  assumes "enc_inv L base N level st" "N < 2 ^ 31" "1 \<le> level"
  obtains st' where "enc_finish_tlv ei level st = OK st'" "enc_inv L base N level st'"
    "level \<noteq> 1 \<Longrightarrow> st' = st"
proof (cases "e_tlv st \<and> level = 1")
  case True
  have "e_tlvp st + 3 \<le> length (e_buf st)"
    using True assms(1) by (auto simp: enc_inv_def hdr_room_def)
  then obtain buf where buf: "store (e_buf st) (e_tlvp st)
      (of_nat (tlv_type ei) # le_bytes 2 (e_tlv_len st)) = Some buf"
    by (auto simp: store_def)
  show thesis
    by (rule that) (use True buf assms store_length [OF buf] in
        \<open>auto simp: enc_finish_tlv_def enc_inv_def hdr_room_def qmi_consts\<close>)
next
  case False
  then have "enc_finish_tlv ei level st = OK st" by (simp only: enc_finish_tlv_def if_False)
  then show thesis using that assms by blast
qed

lemma enc_data_len_ok:
  assumes "enc_data_len ei st = OK st1"
  shows "e_dlen st1 \<le> max_count ei" "enc_inv L base N level st1 = enc_inv L base N level st"
    "nested_ok ei \<Longrightarrow> 0 < e_dlen st1" "e_bytes st1 = e_bytes st"
  using assms nested_ok.simps [of ei]
  by (auto simp: enc_data_len_def max_count_def split: qmi_array_type.splits if_splits)

text \<open>The descriptors at one level, and what encoding at that level gives.\<close>

definition enc_desc :: "nat \<Rightarrow> nat \<Rightarrow> qmi_elem_info list \<Rightarrow> bool" where
  "enc_desc level S arr =
     (wf_desc S arr \<and> len_fields_ok arr \<and>
      list_all (\<lambda>e. data_type e = QMI_STRUCT \<longrightarrow> nested_ok e) arr \<and>
      (if level = 1 then tlv_closed arr
       else 0 < eoti arr \<and> data_type (arr ! 0) \<noteq> QMI_OPT_FLAG \<and>
            list_all (\<lambda>e. data_type e \<noteq> QMI_STRING) arr))"

definition enc_ok :: "nat \<Rightarrow> nat \<Rightarrow> nat \<Rightarrow> (bytes \<times> nat) result \<Rightarrow> bool" where
  "enc_ok L N level r =
     (case r of OK (buf, n) \<Rightarrow> length buf = L \<and> n \<le> N \<and> (level \<noteq> 1 \<longrightarrow> n + 3 \<le> N)
      | Err _ \<Rightarrow> True | UB \<Rightarrow> False)"

lemma enc_ok_simps [simp]:
  "enc_ok L N level (OK (buf, n)) \<longleftrightarrow> length buf = L \<and> n \<le> N \<and> (level \<noteq> 1 \<longrightarrow> n + 3 \<le> N)"
  "enc_ok L N level (Err e)" "\<not> enc_ok L N level UB"
  by (auto simp: enc_ok_def)

lemma enc_ok_bind:
  assumes "m \<noteq> UB" "\<And>x. m = OK x \<Longrightarrow> enc_ok L N level (f x)"
  shows "enc_ok L N level (rbind m f)"
  using assms by (cases m) auto

lemma enc_desc_nested:
  assumes "enc_desc level S arr" "k \<le> eoti arr" "data_type (arr ! k) = QMI_STRUCT" "1 \<le> level"
    "n \<le> max_count (arr ! k)"
  obtains sub where "ei_array (arr ! k) = Some sub" "enc_desc (Suc level) (elem_size (arr ! k)) sub"
    "offset (arr ! k) + n * elem_size (arr ! k) \<le> S" "nested_ok (arr ! k)"
proof -
  have wf: "k < length arr" "wf_elem S (arr ! k)"
    using wf_desc_nth [of S arr k] assms by (auto simp: enc_desc_def)
  obtain sub where sub: "ei_array (arr ! k) = Some sub" "wf_desc (elem_size (arr ! k)) sub"
    "offset (arr ! k) + n * elem_size (arr ! k) \<le> S"
    using wf_elem_struct [OF wf(2) assms(3,5)] .
  have "nested_ok (arr ! k)" using assms(1,3) wf(1) by (auto simp: enc_desc_def list_all_length)
  moreover from this have "enc_desc (Suc level) (elem_size (arr ! k)) sub"
    using sub(1,2) assms(4) nested_ok.simps [of "arr ! k"]
    by (auto simp: enc_desc_def list.pred_set)
  ultimately show thesis using that sub by blast
qed


text \<open>One round of the encoding loop, for any continuation \<open>F\<close> and structure encoder \<open>G\<close>.\<close>

lemma encode_round_ok:
  assumes desc: "enc_desc level S arr" "level = 1 \<Longrightarrow> strings_terminated arr src sbase"
    and src: "sbase + S \<le> length src" "length src < 2 ^ 31" "N < 2 ^ 31" "1 \<le> level"
    and inv: "enc_inv L base N level st" and k: "k < eoti arr"
    and struct: "\<And>st1. enc_data_len (arr ! k) st = OK st1 \<Longrightarrow> data_type (arr ! k) = QMI_STRUCT \<Longrightarrow>
       0 < e_dlen st1 \<Longrightarrow> e_dlen st1 \<le> max_count (arr ! k) \<Longrightarrow> enc_inv L base N level st1 \<Longrightarrow>
       enc_ok L (N - e_bytes st1) (Suc level) (G st1)"
    and cont: "\<And>st1 k' st2 st3. enc_data_len (arr ! k) st = OK st1 \<Longrightarrow>
       (if data_type (arr ! k) = QMI_STRUCT then rbind (G st1) (\<lambda>(buf, rc). OK (Suc k, enc_update buf rc st1))
        else encode_elem arr k (arr ! k) src (sbase + offset (arr ! k)) N level st1) = OK (k', st2) \<Longrightarrow>
       enc_finish_tlv (arr ! k) level st2 = OK st3 \<Longrightarrow> enc_inv L base N level st3 \<Longrightarrow> k' \<le> eoti arr \<Longrightarrow>
       0 < k' \<Longrightarrow> (level \<noteq> 1 \<Longrightarrow> data_type (arr ! k) \<noteq> QMI_OPT_FLAG \<Longrightarrow> e_bytes st3 + 3 \<le> N) \<Longrightarrow>
       (level \<noteq> 1 \<Longrightarrow> data_type (arr ! k) = QMI_OPT_FLAG \<Longrightarrow> e_bytes st3 = e_bytes st) \<Longrightarrow>
       enc_ok L N level (F k' st3)"
  shows "enc_ok L N level
    (rbind (enc_data_len (arr ! k) st) (\<lambda>st1.
     rbind (if data_type (arr ! k) = QMI_STRUCT then rbind (G st1) (\<lambda>(buf, rc). OK (Suc k, enc_update buf rc st1))
            else encode_elem arr k (arr ! k) src (sbase + offset (arr ! k)) N level st1)
       (\<lambda>(k', st2). rbind (enc_finish_tlv (arr ! k) level st2) (\<lambda>st3. F k' st3))))"
proof (rule enc_ok_bind, goal_cases)
  case 1
  then show ?case by (auto simp: enc_data_len_def split: qmi_array_type.splits)
next
  case (2 st1)
  let ?ei = "arr ! k"
  let ?step = "if data_type ?ei = QMI_STRUCT then rbind (G st1) (\<lambda>(buf, rc). OK (Suc k, enc_update buf rc st1))
            else encode_elem arr k ?ei src (sbase + offset ?ei) N level st1"
  note d = enc_data_len_ok [OF 2]
  have inv1: "enc_inv L base N level st1" using d(2) inv by blast
  have wf: "eoti arr < length arr" "wf_elem S ?ei" "len_fields_ok arr" "level = 1 \<Longrightarrow> tlv_closed arr"
    "data_type ?ei = QMI_STRUCT \<Longrightarrow> nested_ok ?ei"
    "data_type ?ei = QMI_STRING \<Longrightarrow> level = 1 \<and> 0 \<in> set (drop (sbase + offset ?ei) src)"
    using desc k by (auto simp: enc_desc_def wf_desc_def strings_terminated_def list_all_length split: if_splits)
  have step: "enc_step_ok L base N level arr (data_type ?ei \<noteq> QMI_OPT_FLAG) ?step"
  proof (cases "data_type ?ei = QMI_STRUCT")
    case True
    have g: "enc_ok L (N - e_bytes st1) (Suc level) (G st1)"
      using struct [OF 2 True d(3) [OF wf(5) [OF True]] d(1) inv1] .
    have "enc_step_ok L base N level arr True (rbind (G st1) (\<lambda>(buf, rc). OK (Suc k, enc_update buf rc st1)))"
    proof (rule enc_step_ok_bind)
      show "G st1 \<noteq> UB" using g by auto
    next
      fix x assume x: "G st1 = OK x"
      obtain buf rc where [simp]: "x = (buf, rc)" by (cases x)
      have "length buf = L" "e_bytes st1 + rc + 3 \<le> N" using g x src(4) by auto
      from enc_update_inv [OF inv1 this src(3,4)] k
      show "enc_step_ok L base N level arr True (case x of (buf, rc) \<Rightarrow> OK (Suc k, enc_update buf rc st1))"
        by simp
    qed
    then show ?thesis using True by simp
  next
    case False
    then show ?thesis
      using encode_elem_ok [OF inv1 wf(2) refl k wf(1,3,4) src d(1) False wf(6)] by simp
  qed
  show ?case
  proof (rule enc_ok_bind)
    show "?step \<noteq> UB" using step by (cases ?step) (simp_all del: if_split_asm)
  next
    fix x assume x: "?step = OK x"
    obtain k' st2 where x2: "x = (k', st2)" by (cases x)
    have s2: "k' \<le> eoti arr" "enc_inv L base N level st2" "data_type ?ei \<noteq> QMI_OPT_FLAG \<Longrightarrow> e_bytes st2 + 3 \<le> N"
      using step unfolding x x2 by auto
    obtain st3 where st3: "enc_finish_tlv ?ei level st2 = OK st3" "enc_inv L base N level st3"
      "level \<noteq> 1 \<Longrightarrow> st3 = st2"
      using enc_finish_tlv_ok [OF s2(2) src(3,4), of ?ei] by blast
    have "0 < k'" using x unfolding x2 by (auto split: if_splits dest: encode_elem_advances)
    moreover have "st2 = st1" if "data_type ?ei = QMI_OPT_FLAG"
      using x that unfolding x2 by (auto simp: encode_elem_def encode_opt_flag_def)
    ultimately show "enc_ok L N level (case x of (k', st2) \<Rightarrow> rbind (enc_finish_tlv ?ei level st2) (\<lambda>st3. F k' st3))"
      using cont [OF 2 x [unfolded x2] st3(1,2) s2(1)] s2(3) st3(1,3) d(4) unfolding x2 by simp
  qed
qed

lemmas qmi_encode_induct = qmi_encode_qmi_encode_loop_qmi_encode_struct_elem.induct

lemma encode_safe:
  "eis = Some arr \<Longrightarrow> enc_desc level S arr \<Longrightarrow> (level = 1 \<Longrightarrow> strings_terminated arr src sbase) \<Longrightarrow>
     sbase + S \<le> length src \<Longrightarrow> length src < 2 ^ 31 \<Longrightarrow> N < 2 ^ 31 \<Longrightarrow> 1 \<le> level \<Longrightarrow>
     base + N + hdr_room level \<le> length buf + 3 \<Longrightarrow>
     enc_ok (length buf) N level (qmi_encode eis buf base src sbase N level)"
  "enc_desc level2 S2 arr2 \<Longrightarrow> (level2 = 1 \<Longrightarrow> strings_terminated arr2 src2 sbase2) \<Longrightarrow>
     sbase2 + S2 \<le> length src2 \<Longrightarrow> length src2 < 2 ^ 31 \<Longrightarrow> N2 < 2 ^ 31 \<Longrightarrow> 1 \<le> level2 \<Longrightarrow>
     enc_inv L2 base2 N2 level2 st2 \<Longrightarrow> k2 \<le> eoti arr2 \<Longrightarrow>
     (level2 \<noteq> 1 \<Longrightarrow> k2 = 0 \<or> e_bytes st2 + 3 \<le> N2) \<Longrightarrow>
     enc_ok L2 N2 level2 (qmi_encode_loop arr2 k2 src2 sbase2 N2 level2 st2)"
  "ei_array ei3 = Some sub3 \<Longrightarrow> enc_desc level3 (elem_size ei3) sub3 \<Longrightarrow> 2 \<le> level3 \<Longrightarrow>
     q3 + n3 * elem_size ei3 \<le> length src3 \<Longrightarrow> length src3 < 2 ^ 31 \<Longrightarrow> N3 < 2 ^ 31 \<Longrightarrow>
     encoded3 \<le> N3 \<Longrightarrow> p3 + (N3 - encoded3) \<le> length buf3 + 3 \<Longrightarrow> 0 < n3 \<or> encoded3 + 3 \<le> N3 \<Longrightarrow>
     enc_ok (length buf3) N3 level3 (qmi_encode_struct_elem ei3 buf3 p3 src3 q3 n3 N3 level3 encoded3)"
proof (induction eis buf base src sbase N level
    and arr2 k2 src2 sbase2 N2 level2 st2
    and ei3 buf3 p3 src3 q3 n3 N3 level3 encoded3
    arbitrary: arr S and S2 L2 base2 and sub3 rule: qmi_encode_induct)
  case (1 eis buf base src sbase N level)
  have "enc_inv (length buf) base N level (enc_init buf base level)"
    using "1.prems"(8) by (simp add: enc_inv_def enc_init_def hdr_room_def qmi_consts)
  then show ?case using 1 by (simp add: qmi_encode.simps)
next
  case (2 arr k src sbase N level st)
  have wf: "eoti arr < length arr" "wf_desc S2 arr" using "2.prems"(1) by (auto simp: enc_desc_def wf_desc_def)
  then have at: "ei_at arr k = Some (arr ! k)" using "2.prems"(8) by simp
  show ?case
  proof (cases "data_type (arr ! k) = QMI_EOTI")
    case True
    have "level \<noteq> 1 \<Longrightarrow> e_bytes st + 3 \<le> N"
      using "2.prems"(1,9) True before_eoti [of 0 arr] by (cases "k = 0") (auto simp: enc_desc_def)
    then show ?thesis using "2.prems"(7)
      unfolding qmi_encode_loop.simps [of arr k] at option.case if_P [OF True]
      by (auto simp: enc_inv_def)
  next
    case False
    have k: "k < eoti arr" using eoti_next [OF "2.prems"(8) wf(1) False] .
    have sub: "u32_sub N (e_bytes st1) = N - e_bytes st1" if "enc_inv L2 base2 N level st1" for st1
      using that "2.prems"(5) by (intro u32_sub_le) (auto simp: enc_inv_def)
    show ?thesis
      unfolding qmi_encode_loop.simps [of arr k] at option.case if_not_P [OF False]
    proof (rule encode_round_ok [OF "2.prems"(1-7) k], goal_cases)
      case 1
      then show ?case .
    next
      case (2 st1)
      obtain sub where s: "ei_array (arr ! k) = Some sub" "enc_desc (Suc level) (elem_size (arr ! k)) sub"
        "offset (arr ! k) + e_dlen st1 * elem_size (arr ! k) \<le> S2"
        using enc_desc_nested [OF "2.prems"(1,8) 2(2) "2.prems"(6) 2(4)] by blast
      have "e_dst st1 + (N - e_bytes st1 - 0) \<le> length (e_buf st1) + 3"
        using 2(5) by (auto simp: enc_inv_def)
      then show ?case
        using "2.IH"(1) [OF at False 2(1,2) s(1,2)] s(3) "2.prems"(3-6) 2(3,5)
        by (auto simp: sub [OF 2(5)] enc_inv_def)
    next
      case (3 st1 k' st2 st3)
      have "e_bytes st3 + 3 \<le> N" if "level \<noteq> 1"
        using that 3(7,8) "2.prems"(1,9) by (cases "data_type (arr ! k) = QMI_OPT_FLAG") (auto simp: enc_desc_def)
      then show ?case
        using "2.IH"(2) [OF at False 3(1,2) refl 3(3) "2.prems"(1-6) 3(4,5)] by simp
    qed
  qed
next
  case (3 ei buf p src q n N level encoded)
  show ?case
  proof (cases n)
    case 0
    then show ?thesis using "3.prems"(7,9) by (subst qmi_encode_struct_elem.simps) simp
  next
    case (Suc m)
    have u: "u32_sub N encoded = N - encoded" using "3.prems"(6,7) by (intro u32_sub_le) auto
    have enc: "enc_ok (length buf) (N - encoded) level (qmi_encode (ei_array ei) buf p src q (N - encoded) level)"
      using "3.IH"(1) [OF Suc "3.prems"(1,2)] "3.prems"(3-8) Suc by (simp add: u hdr_room_def)
    show ?thesis
      unfolding qmi_encode_struct_elem.simps [of ei buf p src q "n"] unfolding Suc nat.case u
    proof (rule enc_ok_bind)
      show "qmi_encode (ei_array ei) buf p src q (N - encoded) level \<noteq> UB" using enc by auto
    next
      fix x assume x: "qmi_encode (ei_array ei) buf p src q (N - encoded) level = OK x"
      obtain buf' rc where x2: "x = (buf', rc)" by (cases x)
      have r: "length buf' = length buf" "encoded + rc + 3 \<le> N" using enc x x2 "3.prems"(3) by auto
      have "enc_ok (length buf') N level (qmi_encode_struct_elem ei buf' (p + rc) src (q + elem_size ei) m N level (encoded + rc))"
        using "3.IH"(2) [OF Suc x [unfolded x2, folded u] refl "3.prems"(1-3)] "3.prems"(4-8) r Suc by simp
      then show "enc_ok (length buf) N level (case x of (buf', rc) \<Rightarrow>
          qmi_encode_struct_elem ei buf' (p + rc) src (q + elem_size ei) m N level (encoded + rc))"
        using r(1) by (simp add: x2)
    qed
  qed
qed

end
