(* ===== verification/Qmi_Props.thy ===== *)
theory Qmi_Props
  imports Qmi_Bounds
begin

text \<open>
  The properties of the QMI encoder and decoder at the level of whole messages, and the
  behaviours of both on the inputs their size checks do not cover.
\<close>

text \<open>Running the encoder and the decoder on concrete descriptors.\<close>

lemmas qmi_encode_run = qmi_encode_message_def qmi_encode.simps qmi_encode_loop.simps
  qmi_encode_struct_elem.simps enc_init_def enc_data_len_def encode_elem_def encode_opt_flag_def
  encode_data_len_def encode_basic_def encode_string_def qmi_encode_basic_elem_def
  qmi_encode_string_elem_def string_len_size_def c_strlen_def enc_update_def enc_finish_tlv_def
  ei_at_def qmi_consts QMI_HEADER_SIZE_def

lemmas qmi_decode_run = qmi_decode_message_def qmi_decode.simps qmi_decode_loop.simps
  qmi_decode_struct_elem.simps qmi_decode_structs.simps dec_init_def dec_update_def dec_select_def
  dec_opt_flag_def dec_data_len_def dec_array_len_def dec_prefix_def dec_elem_def find_ei_def
  qmi_decode_basic_elem_def ei_at_def qmi_consts QMI_HEADER_SIZE_def

lemma copy_elems_numeral:
  "copy_elems dst p src q (numeral w) esz rc =
     rbind (of_opt (load src q esz)) (\<lambda>bs.
     rbind (of_opt (store dst p bs)) (\<lambda>dst'.
       copy_elems dst' (p + esz) src (q + esz) (pred_numeral w) esz (u32 (rc + esz))))"
  by (simp add: numeral_eq_Suc [of w])

lemmas mem_run = load_def store_def num_def u32_def u32_sub_def u64_def copy_elems_numeral
  le_bytes_numeral replicate_numeral

lemma message_payload_len: "7 \<le> n \<Longrightarrow> n < 2 ^ 31 \<Longrightarrow> u32 (u64 (n + (2 ^ 64 - QMI_HEADER_SIZE))) = n - 7"
proof -
  assume n: "7 \<le> n" "n < 2 ^ 31"
  then have "n + (2 ^ 64 - QMI_HEADER_SIZE) = (n - 7) + 2 ^ 64" by (simp add: QMI_HEADER_SIZE_def)
  then have "u64 (n + (2 ^ 64 - QMI_HEADER_SIZE)) = n - 7" using n
    by (simp only: u64_def mod_add_self2) simp
  then show ?thesis using n by simp
qed

text \<open>
  C1. Decoding never reads outside the message or writes outside the structure, whatever the
  bytes of the message are: for a descriptor that fits the structure and a message of at least
  a header, \<^verbatim>\<open>qmi_decode_message\<close> has no out-of-range access, and the structure keeps
  its size.
\<close>

theorem qmi_decode_message_safe:
  assumes "wf_desc (length cs) arr" "7 \<le> length buf" "length buf < 2 ^ 31"
  shows "qmi_decode_message (Some buf) (length buf) (Some arr) (Some cs) \<noteq> UB \<and>
    (\<forall>cs' n. qmi_decode_message (Some buf) (length buf) (Some arr) (Some cs) = OK (cs', n) \<longrightarrow>
       length cs' = length cs)"
proof -
  have "buf \<noteq> []" using assms(2) by auto
  moreover have "dec_ok (length cs) (length buf - 7) 1 (qmi_decode (Some arr) cs 0 buf 7 (length buf - 7) 1)"
    using assms by (intro decode_safe(1)) auto
  ultimately show ?thesis
    using message_payload_len [OF assms(2,3)]
    by (auto simp: qmi_decode_message_def QMI_HEADER_SIZE_def dec_ok_def split: result.splits)
qed

definition resp_msg_ei :: "qmi_elem_info list" where
  "resp_msg_ei = [EI QMI_STRUCT 1 4 NO_ARRAY 2 0 (Some qmi_response_type_v01_ei),
                  EI QMI_EOTI 0 0 NO_ARRAY 0 0 None]"

lemma resp_msg_ei_wf: "wf_desc (Suc (Suc (Suc (Suc 0)))) resp_msg_ei"
  by (simp add: wf_desc_def resp_msg_ei_def qmi_response_type_v01_ei_def eoti_def wf_elem.simps max_count_def)

lemma resp_msg_ei_encodable: "encodable resp_msg_ei" "strings_terminated resp_msg_ei cs 0"
  by (simp_all add: encodable_def strings_terminated_def resp_msg_ei_def len_fields_ok_def tlv_closed_def
      eoti_def nested_ok.simps qmi_response_type_v01_ei_def All_less_Suc)

theorem qmi_decode_message_safe_witness:
  "qmi_decode_message (Some (replicate 14 255)) 14 (Some resp_msg_ei) (Some [0, 0, 0, 0]) \<noteq> UB"
  using qmi_decode_message_safe [of "[0, 0, 0, 0]" resp_msg_ei "replicate 14 255"] resp_msg_ei_wf by simp

text \<open>
  C2. Encoding stays inside the message it allocates: for an encodable descriptor that fits the
  structure, \<^verbatim>\<open>qmi_encode_message\<close> has no out-of-range access, and the returned length
  is at most the header and the caller's maximum.
\<close>

theorem qmi_encode_message_safe:
  assumes "wf_desc (length cs) arr" "encodable arr" "strings_terminated arr cs 0"
    and "length cs < 2 ^ 31" "len < 2 ^ 31"
  shows "qmi_encode_message kzalloc_ok type msg_id len txn_id (Some arr) (Some cs) \<noteq> UB \<and>
    (\<forall>msg n. qmi_encode_message kzalloc_ok type msg_id len txn_id (Some arr) (Some cs) = OK (msg, n) \<longrightarrow>
       7 \<le> n \<and> n \<le> 7 + len \<and> length msg = 7 + len)"
proof -
  let ?msg = "replicate (7 + len) (0 :: byte)"
  have "enc_desc 1 (length cs) arr"
    using assms(1,2) by (simp add: enc_desc_def encodable_def)
  then have e: "enc_ok (length ?msg) len 1 (qmi_encode (Some arr) ?msg 7 cs 0 len 1)"
    using assms by (intro encode_safe(1)) (auto simp: hdr_room_def)
  have h: "length (qmi_header type txn_id msg_id n) = 7" for n by (simp add: qmi_header_def)
  show ?thesis
    using e assms(5) 
    by (auto simp: qmi_encode_message_def QMI_HEADER_SIZE_def rbind_UB_iff mem_simps h dest: store_length)
qed

theorem qmi_encode_message_safe_witness:
  "qmi_encode_message (\<lambda>_. True) 2 32 7 1 (Some resp_msg_ei) (Some [1, 0, 3, 0]) \<noteq> UB"
  using qmi_encode_message_safe [of "[1, 0, 3, 0]" resp_msg_ei 7 "\<lambda>_. True" 2 32 1] resp_msg_ei_wf
    resp_msg_ei_encodable by simp

text \<open>
  A message shorter than the header makes \<^verbatim>\<open>qmi_decode_message\<close> read past it: the
  length left for the payload wraps around.
\<close>

theorem qmi_decode_message_short:
  assumes "0 < length buf" "length buf < 7"
  shows "qmi_decode_message (Some buf) (length buf) (Some arr) (Some cs) = UB"
proof -
  have "length buf + (2 ^ 64 - 7) < 2 ^ 64" using assms by simp
  then have "u64 (length buf + (2 ^ 64 - 7)) = length buf + (2 ^ 64 - 7)" by (rule u64_id)
  moreover have "2 ^ 32 - 7 < u32 (length buf + (2 ^ 64 - 7))"
  proof -
    have "length buf + (2 ^ 64 - 7) = (length buf + (2 ^ 32 - 7)) + (2 ^ 32 - 1) * 2 ^ 32" by simp
    then have "u32 (length buf + (2 ^ 64 - 7)) = (length buf + (2 ^ 32 - 7)) mod 2 ^ 32"
      by (simp only: u32_def mod_mult_self1)
    then show ?thesis using assms by simp
  qed
  moreover have "num buf 7 1 = None" using assms by (simp add: num_None_iff)
  ultimately show ?thesis using assms
    by (simp add: qmi_decode_message_def QMI_HEADER_SIZE_def qmi_decode.simps
        qmi_decode_loop.simps [of arr 0] dec_init_def dec_select_def qmi_consts)
qed

theorem qmi_decode_message_short_witness:
  "qmi_decode_message (Some [2, 0, 0]) (length [2 :: byte, 0, 0]) (Some resp_msg_ei) (Some [0, 0, 0, 0]) = UB"
  by (rule qmi_decode_message_short) simp_all


text \<open>
  C16. The common response message round-trips: for every result and error code, encoding the
  response structure gives the header and one type-length-value element, and decoding that
  message gives the structure back.
\<close>

theorem qmi_response_roundtrip:
  "qmi_encode_message (\<lambda>_. True) type msg_id 7 txn_id (Some resp_msg_ei) (Some [a, b, c, d])
     = OK (qmi_header type txn_id msg_id 7 @ [2, 4, 0, a, b, c, d], 14) \<and>
   qmi_decode_message (Some (qmi_header type txn_id msg_id 7 @ [2, 4, 0, a, b, c, d])) 14
     (Some resp_msg_ei) (Some [0, 0, 0, 0]) = OK ([a, b, c, d], 7)"
  unfolding resp_msg_ei_def qmi_response_type_v01_ei_def
  by (simp add: qmi_header_def qmi_encode_run qmi_decode_run mem_run cong: rbind_weak_cong)

text \<open>
  Unknown optional elements are skipped: at the top level, an element of a type at or above
  0x10 that the descriptor does not have is passed over with its length and the structure is
  unchanged; a type below 0x10 that the descriptor does not have is an error.
\<close>

theorem qmi_decode_unknown_element:
  assumes "find_ei arr t = OK None" "num src (d_src st) 1 = Some t" "num src (d_src st + 1) 2 = Some l"
    and "d_bytes st + 3 \<le> N" "N < 2 ^ 31"
  shows "qmi_decode_loop arr k cbase src N 1 st =
    (if t < 16 then Err EINVAL
     else qmi_decode_loop arr k cbase src N 1
            (st\<lparr>d_tlv_type := t, d_tlv_len := l,
                d_src := d_src st + 3 + l, d_bytes := d_bytes st + 3 + l\<rparr>))"
proof -
  have "l < 65536" using num_less [OF assms(3)] by simp
  then show ?thesis using assms
    by (subst qmi_decode_loop.simps)
      (simp add: dec_select_def dec_update_def qmi_consts Let_def add.commute add.left_commute numeral_3_eq_3)
qed

lemma qmi_decode_loop_end: "N \<le> d_bytes st \<Longrightarrow> qmi_decode_loop arr k cbase src N level st = OK (d_struct st, d_bytes st)"
  by (subst qmi_decode_loop.simps) simp

theorem qmi_decode_unknown_element_witness:
  "qmi_decode_loop resp_msg_ei 0 0 [32, 1, 0, 9] 4 1 (dec_init [0, 0, 0, 0] 0) = OK ([0, 0, 0, 0], 4)"
  using qmi_decode_unknown_element [of resp_msg_ei 32 "[32, 1, 0, 9]" "dec_init [0, 0, 0, 0] 0" 1 4 0 0]
  by (simp add: resp_msg_ei_def find_ei_def dec_init_def num_def load_def qmi_decode_loop_end)

text \<open>
  A one-byte length prefix keeps the upper bytes of the length decoded before it: the
  decoder copies one byte into \<^verbatim>\<open>data_len_value\<close> and reads all four.
\<close>

theorem qmi_decode_data_len_stale:
  assumes "k < length arr" "data_type (arr ! k) = QMI_DATA_LEN" "elem_size (arr ! k) = 1"
    and "d_dlen st < 2 ^ 32" "d_bytes st < N" "N < 2 ^ 31" "d_src st < length src"
    and "cbase + offset (arr ! k) + 4 \<le> length (d_struct st)"
  shows "\<exists>st'. dec_data_len arr k cbase src N st = OK (Suc k, st') \<and>
           d_dlen st' = 256 * (d_dlen st div 256) + unat (src ! d_src st)"
proof -
  let ?ei = "arr ! k" and ?n = "le_bytes 4 (d_dlen st)"
  have sub: "1 \<le> u32_sub N (d_bytes st)" using assms(5,6) by (simp add: u32_sub_le)
  have ld: "load src (d_src st) 1 = Some [src ! d_src st]"
    using assms(7) by (simp add: load_def take_Suc_conv_app_nth hd_drop_conv_nth)
  have n: "?n = of_nat (d_dlen st) # le_bytes 3 (d_dlen st div 256)" by (simp add: le_bytes_numeral)
  have var: "qmi_decode_basic_elem ?n 0 src (d_src st) 1 1 (u32_sub N (d_bytes st))
      = OK (src ! d_src st # le_bytes 3 (d_dlen st div 256), 1)"
    using sub ld by (simp add: qmi_decode_basic_elem_def n store_def)
  have "d_dlen st div 256 < 256 ^ 3" using assms(4) by (simp add: less_mult_imp_div_less)
  then have "le_val (src ! d_src st # le_bytes 3 (d_dlen st div 256)) = 256 * (d_dlen st div 256) + unat (src ! d_src st)"
    by simp
  moreover obtain cs where "store (d_struct st) (cbase + offset ?ei) (src ! d_src st # le_bytes 3 (d_dlen st div 256)) = Some cs"
    using assms(8) by (auto simp: store_def)
  ultimately show ?thesis
    using assms(1-3) var by (simp add: dec_data_len_def data_len_size_def Let_def dec_update_def)
qed

theorem qmi_decode_data_len_stale_witness:
  "\<exists>st'. dec_data_len [EI QMI_DATA_LEN 1 1 NO_ARRAY 1 0 None] 0 0 [1] 1
            ((dec_init [0, 0, 0, 0] 0)\<lparr>d_dlen := 258\<rparr>) = OK (1, st') \<and> d_dlen st' = 257"
  using qmi_decode_data_len_stale [of 0 "[EI QMI_DATA_LEN 1 1 NO_ARRAY 1 0 None]"
      "(dec_init [0, 0, 0, 0] 0)\<lparr>d_dlen := 258\<rparr>" 1 "[1]" 0]
  by (simp add: dec_init_def)

definition nested_string_ei :: "qmi_elem_info list" where
  "nested_string_ei = [EI QMI_STRUCT 1 8 NO_ARRAY 2 0
     (Some [EI QMI_STRING 8 1 NO_ARRAY 0 0 None, EI QMI_EOTI 0 0 NO_ARRAY 0 0 None]),
     EI QMI_EOTI 0 0 NO_ARRAY 0 0 None]"

text \<open>
  The size check of a string inside a structure leaves no room for the header of the
  element that contains it: for a well-formed descriptor and a terminated string of three
  characters, a maximum payload of four bytes passes the check and the encoder writes past the
  message.
\<close>

theorem qmi_encode_nested_string_overflow:
  "wf_desc 8 nested_string_ei \<and>
   qmi_encode_message (\<lambda>_. True) 0 32 4 1 (Some nested_string_ei) (Some [65, 66, 67, 0, 0, 0, 0, 0]) = UB"
  unfolding nested_string_ei_def
  by (simp add: wf_desc_def eoti_def wf_elem.simps max_count_def qmi_encode_run mem_run cong: rbind_weak_cong)

end
