(* ===== verification/Smem_Heap.thy ===== *)
theory Smem_Heap
  imports Prelude
begin

text \<open>
  The contract of an allocate-only item heap, as \<^verbatim>\<open>drivers/soc/qcom/smem.c\<close> offers it
  for private partitions and for the global heap: what a lookup returns after an allocation,
  that other items keep their place, and that a new item overlaps no other. The facts about
  sequences of allocations are proved once here.
\<close>

definition apart :: "nat \<times> nat \<Rightarrow> nat \<times> nat \<Rightarrow> bool" where
  "apart a b = (fst a + snd a \<le> fst b \<or> fst b + snd b \<le> fst a)"

lemma apart_sym: "apart a b \<Longrightarrow> apart b a"
  by (auto simp: apart_def)

fun alloc_seq :: "('h \<Rightarrow> nat \<Rightarrow> nat \<Rightarrow> 'h result) \<Rightarrow> 'h \<Rightarrow> (nat \<times> nat) list \<Rightarrow> 'h result" where
  "alloc_seq alloc h [] = OK h"
| "alloc_seq alloc h ((item, sz) # xs) = rbind (alloc h item sz) (\<lambda>h'. alloc_seq alloc h' xs)"

lemma alloc_seq_snoc:
  "alloc_seq alloc h (xs @ [(item, sz)]) = rbind (alloc_seq alloc h xs) (\<lambda>h'. alloc h' item sz)"
proof (induction xs arbitrary: h)
  case Nil
  then show ?case by (cases "alloc h item sz") auto
next
  case (Cons x xs)
  then show ?case by (cases x; cases "alloc h (fst x) (snd x)") auto
qed

locale item_heap =
  fixes inv :: "'h \<Rightarrow> bool"
    and alloc :: "'h \<Rightarrow> nat \<Rightarrow> nat \<Rightarrow> 'h result"
    and get :: "'h \<Rightarrow> nat \<Rightarrow> (nat \<times> nat) result"
    and valid :: "nat \<Rightarrow> nat \<Rightarrow> bool"
  assumes alloc_inv: "inv h \<Longrightarrow> valid item sz \<Longrightarrow> alloc h item sz = OK h' \<Longrightarrow> inv h'"
    and alloc_get: "inv h \<Longrightarrow> valid item sz \<Longrightarrow> alloc h item sz = OK h' \<Longrightarrow>
          \<exists>p s. get h' item = OK (p, s) \<and> sz \<le> s"
    and alloc_frame: "inv h \<Longrightarrow> valid item sz \<Longrightarrow> alloc h item sz = OK h' \<Longrightarrow> i \<noteq> item \<Longrightarrow>
          get h' i = get h i"
    and alloc_fresh: "inv h \<Longrightarrow> valid item sz \<Longrightarrow> alloc h item sz = OK h' \<Longrightarrow> i \<noteq> item \<Longrightarrow>
          get h' item = OK a \<Longrightarrow> get h' i = OK b \<Longrightarrow> apart a b"
begin

lemma seq_inv:
  "inv h \<Longrightarrow> list_all (\<lambda>(item, sz). valid item sz) xs \<Longrightarrow> alloc_seq alloc h xs = OK h' \<Longrightarrow> inv h'"
proof (induction xs arbitrary: h)
  case (Cons x xs)
  obtain item sz where [simp]: "x = (item, sz)" by (cases x)
  obtain h1 where h1: "alloc h item sz = OK h1" "alloc_seq alloc h1 xs = OK h'" using Cons.prems by auto
  have "inv h1" using alloc_inv [OF Cons.prems(1) _ h1(1)] Cons.prems(2) by simp
  then show ?case using Cons.IH [OF _ _ h1(2)] Cons.prems(2) by simp
qed simp

lemma seq_frame:
  "inv h \<Longrightarrow> list_all (\<lambda>(item, sz). valid item sz) xs \<Longrightarrow> alloc_seq alloc h xs = OK h' \<Longrightarrow>
     i \<notin> fst ` set xs \<Longrightarrow> get h' i = get h i"
proof (induction xs arbitrary: h)
  case (Cons x xs)
  obtain item sz where [simp]: "x = (item, sz)" by (cases x)
  obtain h1 where h1: "alloc h item sz = OK h1" "alloc_seq alloc h1 xs = OK h'" using Cons.prems by auto
  have v: "valid item sz" using Cons.prems(2) by simp
  have "inv h1" using alloc_inv [OF Cons.prems(1) v h1(1)] .
  then have "get h' i = get h1 i" using Cons.IH [OF _ _ h1(2)] Cons.prems(2,4) by simp
  also have "\<dots> = get h i" using alloc_frame [OF Cons.prems(1) v h1(1)] Cons.prems(4) by simp
  finally show ?case .
qed simp

lemma seq_get:
  "inv h \<Longrightarrow> list_all (\<lambda>(item, sz). valid item sz) xs \<Longrightarrow> alloc_seq alloc h xs = OK h' \<Longrightarrow>
     distinct (map fst xs) \<Longrightarrow> (i, n) \<in> set xs \<Longrightarrow> \<exists>p s. get h' i = OK (p, s) \<and> n \<le> s"
proof (induction xs arbitrary: h)
  case (Cons x xs)
  obtain item sz where [simp]: "x = (item, sz)" by (cases x)
  obtain h1 where h1: "alloc h item sz = OK h1" "alloc_seq alloc h1 xs = OK h'" using Cons.prems by auto
  have inv1: "inv h1" using alloc_inv [OF Cons.prems(1) _ h1(1)] Cons.prems(2) by simp
  show ?case
  proof (cases "(i, n) \<in> set xs")
    case True
    then show ?thesis using Cons.IH [OF inv1 _ h1(2)] Cons.prems by simp
  next
    case False
    then have "i = item" "n = sz" using Cons.prems(5) by auto
    moreover have "get h' item = get h1 item"
      using seq_frame [OF inv1 _ h1(2), of item] Cons.prems by simp
    ultimately show ?thesis using alloc_get [OF Cons.prems(1) _ h1(1)] Cons.prems(2) by simp
  qed
qed simp

lemma seq_apart:
  assumes "inv h"
  shows "list_all (\<lambda>(item, sz). valid item sz) xs \<Longrightarrow> alloc_seq alloc h xs = OK h' \<Longrightarrow>
     i \<noteq> j \<Longrightarrow> j \<in> fst ` set xs \<Longrightarrow> get h' i = OK a \<Longrightarrow> get h' j = OK b \<Longrightarrow> apart a b"
proof (induction xs arbitrary: h' rule: rev_induct)
  case (snoc x xs)
  obtain item sz where [simp]: "x = (item, sz)" by (cases x)
  obtain h1 where h1: "alloc_seq alloc h xs = OK h1" "alloc h1 item sz = OK h'"
    using snoc.prems(2) by (auto simp: alloc_seq_snoc)
  have v: "list_all (\<lambda>(item, sz). valid item sz) xs" "valid item sz" using snoc.prems(1) by auto
  have inv1: "inv h1" using seq_inv [OF assms v(1) h1(1)] .
  consider (i) "i = item" | (j) "j = item" | (old) "i \<noteq> item" "j \<noteq> item" "j \<in> fst ` set xs"
    using snoc.prems(4) by auto
  then show ?case
  proof cases
    case i
    then show ?thesis
      using alloc_fresh [OF inv1 v(2) h1(2), of j a b] snoc.prems(3,5,6) by simp
  next
    case j
    then show ?thesis
      using apart_sym [OF alloc_fresh [OF inv1 v(2) h1(2), of i b a]] snoc.prems(3,5,6) by simp
  next
    case old
    then show ?thesis
      using snoc.IH [OF v(1) h1(1) snoc.prems(3)] snoc.prems(5,6) alloc_frame [OF inv1 v(2) h1(2)] by auto
  qed
qed simp

end

end
