(* ===== verification/Smem_Private.thy ===== *)
theory Smem_Private
  imports Smem_Heap
begin

text \<open>
  The private heaps of \<^verbatim>\<open>drivers/soc/qcom/smem.c\<close>: a partition of shared memory with
  a header, a list of uncached entries growing up from it and a list of cached entries growing
  down from its end. The partition is a byte memory that remote processors write as well, so
  nothing is assumed of its contents except where a theorem says so. A pointer into the partition is an
  offset from \<^verbatim>\<open>virt_base\<close> (an integer where the code may step below the base); the
  comparison that can wrap around the address space is done on full addresses.
\<close>

subsection \<open>Layout\<close>

record smem_partition =
  p_virt_base :: nat
  p_phys_base :: nat
  p_cacheline :: nat
  p_size :: nat
  p_mem :: bytes

definition SMEM_PART_MAGIC :: bytes where "SMEM_PART_MAGIC = [0x24, 0x50, 0x52, 0x54]"
definition SMEM_PRIVATE_CANARY :: nat where "SMEM_PRIVATE_CANARY = 0xa5a5"
definition PHDR_SIZE :: nat where "PHDR_SIZE = 32"
definition ENTRY_SIZE :: nat where "ENTRY_SIZE = 16"

text \<open>The fields of \<^verbatim>\<open>struct smem_partition_header\<close>.\<close>

definition phdr_host0 :: "bytes \<Rightarrow> nat result" where "phdr_host0 m = of_opt (num m 4 2)"
definition phdr_host1 :: "bytes \<Rightarrow> nat result" where "phdr_host1 m = of_opt (num m 6 2)"
definition phdr_size :: "bytes \<Rightarrow> nat result" where "phdr_size m = of_opt (num m 8 4)"
definition phdr_free_uncached :: "bytes \<Rightarrow> nat result" where
  "phdr_free_uncached m = of_opt (num m 12 4)"
definition phdr_free_cached :: "bytes \<Rightarrow> nat result" where
  "phdr_free_cached m = of_opt (num m 16 4)"

text \<open>The fields of \<^verbatim>\<open>struct smem_private_entry\<close> at offset \<open>e\<close>.\<close>

definition entry_canary :: "bytes \<Rightarrow> nat \<Rightarrow> nat result" where
  "entry_canary m e = of_opt (num m e 2)"
definition entry_item :: "bytes \<Rightarrow> nat \<Rightarrow> nat result" where
  "entry_item m e = of_opt (num m (e + 2) 2)"
definition entry_size :: "bytes \<Rightarrow> nat \<Rightarrow> nat result" where
  "entry_size m e = of_opt (num m (e + 4) 4)"
definition entry_padding_data :: "bytes \<Rightarrow> nat \<Rightarrow> nat result" where
  "entry_padding_data m e = of_opt (num m (e + 8) 2)"
definition entry_padding_hdr :: "bytes \<Rightarrow> nat \<Rightarrow> nat result" where
  "entry_padding_hdr m e = of_opt (num m (e + 10) 2)"

lemmas smem_layout = phdr_host0_def phdr_host1_def phdr_size_def phdr_free_uncached_def
  phdr_free_cached_def entry_canary_def entry_item_def entry_size_def entry_padding_data_def
  entry_padding_hdr_def PHDR_SIZE_def ENTRY_SIZE_def

definition IN_PARTITION_RANGE :: "int \<Rightarrow> int \<Rightarrow> int \<Rightarrow> int \<Rightarrow> bool" where
  "IN_PARTITION_RANGE ptr sz start end = (ptr \<ge> start \<and> ptr + sz \<ge> ptr \<and> ptr + sz \<le> end)"

text \<open>The pointer helpers, as offsets.\<close>

definition phdr_to_first_cached_entry :: "bytes \<Rightarrow> nat \<Rightarrow> int result" where
  "phdr_to_first_cached_entry m cacheline =
     rbind (phdr_size m) (\<lambda>size. OK (int size - int (ALIGN ENTRY_SIZE cacheline)))"

definition uncached_entry_next :: "bytes \<Rightarrow> nat \<Rightarrow> nat result" where
  "uncached_entry_next m e =
     rbind (entry_padding_hdr m e) (\<lambda>ph. rbind (entry_size m e) (\<lambda>size.
       OK (e + ENTRY_SIZE + ph + size)))"

definition cached_entry_next :: "bytes \<Rightarrow> int \<Rightarrow> nat \<Rightarrow> int result" where
  "cached_entry_next m e cacheline =
     rbind (entry_size m (nat e)) (\<lambda>size. OK (e - int size - int (ALIGN ENTRY_SIZE cacheline)))"

definition uncached_entry_to_item :: "bytes \<Rightarrow> nat \<Rightarrow> nat result" where
  "uncached_entry_to_item m e = rbind (entry_padding_hdr m e) (\<lambda>ph. OK (e + ENTRY_SIZE + ph))"

definition cached_entry_to_item :: "bytes \<Rightarrow> int \<Rightarrow> int result" where
  "cached_entry_to_item m e = rbind (entry_size m (nat e)) (\<lambda>size. OK (e - int size))"

lemma uncached_entry_next_gt: "uncached_entry_next m e = OK e' \<Longrightarrow> e < e'"
  by (auto simp: uncached_entry_next_def ENTRY_SIZE_def)

subsection \<open>Looking an item up\<close>

text \<open>The size of a matching entry, common to both lists.\<close>

definition entry_data_size :: "bytes \<Rightarrow> nat \<Rightarrow> nat \<Rightarrow> nat result" where
  "entry_data_size m part_size e =
     rbind (entry_size m e) (\<lambda>e_size.
     rbind (entry_padding_data m e) (\<lambda>padding_data.
       if e_size < part_size \<and> padding_data < e_size then OK (e_size - padding_data)
       else Err EINVAL))"

text \<open>
  The uncached loop: \<open>Inl\<close> of the item's offset and size when it is found, \<open>Inr\<close> of the
  position where the list ends otherwise.
\<close>

function get_uncached :: "bytes \<Rightarrow> nat \<Rightarrow> nat \<Rightarrow> nat \<Rightarrow> nat \<Rightarrow> (nat \<times> nat + nat) result" where
  "get_uncached m part_size item uncached_end e =
     (if e < uncached_end \<and> e + ENTRY_SIZE < uncached_end then
        rbind (entry_canary m e) (\<lambda>canary.
          if canary \<noteq> SMEM_PRIVATE_CANARY then Err EINVAL
          else
            rbind (entry_item m e) (\<lambda>it.
              if it = item then
                rbind (entry_data_size m part_size e) (\<lambda>esz.
                rbind (uncached_entry_to_item m e) (\<lambda>item_ptr.
                  if \<not> IN_PARTITION_RANGE (int item_ptr) (int esz) (int e) (int uncached_end)
                  then Err EINVAL
                  else OK (Inl (item_ptr, esz))))
              else
                rbind (uncached_entry_next m e) (\<lambda>next_e.
                  if next_e \<le> e then Err EINVAL
                  else get_uncached m part_size item uncached_end next_e)))
      else OK (Inr e))"
  by pat_completeness auto
termination
  by (relation "measure (\<lambda>(m, psz, item, uend, e). uend - e)") auto

function get_cached ::
  "bytes \<Rightarrow> nat \<Rightarrow> nat \<Rightarrow> nat \<Rightarrow> nat \<Rightarrow> int \<Rightarrow> (nat \<times> nat + int) result" where
  "get_cached m part_size cacheline item cached_end e =
     (if e > int cached_end then
        rbind (entry_canary m (nat e)) (\<lambda>canary.
          if canary \<noteq> SMEM_PRIVATE_CANARY then Err EINVAL
          else
            rbind (entry_item m (nat e)) (\<lambda>it.
              if it = item then
                rbind (entry_data_size m part_size (nat e)) (\<lambda>esz.
                rbind (cached_entry_to_item m e) (\<lambda>item_ptr.
                  if \<not> IN_PARTITION_RANGE item_ptr (int esz) (int cached_end) e
                  then Err EINVAL
                  else OK (Inl (nat item_ptr, esz))))
              else
                rbind (cached_entry_next m e cacheline) (\<lambda>next_e.
                  if next_e \<ge> e then Err EINVAL
                  else get_cached m part_size cacheline item cached_end next_e)))
      else OK (Inr e))"
  by pat_completeness auto
termination
  by (relation "measure (\<lambda>(m, psz, cl, item, cend, e). nat (e - int cend))") auto

declare get_uncached.simps [simp del] get_cached.simps [simp del]

definition qcom_smem_get_cached ::
  "smem_partition \<Rightarrow> nat \<Rightarrow> nat \<Rightarrow> nat \<Rightarrow> (nat \<times> nat) result" where
  "qcom_smem_get_cached part item uncached_end cached_end =
     (if cached_end = p_size part then Err ENOENT
      else
        rbind (phdr_to_first_cached_entry (p_mem part) (p_cacheline part)) (\<lambda>e.
          if \<not> IN_PARTITION_RANGE (int cached_end) 0 (int uncached_end) (int (p_size part)) \<or>
             \<not> IN_PARTITION_RANGE e (int ENTRY_SIZE) (int cached_end) (int (p_size part))
          then Err EINVAL
          else
            rbind (get_cached (p_mem part) (p_size part) (p_cacheline part) item cached_end e) (\<lambda>r.
              case r of Inl found \<Rightarrow> OK found
              | Inr e \<Rightarrow> if e < 0 then Err EINVAL else Err ENOENT)))"

definition qcom_smem_get_private :: "smem_partition \<Rightarrow> nat \<Rightarrow> (nat \<times> nat) result" where
  "qcom_smem_get_private part item =
     (let m = p_mem part in
      rbind (phdr_free_uncached m) (\<lambda>uncached_end.
      rbind (phdr_free_cached m) (\<lambda>cached_end.
        if \<not> IN_PARTITION_RANGE (int uncached_end) 0 0 (int cached_end) \<or> cached_end > p_size part
        then Err EINVAL
        else
          rbind (get_uncached m (p_size part) item uncached_end PHDR_SIZE) (\<lambda>r.
            case r of Inl found \<Rightarrow> OK found
            | Inr e \<Rightarrow>
                if e > uncached_end then Err EINVAL
                else qcom_smem_get_cached part item uncached_end cached_end))))"

subsection \<open>Allocating an item\<close>

function alloc_walk :: "bytes \<Rightarrow> nat \<Rightarrow> nat \<Rightarrow> nat \<Rightarrow> nat result" where
  "alloc_walk m item end hdr =
     (if hdr < end \<and> hdr + ENTRY_SIZE < end then
        rbind (entry_canary m hdr) (\<lambda>canary.
          if canary \<noteq> SMEM_PRIVATE_CANARY then Err EINVAL
          else
            rbind (entry_item m hdr) (\<lambda>it.
              if it = item then Err EEXIST
              else
                rbind (uncached_entry_next m hdr) (\<lambda>next_hdr.
                  if next_hdr \<le> hdr then Err EINVAL else alloc_walk m item end next_hdr)))
      else OK hdr)"
  by pat_completeness auto
termination
  by (relation "measure (\<lambda>(m, item, end, hdr). end - hdr)") auto

declare alloc_walk.simps [simp del]

text \<open>
  The stores of a new entry header, and the free offset advanced by the allocated size.
  \<^verbatim>\<open>padding_data\<close> is \<open>u16\<close> of the difference to the requested size.
\<close>

definition write_entry :: "bytes \<Rightarrow> nat \<Rightarrow> nat \<Rightarrow> nat \<Rightarrow> bytes result" where
  "write_entry m hdr item sz =
     (let asize = u32 (ALIGN sz 8) in
      rbind (of_opt (put m hdr 2 SMEM_PRIVATE_CANARY)) (\<lambda>m.
      rbind (of_opt (put m (hdr + 2) 2 item)) (\<lambda>m.
      rbind (of_opt (put m (hdr + 4) 4 asize)) (\<lambda>m.
      rbind (of_opt (put m (hdr + 8) 2 (u64 (asize + (2 ^ 64 - sz))))) (\<lambda>m.
        of_opt (put m (hdr + 10) 2 0))))))"

definition le32_add_cpu :: "bytes \<Rightarrow> nat \<Rightarrow> nat \<Rightarrow> bytes result" where
  "le32_add_cpu m p v =
     rbind (of_opt (num m p 4)) (\<lambda>old. of_opt (put m p 4 (u32 (old + u32 v))))"

definition qcom_smem_alloc_private :: "smem_partition \<Rightarrow> nat \<Rightarrow> nat \<Rightarrow> smem_partition result" where
  "qcom_smem_alloc_private part item sz =
     (let m = p_mem part in
      rbind (phdr_free_uncached m) (\<lambda>end.
      rbind (phdr_free_cached m) (\<lambda>cached.
        if \<not> IN_PARTITION_RANGE (int end) 0 0 (int cached) \<or> cached > p_size part then Err EINVAL
        else
          rbind (alloc_walk m item end PHDR_SIZE) (\<lambda>hdr.
            if hdr > end then Err EINVAL
            else
              let alloc_size = u64 (ENTRY_SIZE + ALIGN sz 8) in
              if u64 (p_virt_base part + hdr + alloc_size) > p_virt_base part + cached then Err ENOSPC
              else
                rbind (write_entry m hdr item sz) (\<lambda>m1.
                rbind (le32_add_cpu m1 12 alloc_size) (\<lambda>m2.
                  OK (part\<lparr>p_mem := m2\<rparr>)))))))"

subsection \<open>Lookups on arbitrary contents\<close>

lemma entry_fields_OK:
  assumes "e + 16 \<le> length m"
  obtains c it sz pd ph where "entry_canary m e = OK c" "entry_item m e = OK it" "entry_size m e = OK sz"
    "entry_padding_data m e = OK pd" "entry_padding_hdr m e = OK ph"
  using assms num_OK [of e 2 m] num_OK [of "e + 2" 2 m] num_OK [of "e + 4" 4 m] num_OK [of "e + 8" 2 m]
    num_OK [of "e + 10" 2 m] that
  by (auto simp: smem_layout)

lemma entry_data_size_OK:
  assumes "e + 16 \<le> length m"
  shows "entry_data_size m psz e \<noteq> UB" "entry_data_size m psz e = OK s \<Longrightarrow> 0 < s"
  by (rule entry_fields_OK [OF assms]; auto simp: entry_data_size_def split: if_splits)+

definition found_in :: "nat \<Rightarrow> nat \<Rightarrow> nat \<times> nat \<Rightarrow> bool" where
  "found_in lo hi r = (case r of (p, s) \<Rightarrow> lo \<le> p \<and> 0 < s \<and> p + s \<le> hi)"

lemma get_uncached_safe:
  "uend \<le> length m \<Longrightarrow>
     case get_uncached m psz item uend e of
       OK (Inl r) \<Rightarrow> found_in (e + 16) uend r | OK (Inr e') \<Rightarrow> e \<le> e' | Err _ \<Rightarrow> True | UB \<Rightarrow> False"
proof (induction m psz item uend e rule: get_uncached.induct)
  case (1 m psz item uend e)
  show ?case
  proof (cases "e < uend \<and> e + ENTRY_SIZE < uend")
    case True
    then have in_range: "e + 16 \<le> length m" using "1.prems" by (simp add: ENTRY_SIZE_def)
    obtain c it sz pd ph where f: "entry_canary m e = OK c" "entry_item m e = OK it" "entry_size m e = OK sz"
      "entry_padding_data m e = OK pd" "entry_padding_hdr m e = OK ph"
      using entry_fields_OK [OF in_range] .
    have nxt: "uncached_entry_next m e = OK (e + ENTRY_SIZE + ph + sz)"
      using f by (simp add: uncached_entry_next_def)
    show ?thesis
    proof (cases "c = SMEM_PRIVATE_CANARY \<and> it \<noteq> item")
      case go: True
      then have "get_uncached m psz item uend e = get_uncached m psz item uend (e + ENTRY_SIZE + ph + sz)"
        using True f nxt by (subst get_uncached.simps) (auto simp: ENTRY_SIZE_def)
      moreover have "case get_uncached m psz item uend (e + ENTRY_SIZE + ph + sz) of
         OK (Inl r) \<Rightarrow> found_in (e + ENTRY_SIZE + ph + sz + 16) uend r
         | OK (Inr e') \<Rightarrow> e + ENTRY_SIZE + ph + sz \<le> e' | Err _ \<Rightarrow> True | UB \<Rightarrow> False"
        using go True f nxt "1.prems" by (intro "1.IH") (auto simp: ENTRY_SIZE_def)
      ultimately show ?thesis
        by (auto simp: found_in_def ENTRY_SIZE_def split: result.splits sum.splits)
    next
      case False
      then show ?thesis
        using True f entry_data_size_OK [OF in_range, of psz]
        by (cases "entry_data_size m psz e"; subst get_uncached.simps)
          (auto simp: found_in_def ENTRY_SIZE_def uncached_entry_to_item_def IN_PARTITION_RANGE_def
            split: result.splits if_splits)
    qed
  qed (subst get_uncached.simps, auto)
qed

lemma get_cached_safe:
  "e + 16 \<le> int (length m) \<Longrightarrow>
     case get_cached m psz cl item cend e of
       OK (Inl r) \<Rightarrow> found_in cend (nat e) r | OK (Inr e') \<Rightarrow> e' \<le> e | Err _ \<Rightarrow> True | UB \<Rightarrow> False"
proof (induction m psz cl item cend e rule: get_cached.induct)
  case (1 m psz cl item cend e)
  show ?case
  proof (cases "int cend < e")
    case True
    then have in_range: "nat e + 16 \<le> length m" using "1.prems" by simp
    obtain c it sz pd ph where f: "entry_canary m (nat e) = OK c" "entry_item m (nat e) = OK it"
      "entry_size m (nat e) = OK sz" "entry_padding_data m (nat e) = OK pd" "entry_padding_hdr m (nat e) = OK ph"
      using entry_fields_OK [OF in_range] .
    let ?next = "e - int sz - int (ALIGN ENTRY_SIZE cl)"
    have nxt: "cached_entry_next m e cl = OK ?next" using f by (simp add: cached_entry_next_def)
    show ?thesis
    proof (cases "c = SMEM_PRIVATE_CANARY \<and> it \<noteq> item \<and> ?next < e")
      case go: True
      then have "get_cached m psz cl item cend e = get_cached m psz cl item cend ?next"
        using True f nxt by (subst get_cached.simps) auto
      moreover have "case get_cached m psz cl item cend ?next of
         OK (Inl r) \<Rightarrow> found_in cend (nat ?next) r | OK (Inr e') \<Rightarrow> e' \<le> ?next | Err _ \<Rightarrow> True | UB \<Rightarrow> False"
        using go True f nxt "1.prems" by (intro "1.IH") auto
      ultimately show ?thesis
        by (fastforce simp: found_in_def split: result.splits sum.splits)
    next
      case False
      then show ?thesis
        using True f nxt entry_data_size_OK [OF in_range, of psz]
        by (cases "entry_data_size m psz (nat e)"; subst get_cached.simps)
          (auto simp: found_in_def cached_entry_to_item_def IN_PARTITION_RANGE_def
            split: result.splits if_splits)
    qed
  qed (subst get_cached.simps, simp)
qed

lemma get_private_cases:
  assumes "20 \<le> length (p_mem part)" "p_size part \<le> length (p_mem part)"
  shows "case qcom_smem_get_private part item of
           OK r \<Rightarrow> found_in 32 (p_size part) r | Err _ \<Rightarrow> True | UB \<Rightarrow> False"
proof -
  let ?m = "p_mem part"
  obtain uend cend sz where h: "phdr_free_uncached ?m = OK uend" "phdr_free_cached ?m = OK cend" "phdr_size ?m = OK sz"
    using assms(1) num_OK [of 12 4 ?m] num_OK [of 16 4 ?m] num_OK [of 8 4 ?m] by (auto simp: smem_layout)
  show ?thesis
  proof (cases "uend \<le> cend \<and> cend \<le> p_size part")
    case True
    then have u: "uend \<le> length ?m" using assms(2) by simp
    note unc = get_uncached_safe [OF u, where psz = "p_size part" and item = item and e = PHDR_SIZE]
    let ?e = "int sz - int (ALIGN ENTRY_SIZE (p_cacheline part))"
    have "case qcom_smem_get_cached part item uend cend of
        OK r \<Rightarrow> found_in 32 (p_size part) r | Err _ \<Rightarrow> True | UB \<Rightarrow> False" if "32 \<le> uend"
    proof (cases "IN_PARTITION_RANGE ?e (int ENTRY_SIZE) (int cend) (int (p_size part))")
      case True
      then have "?e + 16 \<le> int (length ?m)" using assms(2) by (simp add: IN_PARTITION_RANGE_def ENTRY_SIZE_def)
      from get_cached_safe [OF this, where psz = "p_size part" and cl = "p_cacheline part" and item = item and cend = cend] show ?thesis
        using True that \<open>uend \<le> cend \<and> cend \<le> p_size part\<close> h
        by (auto simp: qcom_smem_get_cached_def phdr_to_first_cached_entry_def found_in_def
            IN_PARTITION_RANGE_def ENTRY_SIZE_def split: result.splits sum.splits)
    qed (use h in \<open>auto simp: qcom_smem_get_cached_def phdr_to_first_cached_entry_def\<close>)
    then show ?thesis
      using unc True h
      by (auto simp: qcom_smem_get_private_def IN_PARTITION_RANGE_def found_in_def PHDR_SIZE_def
          split: result.splits sum.splits)
  qed (use h in \<open>auto simp: qcom_smem_get_private_def IN_PARTITION_RANGE_def\<close>)
qed


subsection \<open>Well-formed uncached lists\<close>

text \<open>The walk over the uncached list ends exactly at the free offset.\<close>

function uncached_wf :: "bytes \<Rightarrow> nat \<Rightarrow> nat \<Rightarrow> bool" where
  "uncached_wf m uend e =
     (if e < uend \<and> e + ENTRY_SIZE < uend then
        entry_canary m e = OK SMEM_PRIVATE_CANARY \<and>
        (case uncached_entry_next m e of OK next_e \<Rightarrow> uncached_wf m uend next_e | _ \<Rightarrow> False)
      else e = uend)"
  by pat_completeness auto
termination
  by (relation "measure (\<lambda>(m, uend, e). uend - e)") (auto dest: uncached_entry_next_gt)

declare uncached_wf.simps [simp del]

lemma same_on_entry:
  assumes "same_on m m' lo hi" "lo \<le> e" "e + 16 \<le> hi"
  shows "entry_canary m' e = entry_canary m e" "entry_item m' e = entry_item m e"
    "entry_size m' e = entry_size m e" "entry_padding_data m' e = entry_padding_data m e"
    "entry_padding_hdr m' e = entry_padding_hdr m e"
  using assms same_on_num [OF assms(1)] by (auto simp: smem_layout)

lemma same_on_entry_derived:
  assumes "same_on m m' lo hi" "lo \<le> e" "e + 16 \<le> hi"
  shows "uncached_entry_next m' e = uncached_entry_next m e"
    "uncached_entry_to_item m' e = uncached_entry_to_item m e"
    "entry_data_size m' psz e = entry_data_size m psz e"
  using same_on_entry [OF assms]
  by (simp_all add: uncached_entry_next_def uncached_entry_to_item_def entry_data_size_def)

text \<open>A list that ends where the walk stops can be extended by one entry.\<close>

lemma alloc_walk_wf:
  "uncached_wf m uend e \<Longrightarrow> alloc_walk m item uend e = OK hdr \<Longrightarrow>
     hdr = uend \<and> get_uncached m psz item uend e = OK (Inr uend)"
proof (induction m uend e rule: uncached_wf.induct)
  case (1 m uend e)
  show ?case
  proof (cases "e < uend \<and> e + ENTRY_SIZE < uend")
    case True
    have w: "entry_canary m e = OK SMEM_PRIVATE_CANARY"
      using "1.prems"(1) True by (subst (asm) uncached_wf.simps) auto
    obtain n where n: "uncached_entry_next m e = OK n" "uncached_wf m uend n"
      using "1.prems"(1) True by (subst (asm) uncached_wf.simps) (auto split: result.splits)
    obtain it where it: "entry_item m e = OK it" "it \<noteq> item" "alloc_walk m item uend n = OK hdr"
      using "1.prems"(2) True w n by (subst (asm) alloc_walk.simps) (auto split: if_splits)
    have "e < n" using n(1) by (rule uncached_entry_next_gt)
    then have "get_uncached m psz item uend e = get_uncached m psz item uend n"
      using True w n it by (subst get_uncached.simps) auto
    then show ?thesis using "1.IH" [OF True n] it(3) by simp
  next
    case False
    then show ?thesis
      using "1.prems" by (subst (asm) uncached_wf.simps, subst (asm) alloc_walk.simps, subst get_uncached.simps) auto
  qed
qed

lemma uncached_wf_le: "uncached_wf m uend e \<Longrightarrow> e \<le> uend"
  by (subst (asm) uncached_wf.simps) (auto split: if_splits)

lemma get_uncached_wf_end:
  "uncached_wf m uend e \<Longrightarrow> get_uncached m psz i uend e = OK (Inr e') \<Longrightarrow> e' = uend"
proof (induction m uend e rule: uncached_wf.induct)
  case (1 m uend e)
  show ?case
  proof (cases "e < uend \<and> e + ENTRY_SIZE < uend")
    case True
    have "entry_canary m e = OK SMEM_PRIVATE_CANARY"
      using "1.prems"(1) True by (subst (asm) uncached_wf.simps) auto
    moreover obtain n where n: "uncached_entry_next m e = OK n" "uncached_wf m uend n"
      using "1.prems"(1) True by (subst (asm) uncached_wf.simps) (auto split: result.splits)
    ultimately have "get_uncached m psz i uend n = OK (Inr e')"
      using "1.prems"(2) True by (subst (asm) get_uncached.simps) (auto split: if_splits)
    then show ?thesis using "1.IH" [OF True n] by blast
  next
    case False
    then show ?thesis
      using "1.prems" by (subst (asm) uncached_wf.simps, subst (asm) get_uncached.simps) auto
  qed
qed

lemma get_uncached_extend:
  assumes "same_on m m' e uend" "uncached_wf m uend e"
    and new: "entry_canary m' uend = OK SMEM_PRIVATE_CANARY" "entry_item m' uend = OK item"
      "entry_size m' uend = OK asize" "entry_padding_data m' uend = OK pd" "entry_padding_hdr m' uend = OK 0"
      "pd < asize" "asize < psz"
  shows "get_uncached m' psz i (uend + 16 + asize) e =
    (case get_uncached m psz i uend e of
       OK (Inr _) \<Rightarrow> if i = item then OK (Inl (uend + 16, asize - pd)) else OK (Inr (uend + 16 + asize))
     | r \<Rightarrow> r)"
  using assms(1,2)
proof (induction "uend - e" arbitrary: e rule: less_induct)
  case less
  let ?uend' = "uend + 16 + asize"
  show ?case
  proof (cases "e < uend \<and> e + ENTRY_SIZE < uend")
    case True
    have w: "entry_canary m e = OK SMEM_PRIVATE_CANARY"
      using less.prems(2) True by (subst (asm) uncached_wf.simps) auto
    obtain n where n: "uncached_entry_next m e = OK n" "uncached_wf m uend n"
      using less.prems(2) True by (subst (asm) uncached_wf.simps) (auto split: result.splits)
    have gt: "e < n" and le: "n \<le> uend"
      using uncached_entry_next_gt [OF n(1)] uncached_wf_le [OF n(2)] by auto
    have e16: "e + 16 \<le> uend" using True by (simp add: ENTRY_SIZE_def)
    note same = same_on_entry [OF less.prems(1) order.refl e16] same_on_entry_derived [OF less.prems(1) order.refl e16]
    have sub: "same_on m m' n uend" using less.prems(1) gt by (auto simp: same_on_def)
    have IH: "get_uncached m' psz i ?uend' n =
      (case get_uncached m psz i uend n of
         OK (Inr _) \<Rightarrow> if i = item then OK (Inl (uend + 16, asize - pd)) else OK (Inr ?uend') | r \<Rightarrow> r)"
      using less.hyps [OF _ sub n(2)] gt True by auto
    have True': "e < ?uend' \<and> e + ENTRY_SIZE < ?uend'" using True by auto
    have "e + 8 \<le> length m"
      using n(1) num_None_iff [of m "e + 4" 4] by (auto simp: uncached_entry_next_def smem_layout)
    then obtain it where it: "entry_item m e = OK it"
      using num_OK [of "e + 2" 2 m] by (auto simp: smem_layout)
    show ?thesis
    proof (cases "it = i")
      case False
      then have "get_uncached m psz i uend e = get_uncached m psz i uend n"
        "get_uncached m' psz i ?uend' e = get_uncached m' psz i ?uend' n"
        using True True' w n it gt same
        by (subst get_uncached.simps, auto)+
      then show ?thesis using IH by simp
    next
      case found: True
      obtain ptr where ptr: "uncached_entry_to_item m e = OK ptr"
        using n(1) by (auto simp: uncached_entry_next_def uncached_entry_to_item_def)
      have rng: "ptr + s \<le> uend" if "entry_data_size m psz e = OK s" for s
        using that ptr n(1) le
        by (auto simp: entry_data_size_def uncached_entry_next_def uncached_entry_to_item_def split: if_splits)
      then show ?thesis
        using True True' w it found ptr same
        by (subst get_uncached.simps, subst (2) get_uncached.simps)
          (cases "entry_data_size m psz e"; fastforce simp: IN_PARTITION_RANGE_def)
    qed
  next
    case False
    then have e: "e = uend" using less.prems(2) by (subst (asm) uncached_wf.simps) auto
    have "get_uncached m psz i uend e = OK (Inr uend)"
      using e by (subst get_uncached.simps) simp
    moreover have "get_uncached m' psz i ?uend' uend =
        (if i = item then OK (Inl (uend + 16, asize - pd)) else OK (Inr ?uend'))"
    proof (cases "i = item")
      case True
      then show ?thesis using new
        by (subst get_uncached.simps) (auto simp: ENTRY_SIZE_def entry_data_size_def
            uncached_entry_to_item_def IN_PARTITION_RANGE_def)
    next
      case False
      have "get_uncached m' psz i ?uend' uend = get_uncached m' psz i ?uend' ?uend'"
        using new False by (subst get_uncached.simps) (auto simp: ENTRY_SIZE_def uncached_entry_next_def)
      also have "\<dots> = OK (Inr ?uend')" by (subst get_uncached.simps) simp
      finally show ?thesis using False by simp
    qed
    ultimately show ?thesis using e by simp
  qed
qed


lemma write_entry_OK:
  assumes "hdr + 16 \<le> length m" "item < 2 ^ 16" "0 < sz" "sz + 8 \<le> 2 ^ 32"
  obtains m1 where "write_entry m hdr item sz = OK m1" "length m1 = length m"
    "entry_canary m1 hdr = OK SMEM_PRIVATE_CANARY" "entry_item m1 hdr = OK item"
    "entry_size m1 hdr = OK (ALIGN sz 8)" "entry_padding_data m1 hdr = OK (ALIGN sz 8 - sz)"
    "entry_padding_hdr m1 hdr = OK 0" "same_on m m1 0 hdr" "same_on m m1 (hdr + 12) (length m)"
proof -
  have al: "sz \<le> ALIGN sz 8" "ALIGN sz 8 < sz + 8" using ALIGN_8 [of sz] assms(4) by auto
  then have u: "u32 (ALIGN sz 8) = ALIGN sz 8" "u64 (ALIGN sz 8 + (2 ^ 64 - sz)) = ALIGN sz 8 - sz"
  proof -
    show "u32 (ALIGN sz 8) = ALIGN sz 8" using al assms(4) by simp
    have "ALIGN sz 8 + (2 ^ 64 - sz) = (ALIGN sz 8 - sz) + 2 ^ 64" using al assms(4) by simp
    then show "u64 (ALIGN sz 8 + (2 ^ 64 - sz)) = ALIGN sz 8 - sz"
      using al by (simp only: u64_def mod_add_self2) simp
  qed
  obtain a where a: "put m hdr 2 SMEM_PRIVATE_CANARY = Some a" "length a = length m"
    using put_OK [of hdr 2 m] assms(1) by fastforce
  obtain b where b: "put a (hdr + 2) 2 item = Some b" "length b = length m"
    using put_OK [of "hdr + 2" 2 a] assms(1) a(2) by fastforce
  obtain c where c: "put b (hdr + 4) 4 (ALIGN sz 8) = Some c" "length c = length m"
    using put_OK [of "hdr + 4" 4 b] assms(1) b(2) by fastforce
  obtain d where d: "put c (hdr + 8) 2 (ALIGN sz 8 - sz) = Some d" "length d = length m"
    using put_OK [of "hdr + 8" 2 c] assms(1) c(2) by fastforce
  obtain f where f: "put d (hdr + 10) 2 0 = Some f" "length f = length m"
    using put_OK [of "hdr + 10" 2 d] assms(1) d(2) by fastforce
  note puts = a(1) b(1) c(1) d(1) f(1)
  note other = put_num(2) [OF b(1)] put_num(2) [OF c(1)] put_num(2) [OF d(1)] put_num(2) [OF f(1)]
  have fields: "num f hdr 2 = Some SMEM_PRIVATE_CANARY" "num f (hdr + 2) 2 = Some item"
    "num f (hdr + 4) 4 = Some (ALIGN sz 8)" "num f (hdr + 8) 2 = Some (ALIGN sz 8 - sz)" "num f (hdr + 10) 2 = Some 0"
    using put_num(1) [OF a(1)] put_num(1) [OF b(1)] put_num(1) [OF c(1)] put_num(1) [OF d(1)] put_num(1) [OF f(1)]
      al assms(2,4)
    by (auto simp: other SMEM_PRIVATE_CANARY_def)
  have same: "same_on m f lo hi" if "hi \<le> hdr \<or> hdr + 12 \<le> lo" "hi \<le> length m" for lo hi
    using that a(2) b(2) c(2) d(2)
    by (intro same_on_trans [OF put_same_on [OF a(1)] same_on_trans [OF put_same_on [OF b(1)]
        same_on_trans [OF put_same_on [OF c(1)] same_on_trans [OF put_same_on [OF d(1)] put_same_on [OF f(1)]]]]]) auto
  have "write_entry m hdr item sz = OK f"
    unfolding write_entry_def Let_def u using puts by simp
  then show thesis
    by (rule that [of f]) (use f(2) fields same assms(1) in \<open>auto simp: smem_layout\<close>)
qed


subsection \<open>Allocation\<close>

definition wf_partition :: "smem_partition \<Rightarrow> bool" where
  "wf_partition part =
     (let m = p_mem part in
      p_size part = length m \<and> PHDR_SIZE \<le> length m \<and> length m < 2 ^ 32 \<and>
      p_virt_base part + 2 ^ 34 \<le> 2 ^ 64 \<and>
      (case (phdr_free_uncached m, phdr_free_cached m) of
         (OK uend, OK cend) \<Rightarrow> uend \<le> cend \<and> cend \<le> length m \<and> uncached_wf m uend PHDR_SIZE
       | _ \<Rightarrow> False))"

lemma wf_partitionE:
  assumes "wf_partition part"
  obtains uend cend where "phdr_free_uncached (p_mem part) = OK uend" "phdr_free_cached (p_mem part) = OK cend"
    "uend \<le> cend" "cend \<le> length (p_mem part)" "uncached_wf (p_mem part) uend 32" "32 \<le> uend"
    "p_size part = length (p_mem part)" "length (p_mem part) < 2 ^ 32" "p_virt_base part + 2 ^ 34 \<le> 2 ^ 64"
  using assms uncached_wf_le [of "p_mem part" _ 32]
  by (auto simp: wf_partition_def Let_def PHDR_SIZE_def split: result.splits)

lemma uncached_wf_extend:
  assumes "same_on m m' e uend" "uncached_wf m uend e"
    and new: "entry_canary m' uend = OK SMEM_PRIVATE_CANARY" "entry_size m' uend = OK asize"
      "entry_padding_hdr m' uend = OK 0" "0 < asize"
  shows "uncached_wf m' (uend + 16 + asize) e"
  using assms(1,2)
proof (induction "uend - e" arbitrary: e rule: less_induct)
  case less
  let ?uend' = "uend + 16 + asize"
  show ?case
  proof (cases "e < uend \<and> e + ENTRY_SIZE < uend")
    case True
    have w: "entry_canary m e = OK SMEM_PRIVATE_CANARY"
      using less.prems(2) True by (subst (asm) uncached_wf.simps) auto
    obtain n where n: "uncached_entry_next m e = OK n" "uncached_wf m uend n"
      using less.prems(2) True by (subst (asm) uncached_wf.simps) (auto split: result.splits)
    have gt: "e < n" using uncached_entry_next_gt [OF n(1)] .
    have e16: "e + 16 \<le> uend" using True by (simp add: ENTRY_SIZE_def)
    have "same_on m m' n uend" using less.prems(1) gt by (auto simp: same_on_def)
    then have "uncached_wf m' ?uend' n" using less.hyps [OF _ _ n(2)] gt True by auto
    then show ?thesis
      using True w n(1) same_on_entry [OF less.prems(1) order.refl e16]
        same_on_entry_derived [OF less.prems(1) order.refl e16]
      by (subst uncached_wf.simps) auto
  next
    case False
    then have e: "e = uend" using less.prems(2) by (subst (asm) uncached_wf.simps) auto
    have "uncached_wf m' ?uend' ?uend'" by (subst uncached_wf.simps) simp
    then show ?thesis using new e
      by (subst uncached_wf.simps) (auto simp: ENTRY_SIZE_def uncached_entry_next_def)
  qed
qed

lemma get_cached_same:
  assumes "same_on m m' lo (length m)" "lo \<le> cend" "e + 16 \<le> int (length m)"
  shows "get_cached m' psz cl item cend e = get_cached m psz cl item cend e"
  using assms
proof (induction m psz cl item cend e rule: get_cached.induct)
  case (1 m psz cl item cend e)
  show ?case
  proof (cases "int cend < e")
    case True
    then have r: "lo \<le> nat e" "nat e + 16 \<le> length m" using "1.prems" by auto
    note same = same_on_entry [OF "1.prems"(1) r]
    have derived: "entry_data_size m' psz (nat e) = entry_data_size m psz (nat e)"
      "cached_entry_next m' e cl = cached_entry_next m e cl" "cached_entry_to_item m' e = cached_entry_to_item m e"
      using same by (simp_all add: entry_data_size_def cached_entry_next_def cached_entry_to_item_def)
    show ?thesis
      unfolding get_cached.simps [of m' psz cl item cend e] get_cached.simps [of m psz cl item cend e] same derived
      using "1.IH" [OF True] "1.prems" by (auto intro!: rbind_cong)
  next
    case False
    then show ?thesis
      unfolding get_cached.simps [of m' psz cl item cend e] get_cached.simps [of m psz cl item cend e] by simp
  qed
qed


lemma le32_add_cpu_OK:
  assumes "p + 4 \<le> length m" "num m p 4 = Some old" "old + v < 2 ^ 32"
  obtains m' where "le32_add_cpu m p v = OK m'" "num m' p 4 = Some (old + v)" "length m' = length m"
    "\<And>lo hi. hi \<le> p \<or> p + 4 \<le> lo \<Longrightarrow> hi \<le> length m \<Longrightarrow> same_on m m' lo hi"
proof -
  obtain m' where m': "put m p 4 (old + v) = Some m'" "length m' = length m"
    using put_OK [OF assms(1)] by blast
  show thesis
    by (rule that [of m'])
      (use m' assms(2,3) put_num(1) [OF m'(1)] put_same_on [OF m'(1)] in \<open>auto simp: le32_add_cpu_def\<close>)
qed

text \<open>The memory after a successful allocation.\<close>

lemma alloc_private_result:
  assumes "wf_partition part" "item < 2 ^ 16" "0 < sz" "sz + 8 \<le> 2 ^ 32"
    and "qcom_smem_alloc_private part item sz = OK part'"
    and h: "phdr_free_uncached (p_mem part) = OK uend" "phdr_free_cached (p_mem part) = OK cend"
  obtains m' where "part' = part\<lparr>p_mem := m'\<rparr>" "length m' = length (p_mem part)"
    "alloc_walk (p_mem part) item uend 32 = OK uend"
    "uend + 16 + ALIGN sz 8 \<le> cend" "num m' 12 4 = Some (uend + 16 + ALIGN sz 8)"
    "entry_canary m' uend = OK SMEM_PRIVATE_CANARY" "entry_item m' uend = OK item"
    "entry_size m' uend = OK (ALIGN sz 8)" "entry_padding_data m' uend = OK (ALIGN sz 8 - sz)"
    "entry_padding_hdr m' uend = OK 0"
    "same_on (p_mem part) m' 0 12" "same_on (p_mem part) m' 16 uend"
    "same_on (p_mem part) m' (uend + 12) (length (p_mem part))"
proof -
  let ?m = "p_mem part"
  have wf: "uend \<le> cend" "cend \<le> length ?m" "uncached_wf ?m uend 32" "32 \<le> uend"
    "p_size part = length ?m" "length ?m < 2 ^ 32" "p_virt_base part + 2 ^ 34 \<le> 2 ^ 64"
    using wf_partitionE [OF assms(1)] h by auto
  have al: "sz \<le> ALIGN sz 8" "ALIGN sz 8 < sz + 8" using ALIGN_8 [of sz] assms(4) by auto
  obtain hdr where hdr: "alloc_walk ?m item uend 32 = OK hdr"
    using assms(5) h wf
    by (auto simp: qcom_smem_alloc_private_def PHDR_SIZE_def IN_PARTITION_RANGE_def Let_def split: if_splits)
  then have hdr_eq: "hdr = uend" using alloc_walk_wf [OF wf(3)] by blast
  have u1: "u64 (ENTRY_SIZE + ALIGN sz 8) = 16 + ALIGN sz 8" using al assms(4) by (simp add: ENTRY_SIZE_def)
  have u2: "u64 (p_virt_base part + uend + (16 + ALIGN sz 8)) = p_virt_base part + uend + (16 + ALIGN sz 8)"
    using al assms(4) wf by (intro u64_id) simp
  have fits: "uend + 16 + ALIGN sz 8 \<le> cend"
    using assms(5) h wf hdr by (auto simp: qcom_smem_alloc_private_def PHDR_SIZE_def IN_PARTITION_RANGE_def hdr_eq u1 u2 Let_def split: if_splits)
  then have "uend + 16 \<le> length ?m" using wf by simp
  then obtain m1 where m1: "write_entry ?m uend item sz = OK m1" "length m1 = length ?m"
    "entry_canary m1 uend = OK SMEM_PRIVATE_CANARY" "entry_item m1 uend = OK item"
    "entry_size m1 uend = OK (ALIGN sz 8)" "entry_padding_data m1 uend = OK (ALIGN sz 8 - sz)"
    "entry_padding_hdr m1 uend = OK 0" "same_on ?m m1 0 uend" "same_on ?m m1 (uend + 12) (length ?m)"
    using write_entry_OK [OF _ assms(2-4), of uend ?m] by metis
  have "num m1 12 4 = Some uend" using same_on_num [OF m1(8), of 12 4] wf(4) h(1) by (simp add: smem_layout)
  then obtain m2 where m2: "le32_add_cpu m1 12 (16 + ALIGN sz 8) = OK m2"
    "num m2 12 4 = Some (uend + (16 + ALIGN sz 8))" "length m2 = length m1"
    "\<And>lo hi. hi \<le> 12 \<or> 12 + 4 \<le> lo \<Longrightarrow> hi \<le> length m1 \<Longrightarrow> same_on m1 m2 lo hi"
    using le32_add_cpu_OK [of 12 m1 uend "16 + ALIGN sz 8"] fits wf m1(2) by auto
  have s: "same_on m1 m2 uend (length m1)" using m2(4) wf(4) by simp
  have e16: "uend + 16 \<le> length m1" using \<open>uend + 16 \<le> length ?m\<close> m1(2) by simp
  show thesis
  proof (rule that [of m2])
    show "part' = part\<lparr>p_mem := m2\<rparr>"
      using assms(5) h wf hdr fits m1(1) m2(1)
      by (auto simp: qcom_smem_alloc_private_def PHDR_SIZE_def IN_PARTITION_RANGE_def hdr_eq u1 u2 Let_def split: if_splits)
    show "same_on ?m m2 0 12"
      using m1(2,8) wf(4) m2(4) e16 by (intro same_on_trans [OF _ m2(4)]) (auto simp: same_on_def)
    show "same_on ?m m2 16 uend"
      using m1(2,8) e16 by (intro same_on_trans [OF _ m2(4)]) (auto simp: same_on_def)
    show "same_on ?m m2 (uend + 12) (length ?m)"
      using m1(2,9) wf(4) by (intro same_on_trans [OF _ m2(4)]) auto
  qed (use m1 m2 fits hdr hdr_eq same_on_entry [OF s order.refl e16] in \<open>auto simp: add.assoc\<close>)
qed

text \<open>
  A partition with one more entry at the end of the uncached list, whatever the data of the entry: the
  new item is found, and every other lookup is as before.
\<close>

lemma extended_lookup:
  assumes "wf_partition part" "0 < sz" "sz + 8 \<le> 2 ^ 32"
    and h: "phdr_free_uncached (p_mem part) = OK uend" "phdr_free_cached (p_mem part) = OK cend"
    and r: "part' = part\<lparr>p_mem := m'\<rparr>" "length m' = length (p_mem part)"
    "alloc_walk (p_mem part) item uend 32 = OK uend"
    "uend + 16 + ALIGN sz 8 \<le> cend" "num m' 12 4 = Some (uend + 16 + ALIGN sz 8)"
    "entry_canary m' uend = OK SMEM_PRIVATE_CANARY" "entry_item m' uend = OK item"
    "entry_size m' uend = OK (ALIGN sz 8)" "entry_padding_data m' uend = OK (ALIGN sz 8 - sz)"
    "entry_padding_hdr m' uend = OK 0"
    "same_on (p_mem part) m' 0 12" "same_on (p_mem part) m' 16 uend"
    "same_on (p_mem part) m' cend (length (p_mem part))"
  shows "wf_partition part'"
    and "qcom_smem_get_private part' i =
           (if i = item then OK (uend + 16, sz) else qcom_smem_get_private part i)"
proof -
  let ?m = "p_mem part" and ?a = "ALIGN sz 8"
  have wf: "phdr_free_cached ?m = OK cend" "uend \<le> cend" "cend \<le> length ?m"
    "uncached_wf ?m uend 32" "32 \<le> uend" "p_size part = length ?m" "length ?m < 2 ^ 32"
    "p_virt_base part + 2 ^ 34 \<le> 2 ^ 64"
    using wf_partitionE [OF assms(1)] h by auto
  have al: "sz \<le> ?a" "?a < sz + 8" using ALIGN_8 [of sz] assms(3) by auto
  have s32: "same_on ?m m' 32 uend" using r(12) by (auto simp: same_on_def)
  have free: "phdr_free_uncached m' = OK (uend + 16 + ?a)" "phdr_free_cached m' = OK cend"
    using r(5) same_on_num [OF r(12), of 16 4] wf(1,5) by (auto simp: smem_layout)
  have "0 < ?a" using al assms(2) by simp
  note ext = uncached_wf_extend [OF s32 wf(4) r(6,8,10) this]
  then show "wf_partition part'"
    using r(1,2,4) wf free by (simp add: wf_partition_def PHDR_SIZE_def)
  have psz: "?a < length ?m" using r(4) wf(3) by simp
  have pd: "?a - sz < ?a" using al assms(2) by simp
  note unc = get_uncached_extend [OF s32 wf(4) r(6-10) pd psz, of i]
  have cached: "qcom_smem_get_cached part' i (uend + 16 + ?a) cend = qcom_smem_get_cached part i uend cend"
  proof -
    have size: "phdr_size m' = phdr_size ?m" using same_on_num [OF r(11), of 8 4] by (simp add: smem_layout)
    have "get_cached m' (length ?m) (p_cacheline part) i cend e = get_cached ?m (length ?m) (p_cacheline part) i cend e"
      if "IN_PARTITION_RANGE e (int ENTRY_SIZE) (int cend) (int (length ?m))" for e
      using that r(4) by (intro get_cached_same [OF r(13)]) (auto simp: IN_PARTITION_RANGE_def ENTRY_SIZE_def)
    then show ?thesis
      using wf r(1,2,4)
      by (auto simp: qcom_smem_get_cached_def phdr_to_first_cached_entry_def size IN_PARTITION_RANGE_def [of "int cend"]
          intro!: rbind_cong)
  qed
  have "get_uncached ?m (length ?m) item uend 32 = OK (Inr uend)"
    using alloc_walk_wf [OF wf(4) r(3)] by blast
  moreover have "get_uncached ?m (length ?m) i uend 32 = OK (Inr e) \<Longrightarrow> e = uend" for e
    using get_uncached_wf_end [OF wf(4)] .
  ultimately show "qcom_smem_get_private part' i =
           (if i = item then OK (uend + 16, sz) else qcom_smem_get_private part i)"
    using unc cached wf r(1,2,4) free h(1) al
    by (auto simp: qcom_smem_get_private_def PHDR_SIZE_def IN_PARTITION_RANGE_def split: result.splits sum.splits)
qed

text \<open>An allocation, followed by any writes into the data of the new item.\<close>

lemma alloc_private_contents:
  assumes "wf_partition part" "item < 2 ^ 16" "0 < sz" "sz + 8 \<le> 2 ^ 32"
    and "qcom_smem_alloc_private part item sz = OK part'" "phdr_free_uncached (p_mem part) = OK uend"
    and "same_on (p_mem part') m 0 (uend + 16)" "same_on (p_mem part') m (uend + 16 + sz) (length (p_mem part'))"
  shows "wf_partition (part'\<lparr>p_mem := m\<rparr>)"
    and "qcom_smem_get_private (part'\<lparr>p_mem := m\<rparr>) i =
           (if i = item then OK (uend + 16, sz) else qcom_smem_get_private part i)"
proof -
  let ?m = "p_mem part" and ?a = "ALIGN sz 8"
  obtain cend where c: "phdr_free_cached ?m = OK cend" "cend \<le> length ?m" "32 \<le> uend"
    using wf_partitionE [OF assms(1)] assms(6) by (metis result.inject(1))
  have al: "sz \<le> ?a" using ALIGN_8 [of sz] assms(4) by auto
  obtain m' where r: "part' = part\<lparr>p_mem := m'\<rparr>" "length m' = length ?m"
    "alloc_walk ?m item uend 32 = OK uend"
    "uend + 16 + ?a \<le> cend" "num m' 12 4 = Some (uend + 16 + ?a)"
    "entry_canary m' uend = OK SMEM_PRIVATE_CANARY" "entry_item m' uend = OK item"
    "entry_size m' uend = OK ?a" "entry_padding_data m' uend = OK (?a - sz)" "entry_padding_hdr m' uend = OK 0"
    "same_on ?m m' 0 12" "same_on ?m m' 16 uend" "same_on ?m m' (uend + 12) (length ?m)"
    using alloc_private_result [OF assms(1-6) c(1)] by metis
  have lo: "same_on m' m 0 (uend + 16)" and hi: "same_on m' m (uend + 16 + sz) (length m')" using assms(7,8) r(1) by simp_all
  have len: "length m = length ?m" using lo r(2) by (simp add: same_on_def)
  have n: "num m 12 4 = Some (uend + 16 + ?a)" using same_on_num [OF lo, of 12 4] r(5) c(3) by simp
  have s: "same_on ?m m 0 12" "same_on ?m m 16 uend" "same_on ?m m cend (length ?m)"
    using r(2,4,11-13) lo hi al c(3) by (auto simp: same_on_def)
  note e = same_on_entry [OF lo, of uend, simplified, unfolded r(6-10)]
  note x = extended_lookup [OF assms(1,3,4,6) c(1) _ len r(3,4) n e s, of "part'\<lparr>p_mem := m\<rparr>"]
  show "wf_partition (part'\<lparr>p_mem := m\<rparr>)" using x(1) r(1) by simp
  show "qcom_smem_get_private (part'\<lparr>p_mem := m\<rparr>) i = (if i = item then OK (uend + 16, sz) else qcom_smem_get_private part i)"
    using x(2) r(1) by simp
qed

lemma alloc_private_lookup:
  assumes "wf_partition part" "item < 2 ^ 16" "0 < sz" "sz + 8 \<le> 2 ^ 32"
    and "qcom_smem_alloc_private part item sz = OK part'" "phdr_free_uncached (p_mem part) = OK uend"
  shows "wf_partition part'"
    and "qcom_smem_get_private part' i =
           (if i = item then OK (uend + 16, sz) else qcom_smem_get_private part i)"
  using alloc_private_contents [OF assms, of "p_mem part'"] by (simp_all add: same_on_def)

text \<open>The items on the uncached list, and what decides the outcome of an allocation.\<close>

function uncached_items :: "bytes \<Rightarrow> nat \<Rightarrow> nat \<Rightarrow> nat list" where
  "uncached_items m uend e =
     (if e < uend \<and> e + ENTRY_SIZE < uend then
        (case (entry_item m e, uncached_entry_next m e) of
           (OK it, OK next_e) \<Rightarrow> it # uncached_items m uend next_e | _ \<Rightarrow> [])
      else [])"
  by pat_completeness auto
termination
  by (relation "measure (\<lambda>(m, uend, e). uend - e)") (auto dest: uncached_entry_next_gt [OF sym])

declare uncached_items.simps [simp del]

lemma alloc_walk_items:
  "uncached_wf m uend e \<Longrightarrow>
     alloc_walk m item uend e = (if item \<in> set (uncached_items m uend e) then Err EEXIST else OK uend)"
proof (induction m uend e rule: uncached_wf.induct)
  case (1 m uend e)
  show ?case
  proof (cases "e < uend \<and> e + ENTRY_SIZE < uend")
    case True
    have w: "entry_canary m e = OK SMEM_PRIVATE_CANARY"
      using "1.prems"(1) True by (subst (asm) uncached_wf.simps) auto
    obtain n where n: "uncached_entry_next m e = OK n" "uncached_wf m uend n"
      using "1.prems"(1) True by (subst (asm) uncached_wf.simps) (auto split: result.splits)
    have "e + 8 \<le> length m"
      using n(1) num_None_iff [of m "e + 4" 4] by (auto simp: uncached_entry_next_def smem_layout)
    then obtain it where it: "entry_item m e = OK it"
      using num_OK [of "e + 2" 2 m] by (auto simp: smem_layout)
    have "e < n" using n(1) by (rule uncached_entry_next_gt)
    then show ?thesis
      using True w n it "1.IH" [OF True n]
      by (subst alloc_walk.simps, subst uncached_items.simps) auto
  next
    case False
    then show ?thesis
      using "1.prems" by (subst (asm) uncached_wf.simps, subst alloc_walk.simps, subst uncached_items.simps) auto
  qed
qed

definition private_items :: "smem_partition \<Rightarrow> nat list" where
  "private_items part =
     (case phdr_free_uncached (p_mem part) of
        OK uend \<Rightarrow> uncached_items (p_mem part) uend PHDR_SIZE | _ \<Rightarrow> [])"

definition private_space :: "smem_partition \<Rightarrow> nat" where
  "private_space part =
     (case (phdr_free_uncached (p_mem part), phdr_free_cached (p_mem part)) of
        (OK uend, OK cend) \<Rightarrow> cend - uend | _ \<Rightarrow> 0)"

lemma alloc_private_outcome:
  assumes "wf_partition part" "item < 2 ^ 16" "0 < sz" "sz + 8 \<le> 2 ^ 32"
  shows "\<exists>part'. qcom_smem_alloc_private part item sz =
    (if item \<in> set (private_items part) then Err EEXIST
     else if private_space part < ENTRY_SIZE + ALIGN sz 8 then Err ENOSPC else OK part')"
proof -
  let ?m = "p_mem part"
  obtain uend cend where wf: "phdr_free_uncached ?m = OK uend" "phdr_free_cached ?m = OK cend"
    "uend \<le> cend" "cend \<le> length ?m" "uncached_wf ?m uend 32" "32 \<le> uend"
    "p_size part = length ?m" "length ?m < 2 ^ 32" "p_virt_base part + 2 ^ 34 \<le> 2 ^ 64"
    using wf_partitionE [OF assms(1)] .
  have al: "sz \<le> ALIGN sz 8" "ALIGN sz 8 < sz + 8" using ALIGN_8 [of sz] assms(4) by auto
  have u1: "u64 (ENTRY_SIZE + ALIGN sz 8) = 16 + ALIGN sz 8" using al assms(4) by (simp add: ENTRY_SIZE_def)
  have u2: "u64 (p_virt_base part + uend + (16 + ALIGN sz 8)) = p_virt_base part + uend + (16 + ALIGN sz 8)"
    using al assms(4) wf by (intro u64_id) simp
  have body: "\<exists>m2. rbind (write_entry ?m uend item sz) (\<lambda>m1. rbind (le32_add_cpu m1 12 (16 + ALIGN sz 8)) (\<lambda>m2.
      OK (part\<lparr>p_mem := m2\<rparr>))) = OK m2" if fits: "uend + 16 + ALIGN sz 8 \<le> cend"
  proof -
    obtain m1 where m1: "write_entry ?m uend item sz = OK m1" "length m1 = length ?m" "same_on ?m m1 0 uend"
      using write_entry_OK [OF _ assms(2-4), of uend ?m] fits wf by (metis add_leD1 le_trans)
    have n: "num m1 12 4 = Some uend" using same_on_num [OF m1(3), of 12 4] wf by (simp add: smem_layout)
    have "12 + 4 \<le> length m1" "uend + (16 + ALIGN sz 8) < 2 ^ 32" using fits wf m1(2) by auto
    then obtain m2 where "le32_add_cpu m1 12 (16 + ALIGN sz 8) = OK m2"
      using le32_add_cpu_OK [OF _ n] by blast
    then show ?thesis using m1(1) by simp
  qed
  have walk: "alloc_walk ?m item uend 32 = (if item \<in> set (private_items part) then Err EEXIST else OK uend)"
    using alloc_walk_items [OF wf(5)] wf(1) by (simp add: private_items_def PHDR_SIZE_def)
  have space: "private_space part < ENTRY_SIZE + ALIGN sz 8 \<longleftrightarrow> \<not> uend + 16 + ALIGN sz 8 \<le> cend"
    using wf(1-3) by (auto simp: private_space_def ENTRY_SIZE_def)
  let ?body = "\<lambda>m1. rbind (le32_add_cpu m1 12 (16 + ALIGN sz 8)) (\<lambda>m2. OK (part\<lparr>p_mem := m2\<rparr>))"
  have "qcom_smem_alloc_private part item sz =
    (if item \<in> set (private_items part) then Err EEXIST
     else if private_space part < ENTRY_SIZE + ALIGN sz 8 then Err ENOSPC
     else rbind (write_entry ?m uend item sz) ?body)"
    using wf walk space
    by (simp add: qcom_smem_alloc_private_def PHDR_SIZE_def IN_PARTITION_RANGE_def u1 u2 Let_def)
  then show ?thesis using body space by auto
qed

lemma get_private_where:
  assumes "wf_partition part" "phdr_free_uncached (p_mem part) = OK uend" "phdr_free_cached (p_mem part) = OK cend"
    and "qcom_smem_get_private part i = OK (p, s)"
  shows "p + s \<le> uend \<or> cend \<le> p"
proof -
  let ?m = "p_mem part"
  have wf: "uend \<le> cend" "cend \<le> length ?m" "p_size part = length ?m"
    using wf_partitionE [OF assms(1)] assms(2,3) by auto
  then have u: "uend \<le> length ?m" by simp
  note unc = get_uncached_safe [OF u, where psz = "p_size part" and item = i and e = PHDR_SIZE]
  have "cend \<le> p" if c: "qcom_smem_get_cached part i uend cend = OK (p, s)"
  proof -
    obtain e r where e: "e + 16 \<le> int (length ?m)"
      and g: "get_cached ?m (p_size part) (p_cacheline part) i cend e = OK r"
      and r: "(case r of Inl found \<Rightarrow> OK found | Inr e \<Rightarrow> if e < 0 then Err EINVAL else Err ENOENT) = OK (p, s)"
      using c wf by (auto simp: qcom_smem_get_cached_def phdr_to_first_cached_entry_def IN_PARTITION_RANGE_def
          ENTRY_SIZE_def split: if_splits)
    from r have "r = Inl (p, s)" by (auto split: sum.splits if_splits)
    then show ?thesis using g
      get_cached_safe [OF e, where psz = "p_size part" and cl = "p_cacheline part" and item = i and cend = cend]
      by (simp add: found_in_def)
  qed
  moreover obtain r where "get_uncached ?m (p_size part) i uend PHDR_SIZE = OK r"
    "(case r of Inl found \<Rightarrow> OK found | Inr e \<Rightarrow> if e > uend then Err EINVAL
        else qcom_smem_get_cached part i uend cend) = OK (p, s)"
    using assms(2-4) wf by (auto simp: qcom_smem_get_private_def IN_PARTITION_RANGE_def Let_def)
  ultimately show ?thesis
    using unc by (auto simp: found_in_def split: sum.splits if_splits)
qed

definition valid_request :: "nat \<Rightarrow> nat \<Rightarrow> bool" where
  "valid_request item sz = (item < 2 ^ 16 \<and> 0 < sz \<and> sz + 8 \<le> 2 ^ 32)"

interpretation ph: item_heap wf_partition qcom_smem_alloc_private qcom_smem_get_private valid_request
proof (unfold_locales, goal_cases)
  case (1 h item sz h')
  then obtain uend where u: "phdr_free_uncached (p_mem h) = OK uend" by (auto elim: wf_partitionE)
  show ?case using 1 alloc_private_lookup(1) [OF 1(1) _ _ _ 1(3) u] by (simp add: valid_request_def)
next
  case (2 h item sz h')
  then obtain uend where u: "phdr_free_uncached (p_mem h) = OK uend" by (auto elim: wf_partitionE)
  show ?case using 2 alloc_private_lookup(2) [OF 2(1) _ _ _ 2(3) u, of item] by (simp add: valid_request_def)
next
  case (3 h item sz h' i)
  then obtain uend where u: "phdr_free_uncached (p_mem h) = OK uend" by (auto elim: wf_partitionE)
  show ?case using 3 alloc_private_lookup(2) [OF 3(1) _ _ _ 3(3) u, of i] by (simp add: valid_request_def)
next
  case (4 h item sz h' i a b)
  obtain uend cend where u: "phdr_free_uncached (p_mem h) = OK uend" "phdr_free_cached (p_mem h) = OK cend"
    using 4(1) by (auto elim: wf_partitionE)
  have v: "item < 2 ^ 16" "0 < sz" "sz + 8 \<le> 2 ^ 32" using 4(2) by (auto simp: valid_request_def)
  note look = alloc_private_lookup(2) [OF 4(1) v 4(3) u(1)]
  have a: "a = (uend + 16, sz)" using look [of item] 4(5) by simp
  have b: "qcom_smem_get_private h i = OK b" using look [of i] 4(4,6) by simp
  have "uend + 16 + ALIGN sz 8 \<le> cend" using alloc_private_result [OF 4(1) v 4(3) u] by blast
  moreover have "sz \<le> ALIGN sz 8" using ALIGN_8 [of sz] v(3) by simp
  ultimately show ?case
    using get_private_where [OF 4(1) u, of i "fst b" "snd b"] b a by (auto simp: apart_def)
qed

subsection \<open>Properties\<close>

text \<open>
  C3. A lookup in a private partition is memory safe on any contents: it terminates, has no
  out-of-range access, and a found item is a non-empty range inside the partition that does not
  overlap the partition header.
\<close>

theorem smem_get_private_safe:
  assumes "PHDR_SIZE \<le> length (p_mem part)" "p_size part \<le> length (p_mem part)"
  shows "qcom_smem_get_private part item \<noteq> UB \<and>
    (\<forall>p s. qcom_smem_get_private part item = OK (p, s) \<longrightarrow>
       PHDR_SIZE \<le> p \<and> 0 < s \<and> p + s \<le> p_size part)"
  using get_private_cases [of part item] assms
  by (auto simp: PHDR_SIZE_def found_in_def split: result.splits)

definition demo_part :: smem_partition where
  "demo_part = \<lparr>p_virt_base = 4096, p_phys_base = 8192, p_cacheline = 32, p_size = 80,
     p_mem = SMEM_PART_MAGIC @ [0, 0, 1, 0, 80, 0, 0, 0, 32, 0, 0, 0, 80, 0, 0, 0] @ replicate 60 0\<rparr>"

lemma demo_part_header:
  "length (p_mem demo_part) = 80" "phdr_free_uncached (p_mem demo_part) = OK 32"
  "phdr_free_cached (p_mem demo_part) = OK 80" "phdr_size (p_mem demo_part) = OK 80"
  by (simp_all add: demo_part_def SMEM_PART_MAGIC_def smem_layout num_def load_def)

lemma demo_part_wf: "wf_partition demo_part"
  using demo_part_header
  by (simp add: wf_partition_def PHDR_SIZE_def demo_part_def uncached_wf.simps)

lemma demo_part_space: "private_items demo_part = []" "private_space demo_part = 48"
  using demo_part_header
  by (simp_all add: private_items_def private_space_def PHDR_SIZE_def uncached_items.simps)

theorem smem_get_private_safe_witness:
  "qcom_smem_get_private (demo_part\<lparr>p_mem := replicate 80 255\<rparr>) 9 \<noteq> UB"
  using smem_get_private_safe [of "demo_part\<lparr>p_mem := replicate 80 255\<rparr>" 9]
  by (simp add: PHDR_SIZE_def demo_part_def)

text \<open>
  C37. The outcome of a private allocation in a well-formed partition: \<^verbatim>\<open>-EEXIST\<close> exactly
  when the item is on the uncached list, otherwise \<^verbatim>\<open>-ENOSPC\<close> exactly when the header
  and the rounded size do not fit between the two lists, and success in every other case.
\<close>

theorem smem_alloc_private_outcome:
  assumes "wf_partition part" "valid_request item sz"
  shows "\<exists>part'. qcom_smem_alloc_private part item sz =
    (if item \<in> set (private_items part) then Err EEXIST
     else if private_space part < ENTRY_SIZE + ALIGN sz 8 then Err ENOSPC else OK part')"
  using assms by (intro alloc_private_outcome) (auto simp: valid_request_def)

theorem smem_alloc_private_outcome_witness:
  "(\<exists>part'. qcom_smem_alloc_private demo_part 9 20 = OK part') \<and>
   qcom_smem_alloc_private demo_part 9 100 = Err ENOSPC"
proof -
  have "ALIGN 20 8 = 24" "ALIGN 100 8 = 104" using ALIGN_8(1) [of 20] ALIGN_8(1) [of 100] by simp_all
  then show ?thesis
    using smem_alloc_private_outcome [OF demo_part_wf, of 9 20] smem_alloc_private_outcome [OF demo_part_wf, of 9 100]
    by (simp add: valid_request_def demo_part_space ENTRY_SIZE_def)
qed

text \<open>
  C4. A successful private allocation keeps the partition well formed, the new item is found
  with exactly the requested size just behind the old free offset, and every other item is
  found, or not found, as before.
\<close>

theorem smem_alloc_private_get:
  assumes "wf_partition part" "valid_request item sz" "qcom_smem_alloc_private part item sz = OK part'"
    and "phdr_free_uncached (p_mem part) = OK free"
  shows "wf_partition part' \<and> qcom_smem_get_private part' item = OK (free + ENTRY_SIZE, sz) \<and>
         (\<forall>i. i \<noteq> item \<longrightarrow> qcom_smem_get_private part' i = qcom_smem_get_private part i)"
  using alloc_private_lookup [OF assms(1) _ _ _ assms(3,4)] assms(2)
  by (simp add: valid_request_def ENTRY_SIZE_def)

lemma demo_part_alloc: "\<exists>part'. qcom_smem_alloc_private demo_part 9 20 = OK part'"
proof -
  have "ALIGN 20 8 = 24" using ALIGN_8(1) [of 20] by simp
  then show ?thesis
    using alloc_private_outcome [OF demo_part_wf, of 9 20] by (simp add: demo_part_space ENTRY_SIZE_def)
qed

theorem smem_alloc_private_get_witness:
  "\<exists>part'. qcom_smem_alloc_private demo_part 9 20 = OK part' \<and> qcom_smem_get_private part' 9 = OK (48, 20)"
proof -
  obtain part' where "qcom_smem_alloc_private demo_part 9 20 = OK part'" using demo_part_alloc by blast
  then show ?thesis
    using smem_alloc_private_get [OF demo_part_wf _ _ demo_part_header(2), of 9 20 part']
    by (simp add: valid_request_def ENTRY_SIZE_def)
qed

text \<open>
  C17. Items of a private partition never overlap: after any sequence of successful allocations
  of distinct items, each allocated item resolves to a range of at least its size, and it is
  disjoint from the range of every other item that can be looked up.
\<close>

theorem smem_private_items_disjoint:
  assumes "wf_partition part" "list_all (\<lambda>(item, sz). valid_request item sz) reqs"
    and "distinct (map fst reqs)" "alloc_seq qcom_smem_alloc_private part reqs = OK part'"
    and "(item, sz) \<in> set reqs"
  shows "\<exists>p s. qcom_smem_get_private part' item = OK (p, s) \<and> sz \<le> s \<and>
           (\<forall>i r. i \<noteq> item \<longrightarrow> qcom_smem_get_private part' i = OK r \<longrightarrow> apart r (p, s))"
proof -
  obtain p s where ps: "qcom_smem_get_private part' item = OK (p, s)" "sz \<le> s"
    using ph.seq_get [OF assms(1,2,4,3,5)] by blast
  have "item \<in> fst ` set reqs" using assms(5) by force
  then have "\<forall>i r. i \<noteq> item \<longrightarrow> qcom_smem_get_private part' i = OK r \<longrightarrow> apart r (p, s)"
    using ph.seq_apart [OF assms(1,2,4)] ps(1) by blast
  with ps show ?thesis by blast
qed

theorem smem_private_items_disjoint_witness:
  "\<exists>part' p s. alloc_seq qcom_smem_alloc_private demo_part [(9, 20)] = OK part' \<and>
     qcom_smem_get_private part' 9 = OK (p, s) \<and> 20 \<le> s"
proof -
  obtain part' where a: "qcom_smem_alloc_private demo_part 9 20 = OK part'" using demo_part_alloc by blast
  then show ?thesis
    using smem_private_items_disjoint [OF demo_part_wf, of "[(9, 20)]" part' 9 20]
    by (auto simp: valid_request_def)
qed

lemma align_examples: "ALIGN 0 8 = 0" "ALIGN 8 8 = 8" "ALIGN 18446744073709551615 8 = 0"
  using ALIGN_8(1) [of 0] ALIGN_8(1) [of 8] by (simp_all add: ALIGN_def)

lemmas smem_run = SMEM_PART_MAGIC_def SMEM_PRIVATE_CANARY_def smem_layout num_def load_def put_def store_def
  IN_PARTITION_RANGE_def alloc_walk.simps get_uncached.simps qcom_smem_get_private_def
  qcom_smem_get_cached_def write_entry_def le32_add_cpu_def u32_def u64_def le_bytes_numeral replicate_numeral

text \<open>
  An item of size zero is lost: the loops stop when the last header ends exactly at the free
  offset. The allocation succeeds, the lookup does not find the item, and a second allocation of
  the same item succeeds instead of reporting that it exists.
\<close>

theorem smem_zero_size_item_lost:
  "\<exists>p1 p2. qcom_smem_alloc_private demo_part 9 0 = OK p1 \<and> qcom_smem_get_private p1 9 = Err ENOENT \<and>
     qcom_smem_alloc_private p1 9 8 = OK p2"
  unfolding demo_part_def
  by (simp add: align_examples qcom_smem_alloc_private_def smem_run cong: rbind_weak_cong)

text \<open>
  A request close to the size of the address space succeeds: rounding it up wraps to zero,
  so an item with no room for its data is allocated.
\<close>

theorem smem_huge_request_accepted:
  "\<exists>p1. qcom_smem_alloc_private demo_part 9 (2 ^ 64 - 1) = OK p1 \<and>
     phdr_free_uncached (p_mem p1) = OK 48"
  unfolding demo_part_def
  by (simp add: align_examples qcom_smem_alloc_private_def smem_run cong: rbind_weak_cong)

end
