(* ===== verification/Smem_Global.thy ===== *)
theory Smem_Global
  imports Smem_Private
begin

text \<open>
  The global heap of \<^verbatim>\<open>drivers/soc/qcom/smem.c\<close>: the table of contents
  \<^verbatim>\<open>toc\<close> of \<^verbatim>\<open>struct smem_header\<close> at the start of the first region, with an
  offset and a size for each item, and the free offset and available count from which items are
  carved. A region is a byte memory with its addresses; a null \<^verbatim>\<open>virt_base\<close> is 0.
\<close>

subsection \<open>Layout\<close>

record smem_region =
  r_aux_base :: nat
  r_virt_base :: nat
  r_size :: nat
  r_mem :: bytes

definition SMEM_ITEM_COUNT :: nat where "SMEM_ITEM_COUNT = 512"
definition AUX_BASE_MASK :: nat where "AUX_BASE_MASK = 0xfffffffc"

text \<open>Offsets in \<^verbatim>\<open>struct smem_header\<close> and \<^verbatim>\<open>struct smem_global_entry\<close>.\<close>

definition hdr_version :: nat where "hdr_version = 64"
definition hdr_initialized :: nat where "hdr_initialized = 192"
definition hdr_free_offset :: nat where "hdr_free_offset = 196"
definition hdr_available :: nat where "hdr_available = 200"
definition hdr_reserved :: nat where "hdr_reserved = 204"
definition toc_entry :: "nat \<Rightarrow> nat" where "toc_entry item = 208 + 16 * item"

lemmas hdr_layout = hdr_version_def hdr_initialized_def hdr_free_offset_def hdr_available_def
  hdr_reserved_def toc_entry_def

subsection \<open>Operations\<close>

definition qcom_smem_alloc_global :: "smem_region list \<Rightarrow> nat \<Rightarrow> nat \<Rightarrow> smem_region list result" where
  "qcom_smem_alloc_global regions item sz =
     (case regions of [] \<Rightarrow> UB
      | r # rs \<Rightarrow>
          if r_virt_base r = 0 then UB
          else
            let m = r_mem r; entry = toc_entry item in
            rbind (of_opt (num m entry 4)) (\<lambda>allocated.
              if allocated \<noteq> 0 then Err EEXIST
              else
                let asize = ALIGN sz 8 in
                rbind (of_opt (num m hdr_available 4)) (\<lambda>available.
                  if asize > available then Err ENOMEM
                  else
                    rbind (of_opt (num m hdr_free_offset 4)) (\<lambda>free_offset.
                    rbind (of_opt (put m (entry + 4) 4 free_offset)) (\<lambda>m.
                    rbind (of_opt (put m (entry + 8) 4 asize)) (\<lambda>m.
                    rbind (of_opt (put m entry 4 1)) (\<lambda>m.
                    rbind (le32_add_cpu m hdr_free_offset asize) (\<lambda>m.
                    rbind (le32_add_cpu m hdr_available (u64 (2 ^ 64 - asize))) (\<lambda>m.
                      OK (r\<lparr>r_mem := m\<rparr> # rs))))))))))"

unbundle bit_operations_syntax

text \<open>The loop over the regions; the result is the region's index, the offset and the size.\<close>

fun get_from_regions ::
  "smem_region list \<Rightarrow> nat \<Rightarrow> nat \<Rightarrow> nat \<Rightarrow> nat \<Rightarrow> (nat \<times> nat \<times> nat) result" where
  "get_from_regions [] i aux_base e_size entry_offset = Err ENOENT"
| "get_from_regions (r # rs) i aux_base e_size entry_offset =
     (if u32 (r_aux_base r) = aux_base \<or> aux_base = 0 then
        (if e_size + entry_offset > r_size r then Err EINVAL else OK (i, entry_offset, e_size))
      else get_from_regions rs (Suc i) aux_base e_size entry_offset)"

definition qcom_smem_get_global :: "smem_region list \<Rightarrow> nat \<Rightarrow> (nat \<times> nat \<times> nat) result" where
  "qcom_smem_get_global regions item =
     (case regions of [] \<Rightarrow> UB
      | r # rs \<Rightarrow>
          if r_virt_base r = 0 then UB
          else
            let m = r_mem r; entry = toc_entry item in
            rbind (of_opt (num m entry 4)) (\<lambda>allocated.
              if allocated = 0 then Err ENXIO
              else
                rbind (of_opt (num m (entry + 12) 4)) (\<lambda>aux.
                rbind (of_opt (num m (entry + 8) 4)) (\<lambda>e_size.
                rbind (of_opt (num m (entry + 4) 4)) (\<lambda>entry_offset.
                  get_from_regions regions 0 (aux AND AUX_BASE_MASK) e_size entry_offset)))))"

subsection \<open>The heap invariant\<close>

text \<open>
  The free offset lies behind the header and what is available lies inside the region; no entry
  names an auxiliary region, and every allocated item ends at or below the free offset.
\<close>

definition toc_ok :: "bytes \<Rightarrow> nat \<Rightarrow> nat \<Rightarrow> bool" where
  "toc_ok m free item =
     (case (num m (toc_entry item) 4, num m (toc_entry item + 4) 4, num m (toc_entry item + 8) 4,
            num m (toc_entry item + 12) 4) of
        (Some allocated, Some off, Some sz, Some aux) \<Rightarrow>
          aux AND AUX_BASE_MASK = 0 \<and> (allocated \<noteq> 0 \<longrightarrow> toc_entry SMEM_ITEM_COUNT \<le> off \<and> off + sz \<le> free)
      | _ \<Rightarrow> False)"

definition global_inv :: "smem_region list \<Rightarrow> bool" where
  "global_inv regions =
     (case regions of [] \<Rightarrow> False
      | r # rs \<Rightarrow>
          r_virt_base r \<noteq> 0 \<and> length (r_mem r) = r_size r \<and> r_size r < 2 ^ 32 \<and>
          (case (num (r_mem r) hdr_free_offset 4, num (r_mem r) hdr_available 4) of
             (Some free, Some avail) \<Rightarrow>
               toc_entry SMEM_ITEM_COUNT \<le> free \<and> free + avail = r_size r \<and>
               (\<forall>i < SMEM_ITEM_COUNT. toc_ok (r_mem r) free i)
           | _ \<Rightarrow> False))"

definition global_get :: "smem_region list \<Rightarrow> nat \<Rightarrow> (nat \<times> nat) result" where
  "global_get regions item =
     (if item \<ge> SMEM_ITEM_COUNT then Err EINVAL
      else rbind (qcom_smem_get_global regions item) (\<lambda>(i, off, sz). OK (off, sz)))"

definition global_request :: "nat \<Rightarrow> nat \<Rightarrow> bool" where
  "global_request item sz = (item < SMEM_ITEM_COUNT \<and> sz + 8 \<le> 2 ^ 32)"

lemma global_invE:
  assumes "global_inv (r # rs)" "num (r_mem r) hdr_free_offset 4 = Some free"
  obtains avail where "r_virt_base r \<noteq> 0" "length (r_mem r) = r_size r"
    "r_size r < 2 ^ 32" "num (r_mem r) 196 4 = Some free" "num (r_mem r) 200 4 = Some avail"
    "free + avail = r_size r" "8400 \<le> free" "\<And>i. i < 512 \<Longrightarrow> toc_ok (r_mem r) free i"
  using assms
  by (auto simp: global_inv_def hdr_layout SMEM_ITEM_COUNT_def split: list.splits option.splits)

lemma global_inv_free:
  assumes "global_inv regions"
  obtains r rs free where "regions = r # rs" "num (r_mem r) hdr_free_offset 4 = Some free"
  using assms by (auto simp: global_inv_def split: list.splits option.splits)

lemma u32_neg:
  assumes "a \<le> avail" "avail < 2 ^ 32"
  shows "u32 (avail + u32 (u64 (2 ^ 64 - a))) = avail - a"
proof (cases "a = 0")
  case False
  have "2 ^ 64 - a = (2 ^ 32 - a) + (2 ^ 32 - 1) * 2 ^ 32" using assms by simp
  then have "(2 ^ 64 - a) mod 2 ^ 32 = (2 ^ 32 - a) mod 2 ^ 32" by (simp only: mod_mult_self1)
  then have "u32 (2 ^ 64 - a) = 2 ^ 32 - a" using False assms by (simp add: u32_def)
  moreover have "u64 (2 ^ 64 - a) = 2 ^ 64 - a" using False by simp
  moreover have "avail + (2 ^ 32 - a) = (avail - a) + 2 ^ 32" using assms by simp
  ultimately show ?thesis using assms by (simp only: u32_def mod_add_self2) simp
qed (use assms in \<open>simp add: u64_def\<close>)

text \<open>The memory after a successful allocation: the entry, the counters, and nothing else.\<close>

lemma alloc_global_result:
  assumes inv: "regions = r # rs" "r_virt_base r \<noteq> 0" "length (r_mem r) = r_size r" "r_size r < 2 ^ 32"
    "num (r_mem r) 196 4 = Some free" "num (r_mem r) 200 4 = Some avail" "free + avail = r_size r" "8400 \<le> free"
    and req: "item < 512" "sz + 8 \<le> 2 ^ 32"
    and "qcom_smem_alloc_global regions item sz = OK regions'"
  obtains m' where "regions' = r\<lparr>r_mem := m'\<rparr> # rs" "length m' = length (r_mem r)"
    "ALIGN sz 8 \<le> avail" "num (r_mem r) (toc_entry item) 4 = Some 0"
    "num m' 196 4 = Some (free + ALIGN sz 8)" "num m' 200 4 = Some (avail - ALIGN sz 8)"
    "num m' (toc_entry item) 4 = Some 1" "num m' (toc_entry item + 4) 4 = Some free"
    "num m' (toc_entry item + 8) 4 = Some (ALIGN sz 8)"
    "\<And>p n. (p + n \<le> 196 \<or> 204 \<le> p) \<Longrightarrow> (p + n \<le> toc_entry item \<or> toc_entry item + 12 \<le> p) \<Longrightarrow>
       num m' p n = num (r_mem r) p n"
proof -
  let ?m = "r_mem r" and ?e = "toc_entry item" and ?a = "ALIGN sz 8"
  have e: "208 \<le> ?e" "?e + 16 \<le> 8400" using req by (auto simp: toc_entry_def)
  obtain alloc where al: "num ?m ?e 4 = Some alloc" using num_OK [of ?e 4 ?m] e inv by auto
  have zero: "alloc = 0" "?a \<le> avail"
    using assms(11) inv al by (auto simp: qcom_smem_alloc_global_def hdr_free_offset_def hdr_available_def Let_def split: if_splits)
  then have u: "free + ?a < 2 ^ 32" using inv by simp
  obtain a where a: "put ?m (?e + 4) 4 free = Some a" "length a = length ?m"
    using put_OK [of "?e + 4" 4 ?m] e inv by auto
  obtain b where b: "put a (?e + 8) 4 ?a = Some b" "length b = length ?m"
    using put_OK [of "?e + 8" 4 a] e inv a(2) by auto
  obtain c where c: "put b ?e 4 1 = Some c" "length c = length ?m"
    using put_OK [of ?e 4 b] e inv b(2) by auto
  obtain d where d: "put c 196 4 (free + ?a) = Some d" "length d = length ?m"
    using put_OK [of 196 4 c] e inv c(2) by auto
  obtain f where f: "put d 200 4 (avail - ?a) = Some f" "length f = length ?m"
    using put_OK [of 200 4 d] e inv d(2) by auto
  note other = put_num(2) [OF a(1)] put_num(2) [OF b(1)] put_num(2) [OF c(1)] put_num(2) [OF d(1)] put_num(2) [OF f(1)]
  have n: "num c 196 4 = Some free" "num d 200 4 = Some avail" using e inv by (auto simp: other)
  have neg: "u32 (avail + u32 (u64 (2 ^ 64 - ?a))) = avail - ?a" using zero(2) inv by (intro u32_neg) auto
  have res: "regions' = r\<lparr>r_mem := f\<rparr> # rs"
    using assms(11) inv al zero a(1) b(1) c(1) d(1) f(1) n u neg
    by (auto simp: qcom_smem_alloc_global_def hdr_free_offset_def hdr_available_def Let_def le32_add_cpu_def)
  show thesis
  proof (rule that [OF res f(2) zero(2)])
    show "num ?m ?e 4 = Some 0" using al zero by simp
    show "num f 196 4 = Some (free + ?a)" using put_num(1) [OF d(1)] u by (simp add: other)
    show "num f 200 4 = Some (avail - ?a)" using put_num(1) [OF f(1)] inv by simp
    show "num f ?e 4 = Some 1" using put_num(1) [OF c(1)] e by (simp add: other)
    show "num f (?e + 4) 4 = Some free" using put_num(1) [OF a(1)] e u by (simp add: other)
    show "num f (?e + 8) 4 = Some ?a" using put_num(1) [OF b(1)] e u by (simp add: other)
    show "num f p n = num ?m p n" if "p + n \<le> 196 \<or> 204 \<le> p" "p + n \<le> ?e \<or> ?e + 12 \<le> p" for p n
      using that by (auto simp: other)
  qed
qed


lemma toc_entry_apart:
  "i \<noteq> item \<Longrightarrow> toc_entry i + 16 \<le> toc_entry item \<or> toc_entry item + 16 \<le> toc_entry i"
  by (auto simp: toc_entry_def)

lemma get_global_entry:
  assumes "r_virt_base r \<noteq> 0" "r_size r = length (r_mem r)" "toc_ok (r_mem r) free i" "free \<le> length (r_mem r)"
  shows "qcom_smem_get_global (r # rs) i =
    (if num (r_mem r) (toc_entry i) 4 = Some 0 then Err ENXIO
     else OK (0, the (num (r_mem r) (toc_entry i + 4) 4), the (num (r_mem r) (toc_entry i + 8) 4)))"
proof -
  obtain al off sz aux where e: "num (r_mem r) (toc_entry i) 4 = Some al" "num (r_mem r) (toc_entry i + 4) 4 = Some off"
    "num (r_mem r) (toc_entry i + 8) 4 = Some sz" "num (r_mem r) (toc_entry i + 12) 4 = Some aux"
    "aux AND AUX_BASE_MASK = 0" "al \<noteq> 0 \<longrightarrow> off + sz \<le> free"
    using assms(3) by (auto simp: toc_ok_def split: option.splits)
  then show ?thesis using assms(1,2,4)
    by (cases "al = 0") (simp_all add: qcom_smem_get_global_def Let_def)
qed

lemma alloc_global_lookup:
  assumes "global_inv regions" "global_request item sz" "qcom_smem_alloc_global regions item sz = OK regions'"
    and "regions = r # rs" "num (r_mem r) hdr_free_offset 4 = Some free"
  shows "global_inv regions'"
    and "i < SMEM_ITEM_COUNT \<Longrightarrow> qcom_smem_get_global regions' i =
           (if i = item then OK (0, free, ALIGN sz 8) else qcom_smem_get_global regions i)"
proof -
  let ?m = "r_mem r" and ?a = "ALIGN sz 8"
  obtain avail where inv: "r_virt_base r \<noteq> 0" "length ?m = r_size r" "r_size r < 2 ^ 32"
    "num ?m 196 4 = Some free" "num ?m 200 4 = Some avail" "free + avail = r_size r" "8400 \<le> free"
    "\<And>i. i < 512 \<Longrightarrow> toc_ok ?m free i"
    using global_invE [OF assms(1) [unfolded assms(4)] assms(5)] by blast
  have req: "item < 512" "sz + 8 \<le> 2 ^ 32" using assms(2) by (auto simp: global_request_def SMEM_ITEM_COUNT_def)
  obtain m' where r: "regions' = r\<lparr>r_mem := m'\<rparr> # rs" "length m' = length ?m" "?a \<le> avail"
    "num m' 196 4 = Some (free + ?a)" "num m' 200 4 = Some (avail - ?a)"
    "num m' (toc_entry item) 4 = Some 1" "num m' (toc_entry item + 4) 4 = Some free"
    "num m' (toc_entry item + 8) 4 = Some ?a"
    and frame: "\<And>p n. (p + n \<le> 196 \<or> 204 \<le> p) \<Longrightarrow> (p + n \<le> toc_entry item \<or> toc_entry item + 12 \<le> p) \<Longrightarrow>
       num m' p n = num ?m p n"
    using alloc_global_result [OF assms(4) inv(1-7) req assms(3)] by metis
  have e: "204 \<le> toc_entry i" for i by (simp add: toc_entry_def)
  have old: "num m' (toc_entry i + k) 4 = num ?m (toc_entry i + k) 4" if "i \<noteq> item" "k + 4 \<le> 16" for i k
    using toc_entry_apart [OF that(1)] that(2) e [of i] by (intro frame) auto
  have aux: "num m' (toc_entry item + 12) 4 = num ?m (toc_entry item + 12) 4" using e [of item] by (intro frame) auto
  have ok: "toc_ok m' (free + ?a) i" if "i < 512" for i
  proof (cases "i = item")
    case True
    then show ?thesis using inv(7) inv(8) [of item] req(1) r(4-8) aux
      by (auto simp: toc_ok_def toc_entry_def SMEM_ITEM_COUNT_def split: option.splits)
  next
    case False
    then show ?thesis
      using inv(8) [OF that] old [OF False, of 0] old [OF False, of 4] old [OF False, of 8] old [OF False, of 12]
      by (auto simp: toc_ok_def split: option.splits)
  qed
  show "global_inv regions'"
    using r inv ok by (simp add: global_inv_def hdr_layout SMEM_ITEM_COUNT_def)
  assume i: "i < SMEM_ITEM_COUNT"
  have le: "free + ?a \<le> length m'" "free \<le> length ?m" using r(2,3) inv(2,6) by auto
  have "qcom_smem_get_global regions' i =
    (if num m' (toc_entry i) 4 = Some 0 then Err ENXIO
     else OK (0, the (num m' (toc_entry i + 4) 4), the (num m' (toc_entry i + 8) 4)))"
    using get_global_entry [of "r\<lparr>r_mem := m'\<rparr>" "free + ?a" i rs] inv(1,2) r(1,2) ok i le
    by (simp add: SMEM_ITEM_COUNT_def)
  moreover have "qcom_smem_get_global regions i =
    (if num ?m (toc_entry i) 4 = Some 0 then Err ENXIO
     else OK (0, the (num ?m (toc_entry i + 4) 4), the (num ?m (toc_entry i + 8) 4)))"
    using get_global_entry [of r free i rs] inv(1,2,8) assms(4) i le by (simp add: SMEM_ITEM_COUNT_def)
  ultimately show "qcom_smem_get_global regions' i =
           (if i = item then OK (0, free, ALIGN sz 8) else qcom_smem_get_global regions i)"
    using r old [of i 0] old [of i 4] old [of i 8] by auto
qed

lemma global_get_below:
  assumes "global_inv (r # rs)" "num (r_mem r) hdr_free_offset 4 = Some free" "global_get (r # rs) i = OK (p, s)"
  shows "p + s \<le> free"
proof -
  obtain avail where inv: "r_virt_base r \<noteq> 0" "length (r_mem r) = r_size r" "free + avail = r_size r"
    "\<And>i. i < 512 \<Longrightarrow> toc_ok (r_mem r) free i"
    using global_invE [OF assms(1,2)] by blast
  have i: "i < 512" using assms(3) by (auto simp: global_get_def SMEM_ITEM_COUNT_def split: if_splits)
  have g: "qcom_smem_get_global (r # rs) i =
    (if num (r_mem r) (toc_entry i) 4 = Some 0 then Err ENXIO
     else OK (0, the (num (r_mem r) (toc_entry i + 4) 4), the (num (r_mem r) (toc_entry i + 8) 4)))"
    using get_global_entry [of r free i rs] inv i by simp
  then show ?thesis
    using assms(3) inv(4) [OF i] i
    by (auto simp: global_get_def toc_ok_def SMEM_ITEM_COUNT_def split: if_splits option.splits)
qed

lemma global_get_after:
  assumes "global_inv regions" "global_request item sz" "qcom_smem_alloc_global regions item sz = OK regions'"
    and "regions = r # rs" "num (r_mem r) hdr_free_offset 4 = Some free"
  shows "global_get regions' i = (if i = item then OK (free, ALIGN sz 8) else global_get regions i)"
  using alloc_global_lookup(2) [OF assms, of i] assms(2)
  by (auto simp: global_get_def global_request_def)

interpretation gh: item_heap global_inv qcom_smem_alloc_global global_get global_request
proof (unfold_locales, goal_cases)
  case (1 h item sz h')
  obtain r rs free where "h = r # rs" "num (r_mem r) hdr_free_offset 4 = Some free"
    using global_inv_free [OF 1(1)] .
  then show ?case using alloc_global_lookup(1) [OF 1] by blast
next
  case (2 h item sz h')
  obtain r rs free where h: "h = r # rs" "num (r_mem r) hdr_free_offset 4 = Some free"
    using global_inv_free [OF 2(1)] .
  have "sz \<le> ALIGN sz 8" using ALIGN_8(2) [of sz] 2(2) by (simp add: global_request_def)
  then show ?case using global_get_after [OF 2 h, of item] by simp
next
  case (3 h item sz h' i)
  obtain r rs free where h: "h = r # rs" "num (r_mem r) hdr_free_offset 4 = Some free"
    using global_inv_free [OF 3(1)] .
  then show ?case using global_get_after [OF 3(1-3) h, of i] 3(4) by simp
next
  case (4 h item sz h' i a b)
  obtain r rs free where h: "h = r # rs" "num (r_mem r) hdr_free_offset 4 = Some free"
    using global_inv_free [OF 4(1)] .
  note after = global_get_after [OF 4(1-3) h]
  have "a = (free, ALIGN sz 8)" "global_get h i = OK b" using after [of item] after [of i] 4(4-6) by auto
  then show ?case
    using global_get_below [OF 4(1) [unfolded h(1)] h(2), of i "fst b" "snd b"] h(1) by (auto simp: apart_def)
qed


subsection \<open>Properties\<close>

definition demo_regions :: "smem_region list" where
  "demo_regions = [\<lparr>r_aux_base = 4096, r_virt_base = 4096, r_size = 8432,
     r_mem = replicate 196 0 @ le_bytes 4 8400 @ le_bytes 4 32 @ replicate 8228 0\<rparr>]"

lemma le_val_zeros [simp]: "le_val (replicate n 0) = 0"
  by (induction n) auto

lemma num_zeros: "length a \<le> p \<Longrightarrow> p + n \<le> length a + k \<Longrightarrow> num (a @ replicate k 0) p n = Some 0"
  by (simp add: num_def load_def min_def)

lemma demo_regions_inv: "global_inv demo_regions"
proof -
  let ?m = "replicate 196 0 @ le_bytes 4 8400 @ le_bytes 4 32 @ replicate 8228 (0 :: byte)"
  have z: "num ?m p 4 = Some 0" if "204 \<le> p" "p + 4 \<le> 8432" for p
    using num_zeros [of "replicate 196 0 @ le_bytes 4 8400 @ le_bytes 4 32" p 4 8228] that by simp
  have "toc_ok ?m 8400 i" if "i < 512" for i
    using that z [of "toc_entry i"] z [of "toc_entry i + 4"] z [of "toc_entry i + 8"] z [of "toc_entry i + 12"]
    by (simp add: toc_ok_def toc_entry_def)
  moreover have "num ?m 196 4 = Some 8400" "num ?m 200 4 = Some 32" by (simp_all add: num_def load_def)
  ultimately show ?thesis
    by (simp add: global_inv_def demo_regions_def hdr_layout SMEM_ITEM_COUNT_def)
qed

lemma le32_add_cpu_total:
  "p + 4 \<le> length m \<Longrightarrow> \<exists>m'. le32_add_cpu m p v = OK m' \<and> length m' = length m"
  using num_OK [of p 4 m] put_OK [of p 4 m] by (fastforce simp: le32_add_cpu_def)

lemma alloc_global_outcome:
  assumes "r_virt_base r \<noteq> 0" "8400 \<le> length (r_mem r)" "item < 512"
    and "num (r_mem r) (toc_entry item) 4 = Some allocated" "num (r_mem r) 200 4 = Some avail"
  shows "\<exists>regions'. qcom_smem_alloc_global (r # rs) item sz =
    (if allocated \<noteq> 0 then Err EEXIST else if avail < ALIGN sz 8 then Err ENOMEM else OK regions')"
proof -
  let ?m = "r_mem r" and ?e = "toc_entry item" and ?a = "ALIGN sz 8"
  have e: "?e + 16 \<le> 8400" using assms(3) by (simp add: toc_entry_def)
  obtain free where f: "num ?m 196 4 = Some free" using num_OK [of 196 4 ?m] assms(2) by auto
  obtain a where a: "put ?m (?e + 4) 4 free = Some a" "length a = length ?m"
    using put_OK [of "?e + 4" 4 ?m] e assms(2) by auto
  obtain b where b: "put a (?e + 8) 4 ?a = Some b" "length b = length ?m"
    using put_OK [of "?e + 8" 4 a] e assms(2) a(2) by auto
  obtain c where c: "put b ?e 4 1 = Some c" "length c = length ?m"
    using put_OK [of ?e 4 b] e assms(2) b(2) by auto
  obtain d where d: "le32_add_cpu c 196 ?a = OK d" "length d = length ?m"
    using le32_add_cpu_total [of 196 c] assms(2) c(2) by fastforce
  obtain g where g: "le32_add_cpu d 200 (u64 (2 ^ 64 - ?a)) = OK g"
    using le32_add_cpu_total [of 200 d] assms(2) d(2) by fastforce
  show ?thesis
    using assms(1,4,5) f a(1) b(1) c(1) d(1) g
    by (auto simp: qcom_smem_alloc_global_def hdr_free_offset_def hdr_available_def Let_def)
qed

text \<open>
  C21. The global heap: in a well-formed heap an allocation reports \<^verbatim>\<open>-EEXIST\<close> exactly when
  the item's table entry is in use, \<^verbatim>\<open>-ENOMEM\<close> exactly when the rounded size exceeds what
  is available, and succeeds otherwise. A success keeps the heap well formed, places the item at
  the old free offset with the rounded size and leaves the lookup of every other item as it was.
\<close>

theorem smem_alloc_global_correct:
  assumes "global_inv (r # rs)" "global_request item sz"
    and "num (r_mem r) hdr_free_offset 4 = Some free" "num (r_mem r) hdr_available 4 = Some avail"
    and "num (r_mem r) (toc_entry item) 4 = Some allocated"
  shows "case qcom_smem_alloc_global (r # rs) item sz of
      Err e \<Rightarrow> e = EEXIST \<and> allocated \<noteq> 0 \<or> e = ENOMEM \<and> allocated = 0 \<and> avail < ALIGN sz 8
    | UB \<Rightarrow> False
    | OK regions' \<Rightarrow> allocated = 0 \<and> ALIGN sz 8 \<le> avail \<and> global_inv regions' \<and>
        qcom_smem_get_global regions' item = OK (0, free, ALIGN sz 8) \<and>
        (\<forall>i < SMEM_ITEM_COUNT. i \<noteq> item \<longrightarrow> qcom_smem_get_global regions' i = qcom_smem_get_global (r # rs) i)"
proof -
  obtain av where inv: "r_virt_base r \<noteq> 0" "length (r_mem r) = r_size r" "num (r_mem r) 200 4 = Some av"
    "free + av = r_size r" "8400 \<le> free"
    using global_invE [OF assms(1,3)] by blast
  have av: "av = avail" using inv(3) assms(4) by (simp add: hdr_available_def)
  have i: "item < 512" using assms(2) by (simp add: global_request_def SMEM_ITEM_COUNT_def)
  obtain regions' where out: "qcom_smem_alloc_global (r # rs) item sz =
    (if allocated \<noteq> 0 then Err EEXIST else if avail < ALIGN sz 8 then Err ENOMEM else OK regions')"
    using alloc_global_outcome [OF inv(1) _ i assms(5) inv(3)] inv av by fastforce
  show ?thesis
  proof (cases "allocated = 0 \<and> ALIGN sz 8 \<le> avail")
    case True
    then have ok: "qcom_smem_alloc_global (r # rs) item sz = OK regions'" using out by simp
    note look = alloc_global_lookup [OF assms(1,2) ok refl assms(3)]
    show ?thesis using look(1) look(2) [of item] look(2) True ok i by (simp add: SMEM_ITEM_COUNT_def)
  qed (use out in auto)
qed

theorem smem_alloc_global_correct_witness:
  "\<exists>regions'. qcom_smem_alloc_global demo_regions 9 20 = OK regions' \<and>
     qcom_smem_get_global regions' 9 = OK (0, 8400, 24)"
proof -
  have al: "ALIGN 20 8 = 24" using ALIGN_8(1) [of 20] by simp
  let ?m = "replicate 196 0 @ le_bytes 4 8400 @ le_bytes 4 32 @ replicate 8228 (0 :: byte)"
  have n: "num ?m 196 4 = Some 8400" "num ?m 200 4 = Some 32" "num ?m (toc_entry 9) 4 = Some 0"
    using num_zeros [of "replicate 196 0 @ le_bytes 4 8400 @ le_bytes 4 32" "toc_entry 9" 4 8228]
    by (simp_all add: num_def load_def toc_entry_def)
  show ?thesis
    using smem_alloc_global_correct [of "hd demo_regions" "[]" 9 20 8400 32 0] demo_regions_inv n al
    by (auto simp: demo_regions_def hdr_free_offset_def hdr_available_def global_request_def SMEM_ITEM_COUNT_def
        split: result.splits)
qed

text \<open>
  C38. Items of the global heap never overlap: after any sequence of successful allocations of
  distinct items each of them resolves to a range of at least its size, disjoint from the range
  of every other item of the table.
\<close>

theorem smem_global_items_disjoint:
  assumes "global_inv regions" "list_all (\<lambda>(item, sz). global_request item sz) reqs"
    and "distinct (map fst reqs)" "alloc_seq qcom_smem_alloc_global regions reqs = OK regions'"
    and "(item, sz) \<in> set reqs"
  shows "\<exists>p s. global_get regions' item = OK (p, s) \<and> sz \<le> s \<and>
           (\<forall>i r. i \<noteq> item \<longrightarrow> global_get regions' i = OK r \<longrightarrow> apart r (p, s))"
proof -
  obtain p s where ps: "global_get regions' item = OK (p, s)" "sz \<le> s"
    using gh.seq_get [OF assms(1,2,4,3,5)] by blast
  have "item \<in> fst ` set reqs" using assms(5) by force
  then have "\<forall>i r. i \<noteq> item \<longrightarrow> global_get regions' i = OK r \<longrightarrow> apart r (p, s)"
    using gh.seq_apart [OF assms(1,2,4)] ps(1) by blast
  with ps show ?thesis by blast
qed

theorem smem_global_items_disjoint_witness:
  "\<exists>regions' p s. alloc_seq qcom_smem_alloc_global demo_regions [(9, 20)] = OK regions' \<and>
     global_get regions' 9 = OK (p, s) \<and> 20 \<le> s"
proof -
  let ?m = "replicate 196 0 @ le_bytes 4 8400 @ le_bytes 4 32 @ replicate 8228 (0 :: byte)"
  have al: "ALIGN 20 8 = 24" using ALIGN_8(1) [of 20] by simp
  have n: "num ?m 200 4 = Some 32" "num ?m (toc_entry 9) 4 = Some 0"
    using num_zeros [of "replicate 196 0 @ le_bytes 4 8400 @ le_bytes 4 32" "toc_entry 9" 4 8228]
    by (simp_all add: num_def load_def toc_entry_def)
  obtain regions' where "qcom_smem_alloc_global demo_regions 9 20 = OK regions'"
    using alloc_global_outcome [of "hd demo_regions" 9 0 32 "[]" 20] n al by (auto simp: demo_regions_def)
  then show ?thesis
    using smem_global_items_disjoint [OF demo_regions_inv, of "[(9, 20)]" regions' 9 20]
    by (auto simp: global_request_def SMEM_ITEM_COUNT_def)
qed

end
