(* ===== verification/Smem.thy ===== *)
theory Smem
  imports Smem_Global
begin

text \<open>
  The shared-memory device of \<^verbatim>\<open>drivers/soc/qcom/smem.c\<close>: the interface functions that
  choose between a host's partition, the global partition and the global heap, the validation of
  the partition table at start-up, and the probe function. What belongs to other parts of the
  kernel is a parameter: the result of taking the hardware spinlock, and in \<open>probe_env\<close> the device-tree
  look-ups and \<^verbatim>\<open>devm_ioremap_wc\<close>, which yields the address and the bytes of a window.
\<close>

subsection \<open>State\<close>

record qcom_smem =
  item_count :: nat
  ptable :: bytes
  global_partition :: smem_partition
  partitions :: "smem_partition list"
  regions :: "smem_region list"

definition SMEM_ITEM_LAST_FIXED :: nat where "SMEM_ITEM_LAST_FIXED = 8"
definition SMEM_HOST_APPS :: nat where "SMEM_HOST_APPS = 0"
definition SMEM_GLOBAL_HOST :: nat where "SMEM_GLOBAL_HOST = 0xfffe"
definition SMEM_HOST_COUNT :: nat where "SMEM_HOST_COUNT = 25"
definition SMEM_GLOBAL_HEAP_VERSION :: nat where "SMEM_GLOBAL_HEAP_VERSION = 11"
definition SMEM_GLOBAL_PART_VERSION :: nat where "SMEM_GLOBAL_PART_VERSION = 12"
definition SMEM_MASTER_SBL_VERSION_INDEX :: nat where "SMEM_MASTER_SBL_VERSION_INDEX = 7"
definition SMEM_PTABLE_MAGIC :: bytes where "SMEM_PTABLE_MAGIC = [0x24, 0x54, 0x4f, 0x43]"
definition SMEM_INFO_MAGIC :: bytes where "SMEM_INFO_MAGIC = [0x53, 0x49, 0x49, 0x49]"
definition SZ_4K :: nat where "SZ_4K = 4096"

lemmas smem_consts = SMEM_ITEM_LAST_FIXED_def SMEM_HOST_APPS_def SMEM_GLOBAL_HOST_def SMEM_HOST_COUNT_def
  SMEM_GLOBAL_HEAP_VERSION_def SMEM_GLOBAL_PART_VERSION_def SMEM_MASTER_SBL_VERSION_INDEX_def
  SMEM_PTABLE_MAGIC_def SMEM_INFO_MAGIC_def SZ_4K_def

definition no_partition :: smem_partition where
  "no_partition = \<lparr>p_virt_base = 0, p_phys_base = 0, p_cacheline = 0, p_size = 0, p_mem = []\<rparr>"

text \<open>A pointer into one of the mapped windows.\<close>

datatype smem_ptr = InPartition nat nat | InGlobalPartition nat | InRegion nat nat

definition has_partition :: "qcom_smem \<Rightarrow> nat \<Rightarrow> bool" where
  "has_partition smem host = (host < SMEM_HOST_COUNT \<and> p_virt_base (partitions smem ! host) \<noteq> 0)"

subsection \<open>Interface functions\<close>

definition qcom_smem_bust_hwspin_lock_by_host :: "(nat \<Rightarrow> unit result) \<Rightarrow> nat \<Rightarrow> unit result" where
  "qcom_smem_bust_hwspin_lock_by_host hwspin_lock_bust host =
     (if host = SMEM_HOST_APPS \<or> host \<ge> SMEM_HOST_COUNT then Err EINVAL
      else hwspin_lock_bust (host + 1))"

definition qcom_smem_is_available :: "qcom_smem option \<Rightarrow> bool" where
  "qcom_smem_is_available s = (s \<noteq> None)"

definition qcom_smem_alloc ::
  "unit result \<Rightarrow> qcom_smem option \<Rightarrow> nat \<Rightarrow> nat \<Rightarrow> nat \<Rightarrow> qcom_smem result" where
  "qcom_smem_alloc lock s host item sz =
     (case s of None \<Rightarrow> Err EPROBE_DEFER
      | Some smem \<Rightarrow>
          if item < SMEM_ITEM_LAST_FIXED then Err EINVAL
          else if item \<ge> item_count smem then Err EINVAL
          else
            rbind lock (\<lambda>_.
              if has_partition smem host then
                rbind (qcom_smem_alloc_private (partitions smem ! host) item sz) (\<lambda>part.
                  OK (smem\<lparr>partitions := (partitions smem)[host := part]\<rparr>))
              else if p_virt_base (global_partition smem) \<noteq> 0 then
                rbind (qcom_smem_alloc_private (global_partition smem) item sz) (\<lambda>part.
                  OK (smem\<lparr>global_partition := part\<rparr>))
              else
                rbind (qcom_smem_alloc_global (regions smem) item sz) (\<lambda>rs.
                  OK (smem\<lparr>regions := rs\<rparr>))))"

definition qcom_smem_get :: "qcom_smem option \<Rightarrow> nat \<Rightarrow> nat \<Rightarrow> (smem_ptr \<times> nat) result" where
  "qcom_smem_get s host item =
     (case s of None \<Rightarrow> Err EPROBE_DEFER
      | Some smem \<Rightarrow>
          if item \<ge> item_count smem then Err EINVAL
          else if has_partition smem host then
            rbind (qcom_smem_get_private (partitions smem ! host) item) (\<lambda>(p, sz).
              OK (InPartition host p, sz))
          else if p_virt_base (global_partition smem) \<noteq> 0 then
            rbind (qcom_smem_get_private (global_partition smem) item) (\<lambda>(p, sz).
              OK (InGlobalPartition p, sz))
          else
            rbind (qcom_smem_get_global (regions smem) item) (\<lambda>(i, p, sz). OK (InRegion i p, sz)))"

definition partition_free_space :: "smem_partition \<Rightarrow> nat result" where
  "partition_free_space part =
     rbind (phdr_free_cached (p_mem part)) (\<lambda>cached.
     rbind (phdr_free_uncached (p_mem part)) (\<lambda>uncached.
       let ret = u32_sub cached uncached in
       if ret > u32 (p_size part) then Err EINVAL else OK ret))"

definition qcom_smem_get_free_space :: "qcom_smem option \<Rightarrow> nat \<Rightarrow> nat result" where
  "qcom_smem_get_free_space s host =
     (case s of None \<Rightarrow> Err EPROBE_DEFER
      | Some smem \<Rightarrow>
          if has_partition smem host then partition_free_space (partitions smem ! host)
          else if p_virt_base (global_partition smem) \<noteq> 0 then partition_free_space (global_partition smem)
          else
            (case regions smem of [] \<Rightarrow> UB
             | r # _ \<Rightarrow>
                 if r_virt_base r = 0 then UB
                 else rbind (of_opt (num (r_mem r) hdr_available 4)) (\<lambda>ret.
                        if ret > r_size r then Err EINVAL else OK ret)))"

definition addr_in_range :: "nat \<Rightarrow> nat \<Rightarrow> nat \<Rightarrow> bool" where
  "addr_in_range base sz addr = (base \<noteq> 0 \<and> addr \<ge> base \<and> addr < base + sz)"

fun phys_in_partitions :: "smem_partition list \<Rightarrow> nat \<Rightarrow> nat option" where
  "phys_in_partitions [] p = None"
| "phys_in_partitions (part # ps) p =
     (if addr_in_range (p_virt_base part) (p_size part) p
      then Some (p_phys_base part + (p - p_virt_base part)) else phys_in_partitions ps p)"

fun phys_in_regions :: "smem_region list \<Rightarrow> nat \<Rightarrow> nat option" where
  "phys_in_regions [] p = None"
| "phys_in_regions (r # rs) p =
     (if addr_in_range (r_virt_base r) (r_size r) p
      then Some (r_aux_base r + (p - r_virt_base r)) else phys_in_regions rs p)"

definition qcom_smem_virt_to_phys :: "qcom_smem \<Rightarrow> nat \<Rightarrow> nat" where
  "qcom_smem_virt_to_phys smem p =
     (case phys_in_partitions (partitions smem) p of Some a \<Rightarrow> a
      | None \<Rightarrow>
          (case phys_in_partitions [global_partition smem] p of Some a \<Rightarrow> a
           | None \<Rightarrow> (case phys_in_regions (regions smem) p of Some a \<Rightarrow> a | None \<Rightarrow> 0)))"

text \<open>Reading through a returned pointer, and the two \<^verbatim>\<open>socinfo\<close> fields read that way.\<close>

definition smem_read :: "qcom_smem \<Rightarrow> smem_ptr \<Rightarrow> nat \<Rightarrow> nat \<Rightarrow> nat result" where
  "smem_read smem ptr d n =
     (case ptr of
        InPartition host p \<Rightarrow> of_opt (num (p_mem (partitions smem ! host)) (p + d) n)
      | InGlobalPartition p \<Rightarrow> of_opt (num (p_mem (global_partition smem)) (p + d) n)
      | InRegion i p \<Rightarrow> of_opt (num (r_mem (regions smem ! i)) (p + d) n))"

definition QCOM_SMEM_HOST_ANY :: nat where "QCOM_SMEM_HOST_ANY = 2 ^ 32 - 1"
definition SMEM_HW_SW_BUILD_ID :: nat where "SMEM_HW_SW_BUILD_ID = 137"
definition SOCINFO_FC_INT_MAX :: nat where "SOCINFO_FC_INT_MAX = 0xf1 + 0xf"

definition qcom_smem_get_soc_id :: "qcom_smem option \<Rightarrow> nat result" where
  "qcom_smem_get_soc_id s =
     rbind (qcom_smem_get s QCOM_SMEM_HOST_ANY SMEM_HW_SW_BUILD_ID) (\<lambda>(info, _).
       case s of None \<Rightarrow> UB | Some smem \<Rightarrow> smem_read smem info 4 4)"

definition qcom_smem_get_feature_code :: "qcom_smem option \<Rightarrow> nat result" where
  "qcom_smem_get_feature_code s =
     rbind (qcom_smem_get s QCOM_SMEM_HOST_ANY SMEM_HW_SW_BUILD_ID) (\<lambda>(info, _).
       case s of None \<Rightarrow> UB
       | Some smem \<Rightarrow>
           rbind (smem_read smem info 0 4) (\<lambda>fmt.
             if fmt < 16 then Err EOPNOTSUPP
             else rbind (smem_read smem info 176 4) (\<lambda>raw_code.
                    OK (if raw_code > SOCINFO_FC_INT_MAX then 0 else raw_code))))"

subsection \<open>The partition table\<close>

text \<open>The fields of \<^verbatim>\<open>struct smem_ptable_entry\<close> number \<open>i\<close>.\<close>

definition pt_entry :: "nat \<Rightarrow> nat" where "pt_entry i = 32 + 48 * i"

record ptable_entry =
  pe_offset :: nat
  pe_size :: nat
  pe_host0 :: nat
  pe_host1 :: nat
  pe_cacheline :: nat

definition read_pt_entry :: "bytes \<Rightarrow> nat \<Rightarrow> ptable_entry result" where
  "read_pt_entry pt i =
     rbind (of_opt (num pt (pt_entry i) 4)) (\<lambda>off.
     rbind (of_opt (num pt (pt_entry i + 4) 4)) (\<lambda>sz.
     rbind (of_opt (num pt (pt_entry i + 12) 2)) (\<lambda>h0.
     rbind (of_opt (num pt (pt_entry i + 14) 2)) (\<lambda>h1.
     rbind (of_opt (num pt (pt_entry i + 16) 4)) (\<lambda>cl.
       OK \<lparr>pe_offset = off, pe_size = sz, pe_host0 = h0, pe_host1 = h1, pe_cacheline = cl\<rparr>)))))"

definition qcom_smem_get_ptable :: "bytes \<Rightarrow> unit result" where
  "qcom_smem_get_ptable pt =
     rbind (of_opt (load pt 0 4)) (\<lambda>magic.
       if magic \<noteq> SMEM_PTABLE_MAGIC then Err ENOENT
       else rbind (of_opt (num pt 4 4)) (\<lambda>version. if version \<noteq> 1 then Err EINVAL else OK ()))"

definition qcom_smem_get_item_count :: "bytes \<Rightarrow> nat result" where
  "qcom_smem_get_item_count pt =
     (case qcom_smem_get_ptable pt of
        UB \<Rightarrow> UB
      | Err e \<Rightarrow> OK SMEM_ITEM_COUNT
      | OK _ \<Rightarrow>
          rbind (of_opt (num pt 8 4)) (\<lambda>num_entries.
            let info = pt_entry num_entries in
            rbind (of_opt (load pt info 4)) (\<lambda>magic.
              if magic \<noteq> SMEM_INFO_MAGIC then OK SMEM_ITEM_COUNT
              else of_opt (num pt (info + 16) 2))))"

definition qcom_smem_get_sbl_version :: "smem_region \<Rightarrow> nat result" where
  "qcom_smem_get_sbl_version r = of_opt (num (r_mem r) (hdr_version + 4 * SMEM_MASTER_SBL_VERSION_INDEX) 4)"

type_synonym ioremap = "nat \<Rightarrow> nat \<Rightarrow> (nat \<times> bytes) option"

definition qcom_smem_partition_header ::
  "ioremap \<Rightarrow> nat \<Rightarrow> ptable_entry \<Rightarrow> nat \<Rightarrow> nat \<Rightarrow> (nat \<times> bytes) option result" where
  "qcom_smem_partition_header ioremap aux_base entry host0 host1 =
     (case ioremap (u32 (aux_base + pe_offset entry)) (pe_size entry) of
        None \<Rightarrow> OK None
      | Some (va, m) \<Rightarrow>
          rbind (of_opt (load m 0 4)) (\<lambda>magic.
          if magic \<noteq> SMEM_PART_MAGIC then OK None
          else rbind (phdr_host0 m) (\<lambda>h0.
          if host0 \<noteq> h0 then OK None
          else rbind (phdr_host1 m) (\<lambda>h1.
          if host1 \<noteq> h1 then OK None
          else rbind (phdr_size m) (\<lambda>psize.
          if psize \<noteq> pe_size entry then OK None
          else rbind (phdr_free_uncached m) (\<lambda>free.
          if free > psize then OK None else OK (Some (va, m))))))))"

definition mk_partition :: "nat \<Rightarrow> ptable_entry \<Rightarrow> nat \<times> bytes \<Rightarrow> smem_partition" where
  "mk_partition aux_base entry w =
     \<lparr>p_virt_base = fst w, p_phys_base = aux_base + pe_offset entry, p_cacheline = pe_cacheline entry,
      p_size = pe_size entry, p_mem = snd w\<rparr>"

fun find_global_entry :: "bytes \<Rightarrow> nat \<Rightarrow> nat \<Rightarrow> ptable_entry option result" where
  "find_global_entry pt i 0 = OK None"
| "find_global_entry pt i (Suc n) =
     rbind (read_pt_entry pt i) (\<lambda>entry.
       if pe_offset entry = 0 \<or> pe_size entry = 0 \<or> pe_host0 entry \<noteq> SMEM_GLOBAL_HOST
          \<or> pe_host1 entry \<noteq> SMEM_GLOBAL_HOST
       then find_global_entry pt (Suc i) n
       else OK (Some entry))"

definition qcom_smem_set_global_partition :: "ioremap \<Rightarrow> nat \<Rightarrow> qcom_smem \<Rightarrow> qcom_smem result" where
  "qcom_smem_set_global_partition ioremap aux_base smem =
     (if p_virt_base (global_partition smem) \<noteq> 0 then Err EINVAL
      else
        rbind (qcom_smem_get_ptable (ptable smem)) (\<lambda>_.
        rbind (of_opt (num (ptable smem) 8 4)) (\<lambda>num_entries.
        rbind (find_global_entry (ptable smem) 0 num_entries) (\<lambda>found.
          case found of None \<Rightarrow> Err EINVAL
          | Some entry \<Rightarrow>
              rbind (qcom_smem_partition_header ioremap aux_base entry SMEM_GLOBAL_HOST SMEM_GLOBAL_HOST)
                (\<lambda>h. case h of None \<Rightarrow> Err EINVAL
                     | Some w \<Rightarrow> OK (smem\<lparr>global_partition := mk_partition aux_base entry w\<rparr>))))))"

text \<open>One entry of the table, and the loop over the entries.\<close>

definition enumerate_entry ::
  "ioremap \<Rightarrow> nat \<Rightarrow> nat \<Rightarrow> ptable_entry \<Rightarrow> smem_partition list \<Rightarrow> smem_partition list result" where
  "enumerate_entry ioremap aux_base local_host entry parts =
     (let host0 = pe_host0 entry; host1 = pe_host1 entry in
      if pe_offset entry = 0 \<or> pe_size entry = 0 then OK parts
      else if host0 \<noteq> local_host \<and> host1 \<noteq> local_host then OK parts
      else
        let remote_host = (if host0 = local_host then host1 else host0) in
        if remote_host \<ge> SMEM_HOST_COUNT then Err EINVAL
        else if p_virt_base (parts ! remote_host) \<noteq> 0 then Err EINVAL
        else
          rbind (qcom_smem_partition_header ioremap aux_base entry host0 host1) (\<lambda>h.
            case h of None \<Rightarrow> Err EINVAL
            | Some w \<Rightarrow> OK (parts[remote_host := mk_partition aux_base entry w])))"

fun enumerate_entries ::
  "ioremap \<Rightarrow> nat \<Rightarrow> nat \<Rightarrow> bytes \<Rightarrow> nat \<Rightarrow> nat \<Rightarrow> smem_partition list \<Rightarrow> smem_partition list result" where
  "enumerate_entries ioremap aux_base local_host pt i 0 parts = OK parts"
| "enumerate_entries ioremap aux_base local_host pt i (Suc n) parts =
     rbind (read_pt_entry pt i) (\<lambda>entry.
     rbind (enumerate_entry ioremap aux_base local_host entry parts) (\<lambda>parts'.
       enumerate_entries ioremap aux_base local_host pt (Suc i) n parts'))"

definition qcom_smem_enumerate_partitions ::
  "ioremap \<Rightarrow> nat \<Rightarrow> nat \<Rightarrow> qcom_smem \<Rightarrow> qcom_smem result" where
  "qcom_smem_enumerate_partitions ioremap aux_base local_host smem =
     rbind (qcom_smem_get_ptable (ptable smem)) (\<lambda>_.
     rbind (of_opt (num (ptable smem) 8 4)) (\<lambda>num_entries.
     rbind (enumerate_entries ioremap aux_base local_host (ptable smem) 0 num_entries (partitions smem))
       (\<lambda>parts. OK (smem\<lparr>partitions := parts\<rparr>))))"


subsection \<open>Probe and remove\<close>

definition qcom_smem_map_toc :: "ioremap \<Rightarrow> smem_region \<Rightarrow> (smem_region \<times> bytes) result" where
  "qcom_smem_map_toc ioremap r =
     (let ptable_start = u32 (r_aux_base r + r_size r + (2 ^ 64 - SZ_4K)) in
      case (ioremap (r_aux_base r) SZ_4K, ioremap ptable_start SZ_4K) of
        (Some (va, m), Some (pva, pt)) \<Rightarrow> OK (r\<lparr>r_virt_base := va, r_mem := m\<rparr>, pt)
      | _ \<Rightarrow> Err ENOMEM)"

text \<open>
  \<^verbatim>\<open>qcom_smem_map_global\<close> reports a failed mapping, with \<^verbatim>\<open>virt_base\<close> left null; the
  caller does not look at the result.
\<close>

definition qcom_smem_map_global :: "ioremap \<Rightarrow> nat \<Rightarrow> smem_region \<Rightarrow> smem_region \<times> unit result" where
  "qcom_smem_map_global ioremap sz r =
     (case ioremap (u32 (r_aux_base r)) sz of
        None \<Rightarrow> (r\<lparr>r_size := sz, r_virt_base := 0, r_mem := []\<rparr>, Err ENOMEM)
      | Some (va, m) \<Rightarrow> (r\<lparr>r_size := sz, r_virt_base := va, r_mem := m\<rparr>, OK ()))"

record probe_env =
  env_rpm_msg_ram :: bool
  env_kzalloc_ok :: bool
  env_rmem :: "(nat \<times> nat) option"
  env_resolve_mem :: "string \<Rightarrow> (nat \<times> nat) result"
  env_ioremap :: ioremap
  env_hwlock_id :: "nat result"
  env_hwlock_request_ok :: bool
  env_hwlock_timeout :: "unit result"

definition new_region :: "nat \<times> nat \<Rightarrow> smem_region" where
  "new_region b = \<lparr>r_aux_base = fst b, r_virt_base = 0, r_size = snd b, r_mem = []\<rparr>"

text \<open>The memory regions: the main one, and the message RAM when the device tree names it.\<close>

definition probe_regions :: "probe_env \<Rightarrow> (smem_region \<times> smem_region list \<times> bytes) result" where
  "probe_regions env =
     rbind (case env_rmem env of Some b \<Rightarrow> OK b | None \<Rightarrow> env_resolve_mem env ''memory-region'') (\<lambda>b0.
     rbind (if env_rpm_msg_ram env
            then rbind (env_resolve_mem env ''qcom,rpm-msg-ram'') (\<lambda>b1. OK [new_region b1]) else OK [])
       (\<lambda>extra.
     rbind (qcom_smem_map_toc (env_ioremap env) (new_region b0)) (\<lambda>(r0, pt).
     rbind (case extra of [] \<Rightarrow> OK []
            | r # _ \<Rightarrow>
                (case env_ioremap env (r_aux_base r) (r_size r) of None \<Rightarrow> Err ENOMEM
                 | Some (va, m) \<Rightarrow> OK [r\<lparr>r_virt_base := va, r_mem := m\<rparr>]))
       (\<lambda>extra'. OK (r0, extra', pt)))))"

text \<open>
  The version switch. The header window has been unmapped before it: reading through the old
  address of region 0 is undefined until \<^verbatim>\<open>qcom_smem_map_global\<close> maps it again.
\<close>

definition probe_version :: "ioremap \<Rightarrow> nat \<Rightarrow> nat \<Rightarrow> qcom_smem \<Rightarrow> qcom_smem result" where
  "probe_version ioremap version sz smem =
     (case regions smem of [] \<Rightarrow> UB
      | r0 # rs \<Rightarrow>
          if version div 65536 = SMEM_GLOBAL_PART_VERSION then
            rbind (qcom_smem_set_global_partition ioremap (r_aux_base r0) smem) (\<lambda>smem'.
            rbind (qcom_smem_get_item_count (ptable smem')) (\<lambda>n. OK (smem'\<lparr>item_count := n\<rparr>)))
          else if version div 65536 = SMEM_GLOBAL_HEAP_VERSION then
            OK (smem\<lparr>regions := fst (qcom_smem_map_global ioremap sz r0) # rs, item_count := SMEM_ITEM_COUNT\<rparr>)
          else Err EINVAL)"

definition qcom_smem_probe :: "probe_env \<Rightarrow> qcom_smem result" where
  "qcom_smem_probe env =
     (if \<not> env_kzalloc_ok env then Err ENOMEM
      else
        rbind (probe_regions env) (\<lambda>(r0, extra, pt).
        rbind (of_opt (num (r_mem r0) hdr_initialized 4)) (\<lambda>initialized.
        rbind (of_opt (num (r_mem r0) hdr_reserved 4)) (\<lambda>reserved.
          if initialized \<noteq> 1 \<or> reserved \<noteq> 0 then Err EINVAL
          else
            rbind (env_hwlock_id env) (\<lambda>_.
              if \<not> env_hwlock_request_ok env then Err ENXIO
              else
                rbind (env_hwlock_timeout env) (\<lambda>_.
                rbind (of_opt (num (r_mem r0) hdr_available 4)) (\<lambda>available.
                rbind (of_opt (num (r_mem r0) hdr_free_offset 4)) (\<lambda>free_offset.
                rbind (qcom_smem_get_sbl_version r0) (\<lambda>version.
                  let smem = \<lparr>item_count = 0, ptable = pt, global_partition = no_partition,
                              partitions = replicate SMEM_HOST_COUNT no_partition,
                              regions = r0\<lparr>r_mem := []\<rparr> # extra\<rparr> in
                  rbind (probe_version (env_ioremap env) version (u32 (available + free_offset)) smem) (\<lambda>smem1.
                    case qcom_smem_enumerate_partitions (env_ioremap env) (r_aux_base r0) SMEM_HOST_APPS smem1 of
                      Err ENOENT \<Rightarrow> OK smem1
                    | r \<Rightarrow> r))))))))))"

definition qcom_smem_remove :: "qcom_smem option \<Rightarrow> qcom_smem option" where
  "qcom_smem_remove s = None"

text \<open>Hibernation: the device is dropped on freeze and probed again on restore.\<close>

definition qcom_smem_freeze :: "qcom_smem option \<Rightarrow> qcom_smem option \<times> unit result" where
  "qcom_smem_freeze s = (qcom_smem_remove s, OK ())"

definition qcom_smem_restore :: "probe_env \<Rightarrow> qcom_smem option \<Rightarrow> qcom_smem option \<times> unit result" where
  "qcom_smem_restore env s =
     (case qcom_smem_probe env of
        OK smem \<Rightarrow> (Some smem, OK ()) | Err e \<Rightarrow> (s, Err e) | UB \<Rightarrow> (s, UB))"

subsection \<open>Start-up validates every partition\<close>




























subsection \<open>Allocation and lookup through the interface\<close>

lemma alloc_private_addr:
  "qcom_smem_alloc_private part item sz = OK part' \<Longrightarrow> p_virt_base part' = p_virt_base part \<and> p_size part' = p_size part"
  by (auto simp: qcom_smem_alloc_private_def Let_def split: if_splits)

text \<open>
  C23. The interface keeps hosts apart: an allocation for a host with a well-formed partition makes
  exactly that item of that host resolvable, with the requested size, and changes no lookup of
  any other item or any other host.
\<close>

theorem smem_alloc_then_get:
  assumes "has_partition smem host" "length (partitions smem) = SMEM_HOST_COUNT"
    and "wf_partition (partitions smem ! host)" "valid_request item sz"
    and "qcom_smem_alloc (OK ()) (Some smem) host item sz = OK smem'"
  shows "(\<exists>p. qcom_smem_get (Some smem') host item = OK (InPartition host p, sz)) \<and>
    (\<forall>h i. (h, i) \<noteq> (host, item) \<longrightarrow> qcom_smem_get (Some smem') h i = qcom_smem_get (Some smem) h i)"
proof -
  let ?part = "partitions smem ! host"
  have hl: "host < length (partitions smem)" using assms(1,2) by (simp add: has_partition_def)
  obtain part' where a: "qcom_smem_alloc_private ?part item sz = OK part'" "item < item_count smem"
    and s': "smem' = smem\<lparr>partitions := (partitions smem)[host := part']\<rparr>"
    using assms(1,5) by (auto simp: qcom_smem_alloc_def split: if_splits)
  obtain free where free: "phdr_free_uncached (p_mem ?part) = OK free" using wf_partitionE [OF assms(3)] by blast
  note look = alloc_private_lookup(2) [OF assms(3) _ _ _ a(1) free]
  have look': "qcom_smem_get_private part' i = (if i = item then OK (free + 16, sz) else qcom_smem_get_private ?part i)" for i
    using look assms(4) by (simp add: valid_request_def)
  have hp: "has_partition smem' h = has_partition smem h" for h
    using alloc_private_addr [OF a(1)] hl by (auto simp: s' has_partition_def nth_list_update)
  show ?thesis
    using look' hp a(2) assms(1) hl
    by (auto simp: qcom_smem_get_def s' nth_list_update)
qed

definition demo_smem :: qcom_smem where
  "demo_smem = \<lparr>item_count = 512, ptable = [], global_partition = no_partition,
     partitions = (replicate SMEM_HOST_COUNT no_partition)[1 := demo_part], regions = []\<rparr>"

lemma demo_smem_host: "has_partition demo_smem 1" "partitions demo_smem ! 1 = demo_part"
  "length (partitions demo_smem) = SMEM_HOST_COUNT"
  by (simp_all add: has_partition_def demo_smem_def SMEM_HOST_COUNT_def demo_part_def)

lemma demo_smem_alloc: "\<exists>smem'. qcom_smem_alloc (OK ()) (Some demo_smem) 1 9 20 = OK smem'"
  using demo_part_alloc demo_smem_host by (auto simp: qcom_smem_alloc_def SMEM_ITEM_LAST_FIXED_def) (auto simp: demo_smem_def)

theorem smem_alloc_then_get_witness:
  "\<exists>smem' p. qcom_smem_alloc (OK ()) (Some demo_smem) 1 9 20 = OK smem' \<and>
     qcom_smem_get (Some smem') 1 9 = OK (InPartition 1 p, 20)"
proof -
  obtain smem' where "qcom_smem_alloc (OK ()) (Some demo_smem) 1 9 20 = OK smem'" using demo_smem_alloc by blast
  then show ?thesis
    using smem_alloc_then_get [of demo_smem 1 9 20 smem'] demo_smem_host demo_part_wf by (auto simp: valid_request_def)
qed

text \<open>
  The free space a partition reports is the gap between its two lists, and a successful
  allocation lowers it by exactly the entry header and the rounded size.
\<close>

theorem smem_free_space_accounting:
  assumes "wf_partition part" "valid_request item sz" "qcom_smem_alloc_private part item sz = OK part'"
  shows "partition_free_space part = OK (private_space part) \<and>
    partition_free_space part' = OK (private_space part - (ENTRY_SIZE + ALIGN sz 8)) \<and>
    ENTRY_SIZE + ALIGN sz 8 \<le> private_space part"
proof -
  obtain uend cend where wf: "phdr_free_uncached (p_mem part) = OK uend" "phdr_free_cached (p_mem part) = OK cend"
    "uend \<le> cend" "cend \<le> length (p_mem part)" "32 \<le> uend" "p_size part = length (p_mem part)" "length (p_mem part) < 2 ^ 32"
    using wf_partitionE [OF assms(1)] by metis
  have req: "item < 2 ^ 16" "0 < sz" "sz + 8 \<le> 2 ^ 32" using assms(2) by (auto simp: valid_request_def)
  obtain m' where r: "part' = part\<lparr>p_mem := m'\<rparr>" "uend + 16 + ALIGN sz 8 \<le> cend"
    "num m' 12 4 = Some (uend + 16 + ALIGN sz 8)" "same_on (p_mem part) m' 16 uend"
    using alloc_private_result [OF assms(1) req assms(3) wf(1,2)] by metis
  have "phdr_free_cached m' = OK cend" using same_on_num [OF r(4), of 16 4] wf(2,5) by (simp add: smem_layout)
  moreover have "phdr_free_uncached m' = OK (uend + 16 + ALIGN sz 8)" using r(3) by (simp add: smem_layout)
  ultimately show ?thesis
    using wf r(1,2) by (auto simp: partition_free_space_def private_space_def u32_sub_le ENTRY_SIZE_def Let_def)
qed

theorem smem_free_space_accounting_witness:
  "\<exists>part'. qcom_smem_alloc_private demo_part 9 20 = OK part' \<and> partition_free_space demo_part = OK 48 \<and>
     partition_free_space part' = OK 8"
proof -
  obtain part' where "qcom_smem_alloc_private demo_part 9 20 = OK part'" using demo_part_alloc by blast
  moreover have "ALIGN 20 8 = 24" using ALIGN_8(1) [of 20] by simp
  ultimately show ?thesis
    using smem_free_space_accounting [OF demo_part_wf, of 9 20 part'] demo_part_space(2)
    by (simp add: valid_request_def ENTRY_SIZE_def)
qed

lemma phys_in_partitions_nth:
  "h < length ps \<Longrightarrow> addr_in_range (p_virt_base (ps ! h)) (p_size (ps ! h)) p \<Longrightarrow>
   (\<forall>j < h. \<not> addr_in_range (p_virt_base (ps ! j)) (p_size (ps ! j)) p) \<Longrightarrow>
   phys_in_partitions ps p = Some (p_phys_base (ps ! h) + (p - p_virt_base (ps ! h)))"
proof (induction ps arbitrary: h)
  case (Cons part ps)
  show ?case
  proof (cases h)
    case (Suc k)
    have "\<not> addr_in_range (p_virt_base part) (p_size part) p" using Cons.prems(3) Suc by fastforce
    moreover have "\<forall>j < k. \<not> addr_in_range (p_virt_base (ps ! j)) (p_size (ps ! j)) p"
      using Cons.prems(3) Suc by fastforce
    ultimately show ?thesis using Cons.IH [of k] Cons.prems Suc by simp
  qed (use Cons.prems in simp)
qed simp

text \<open>
  Address translation: the virtual address of a byte of a host's partition translates to the
  partition's physical address plus the byte's offset, when no partition of a lower-numbered host
  is mapped over it.
\<close>

theorem smem_virt_to_phys_partition:
  assumes "has_partition smem host" "length (partitions smem) = SMEM_HOST_COUNT"
    and "off < p_size (partitions smem ! host)"
    and "\<forall>j < host. \<not> addr_in_range (p_virt_base (partitions smem ! j)) (p_size (partitions smem ! j))
                       (p_virt_base (partitions smem ! host) + off)"
  shows "qcom_smem_virt_to_phys smem (p_virt_base (partitions smem ! host) + off) =
         p_phys_base (partitions smem ! host) + off"
proof -
  have "addr_in_range (p_virt_base (partitions smem ! host)) (p_size (partitions smem ! host))
          (p_virt_base (partitions smem ! host) + off)"
    using assms(1,3) by (simp add: has_partition_def addr_in_range_def)
  then show ?thesis
    using phys_in_partitions_nth [of host "partitions smem"] assms
    by (simp add: has_partition_def qcom_smem_virt_to_phys_def)
qed

theorem smem_virt_to_phys_partition_witness:
  "qcom_smem_virt_to_phys demo_smem (4096 + 48) = 8192 + 48"
proof -
  have "partitions demo_smem ! 0 = no_partition" by (simp add: demo_smem_def SMEM_HOST_COUNT_def)
  then show ?thesis
    using smem_virt_to_phys_partition [of demo_smem 1 48] demo_smem_host
    by (simp add: demo_part_def addr_in_range_def no_partition_def)
qed

text \<open>
  The result of mapping the global heap is ignored: with the heap version and a failing
  mapping the version switch of the probe still succeeds, and the first lookup in the global heap
  goes through a null pointer.
\<close>

theorem smem_probe_ignores_map_failure:
  assumes "version div 65536 = SMEM_GLOBAL_HEAP_VERSION" "regions smem = r0 # rs"
    and "ioremap (u32 (r_aux_base r0)) sz = None" "p_virt_base (global_partition smem) = 0"
    and "\<not> has_partition smem host" "item < SMEM_ITEM_COUNT"
  shows "\<exists>smem'. probe_version ioremap version sz smem = OK smem' \<and> qcom_smem_get (Some smem') host item = UB"
  using assms
  by (auto simp: probe_version_def qcom_smem_map_global_def qcom_smem_get_def qcom_smem_get_global_def
      has_partition_def smem_consts)

theorem smem_probe_ignores_map_failure_witness:
  "\<exists>smem'. probe_version (\<lambda>_ _. None) 720896 8400 (demo_smem\<lparr>regions := demo_regions\<rparr>) = OK smem' \<and>
     qcom_smem_get (Some smem') 2 9 = UB"
  using smem_probe_ignores_map_failure [of 720896 "demo_smem\<lparr>regions := demo_regions\<rparr>" "hd demo_regions" "[]"
      "\<lambda>_ _. None" 8400 2 9]
  by (simp add: demo_regions_def demo_smem_def no_partition_def has_partition_def smem_consts SMEM_ITEM_COUNT_def)

end
