(* ===== verification/Smp2p.thy ===== *)
theory Smp2p
  imports Smem
begin

text \<open>
  Point-to-point signals over shared memory (\<^verbatim>\<open>drivers/soc/qcom/smp2p.c\<close>). Each side writes the values
  of its outbound entries into an item of its own and reads the item of the other side. The items live
  in the shared memory of \<^verbatim>\<open>Smem\<close>; a pointer is a place in one of its windows. Interrupts delivered to
  the users of an entry and kicks of the remote side are recorded.
\<close>

subsection \<open>Places in shared memory\<close>

datatype smem_win = WinPartition nat | WinGlobal | WinRegion nat

fun ptr_win :: "smem_ptr \<Rightarrow> smem_win" where
  "ptr_win (InPartition h p) = WinPartition h"
| "ptr_win (InGlobalPartition p) = WinGlobal"
| "ptr_win (InRegion i p) = WinRegion i"

fun ptr_off :: "smem_ptr \<Rightarrow> nat" where
  "ptr_off (InPartition h p) = p"
| "ptr_off (InGlobalPartition p) = p"
| "ptr_off (InRegion i p) = p"

fun ptr_add :: "smem_ptr \<Rightarrow> nat \<Rightarrow> smem_ptr" where
  "ptr_add (InPartition h p) d = InPartition h (p + d)"
| "ptr_add (InGlobalPartition p) d = InGlobalPartition (p + d)"
| "ptr_add (InRegion i p) d = InRegion i (p + d)"

fun win_mem :: "smem_win \<Rightarrow> qcom_smem \<Rightarrow> bytes" where
  "win_mem (WinPartition h) s = (if h < length (partitions s) then p_mem (partitions s ! h) else [])"
| "win_mem WinGlobal s = p_mem (global_partition s)"
| "win_mem (WinRegion i) s = (if i < length (regions s) then r_mem (regions s ! i) else [])"

fun set_win :: "smem_win \<Rightarrow> bytes \<Rightarrow> qcom_smem \<Rightarrow> qcom_smem" where
  "set_win (WinPartition h) m s = s\<lparr>partitions := (partitions s)[h := (partitions s ! h)\<lparr>p_mem := m\<rparr>]\<rparr>"
| "set_win WinGlobal m s = s\<lparr>global_partition := (global_partition s)\<lparr>p_mem := m\<rparr>\<rparr>"
| "set_win (WinRegion i) m s = s\<lparr>regions := (regions s)[i := (regions s ! i)\<lparr>r_mem := m\<rparr>]\<rparr>"

definition win_load :: "smem_win \<Rightarrow> qcom_smem \<Rightarrow> nat \<Rightarrow> nat \<Rightarrow> bytes option" where
  "win_load w s = load (win_mem w s)"

definition win_store :: "smem_win \<Rightarrow> qcom_smem \<Rightarrow> nat \<Rightarrow> bytes \<Rightarrow> qcom_smem option" where
  "win_store w s p bs = map_option (\<lambda>m. set_win w m s) (store (win_mem w s) p bs)"

text \<open>Reading and writing through a pointer at a distance.\<close>

definition sm_load :: "qcom_smem \<Rightarrow> smem_ptr \<Rightarrow> nat \<Rightarrow> nat \<Rightarrow> bytes option" where
  "sm_load s p d n = win_load (ptr_win p) s (ptr_off p + d) n"

definition sm_store :: "smem_ptr \<Rightarrow> nat \<Rightarrow> bytes \<Rightarrow> qcom_smem \<Rightarrow> qcom_smem option" where
  "sm_store p d bs s = win_store (ptr_win p) s (ptr_off p + d) bs"

subsection \<open>Data\<close>

definition SMP2P_MAX_ENTRY :: nat where "SMP2P_MAX_ENTRY = 16"
definition SMP2P_MAX_ENTRY_NAME :: nat where "SMP2P_MAX_ENTRY_NAME = 16"
definition SMP2P_FEATURE_SSR_ACK :: nat where "SMP2P_FEATURE_SSR_ACK = 1"
definition SMP2P_FLAGS_RESTART_DONE_BIT :: nat where "SMP2P_FLAGS_RESTART_DONE_BIT = 0"
definition SMP2P_FLAGS_RESTART_ACK_BIT :: nat where "SMP2P_FLAGS_RESTART_ACK_BIT = 1"
definition SMP2P_MAGIC :: nat where "SMP2P_MAGIC = 0x504d5324"
definition SMP2P_ALL_FEATURES :: nat where "SMP2P_ALL_FEATURES = SMP2P_FEATURE_SSR_ACK"
definition SMP2P_VERSION_1 :: nat where "SMP2P_VERSION_1 = 1"

text \<open>The packed layout of an item; the features are the 24 bits after the version.\<close>

definition it_version :: nat where "it_version = 4"
definition it_features :: nat where "it_features = 5"
definition it_local_pid :: nat where "it_local_pid = 8"
definition it_remote_pid :: nat where "it_remote_pid = 10"
definition it_total_entries :: nat where "it_total_entries = 12"
definition it_valid_entries :: nat where "it_valid_entries = 14"
definition it_flags :: nat where "it_flags = 16"
definition it_entry :: "nat \<Rightarrow> nat" where "it_entry i = 20 + 20 * i"
definition it_value :: "nat \<Rightarrow> nat" where "it_value i = it_entry i + 16"
definition ITEM_SIZE :: nat where "ITEM_SIZE = 340"

text \<open>The array of an item has 16 entries.\<close>

definition entry_at :: "nat \<Rightarrow> nat result" where
  "entry_at i = (if i < SMP2P_MAX_ENTRY then OK (it_entry i) else UB)"

lemmas item_layout = it_version_def it_features_def it_local_pid_def it_remote_pid_def it_total_entries_def
  it_valid_entries_def it_flags_def it_entry_def it_value_def ITEM_SIZE_def

record smp2p_entry =
  se_name :: bytes
  se_value :: "smem_ptr option"
  se_last_value :: u32w
  se_irq_enabled :: u32w
  se_irq_pending :: u32w
  se_irq_rising :: u32w
  se_irq_falling :: u32w

text \<open>How the remote side is kicked: through the mailbox, or by a bit of a register.\<close>

datatype smp2p_kick = KickMbox | KickIpc nat nat

record qcom_smp2p =
  sp_in :: "smem_ptr option"
  sp_out :: "smem_ptr option"
  sp_smem_in :: nat
  sp_smem_out :: nat
  sp_valid_entries :: nat
  sp_ssr_ack_enabled :: bool
  sp_ssr_ack :: bool
  sp_negotiation_done :: bool
  sp_local_pid :: nat
  sp_remote_pid :: nat
  sp_irq :: nat
  sp_route :: smp2p_kick
  sp_inbound :: "smp2p_entry list"
  sp_outbound :: "smp2p_entry list"

text \<open>The counters of received values, with the switch that turns them on.\<close>

record oplus_smp2p_state =
  op_local_pid :: nat
  op_remote_pid :: nat
  op_val :: nat
  op_count :: u32w

record oplus_smp2p =
  op_switch :: bool
  op_list :: "oplus_smp2p_state list"

text \<open>
  A driver with the memory it shares, the kicks it gave and the interrupts it delivered (name of the
  entry and number), in order. The counters are there when the kernel is built with them.
\<close>

record smp2p =
  w_smem :: "qcom_smem option"
  w_dev :: qcom_smp2p
  w_kicks :: "smp2p_kick list"
  w_irqs :: "(bytes \<times> nat) list"
  w_oplus :: "oplus_smp2p option"

definition OPLUS_SMP2P_STATE_MAX_SIZE :: nat where "OPLUS_SMP2P_STATE_MAX_SIZE = 50"

text \<open>An access to an item: no memory or no item is a null pointer.\<close>

definition item_load :: "smp2p \<Rightarrow> smem_ptr option \<Rightarrow> nat \<Rightarrow> nat \<Rightarrow> bytes result" where
  "item_load w p d n = rbind (of_opt p) (\<lambda>q. rbind (of_opt (w_smem w)) (\<lambda>s. of_opt (sm_load s q d n)))"

definition item_get :: "smp2p \<Rightarrow> smem_ptr option \<Rightarrow> nat \<Rightarrow> nat \<Rightarrow> nat result" where
  "item_get w p d n = rbind (item_load w p d n) (\<lambda>bs. OK (le_val bs))"

definition item_store :: "smem_ptr option \<Rightarrow> nat \<Rightarrow> bytes \<Rightarrow> smp2p \<Rightarrow> smp2p result" where
  "item_store p d bs w =
     rbind (of_opt p) (\<lambda>q. rbind (of_opt (w_smem w)) (\<lambda>s. rbind (of_opt (sm_store q d bs s)) (\<lambda>s'. OK (w\<lparr>w_smem := Some s'\<rparr>))))"

definition item_put :: "smem_ptr option \<Rightarrow> nat \<Rightarrow> nat \<Rightarrow> nat \<Rightarrow> smp2p \<Rightarrow> smp2p result" where
  "item_put p d n v w = item_store p d (le_bytes n v) w"

subsection \<open>Counters\<close>

definition reset_oplus_smp2p_state :: "int \<Rightarrow> oplus_smp2p \<Rightarrow> oplus_smp2p" where
  "reset_oplus_smp2p_state switch_state st = \<lparr>op_switch = (switch_state > 0), op_list = []\<rparr>"

text \<open>
  The walk over the list: the counter that matches is increased, and the walk stops at the limit;
  \<open>len\<close> is not increased on the way. \<open>alloc\<close> tells whether a new counter can be allocated.
\<close>

fun oplus_walk :: "nat \<Rightarrow> nat \<Rightarrow> nat \<Rightarrow> nat \<Rightarrow> oplus_smp2p_state list \<Rightarrow> oplus_smp2p_state list option" where
  "oplus_walk local_pid remote_pid val len [] = None"
| "oplus_walk local_pid remote_pid val len (c # cs) =
     (if op_local_pid c = local_pid \<and> op_remote_pid c = remote_pid \<and> op_val c = val then Some (c\<lparr>op_count := op_count c + 1\<rparr> # cs)
      else if len \<ge> OPLUS_SMP2P_STATE_MAX_SIZE then Some (c # cs)
      else map_option ((#) c) (oplus_walk local_pid remote_pid val len cs))"

definition update_oplus_smp2p_state :: "bool \<Rightarrow> nat \<Rightarrow> nat \<Rightarrow> u32w \<Rightarrow> oplus_smp2p \<Rightarrow> oplus_smp2p" where
  "update_oplus_smp2p_state alloc local_pid remote_pid val st =
     (if \<not> op_switch st then st
      else
        let v = unat (drop_bit 16 val AND 0xffff) in
        case oplus_walk local_pid remote_pid v 0 (op_list st) of
          Some l \<Rightarrow> st\<lparr>op_list := l\<rparr>
        | None \<Rightarrow>
            if \<not> alloc then st
            else st\<lparr>op_list := op_list st @ [\<lparr>op_local_pid = local_pid, op_remote_pid = remote_pid, op_val = v, op_count = 1\<rparr>]\<rparr>)"

subsection \<open>Negotiation and restarts\<close>

definition qcom_smp2p_kick :: "smp2p \<Rightarrow> smp2p" where
  "qcom_smp2p_kick w = w\<lparr>w_kicks := w_kicks w @ [sp_route (w_dev w)]\<rparr>"

definition set_dev :: "(qcom_smp2p \<Rightarrow> qcom_smp2p) \<Rightarrow> smp2p \<Rightarrow> smp2p" where
  "set_dev f w = w\<lparr>w_dev := f (w_dev w)\<rparr>"

definition qcom_smp2p_check_ssr :: "smp2p \<Rightarrow> (bool \<times> smp2p) result" where
  "qcom_smp2p_check_ssr w =
     (let sp = w_dev w in
      if \<not> sp_ssr_ack_enabled sp then OK (False, w)
      else
        rbind (item_get w (sp_in sp) it_flags 4) (\<lambda>flags.
          let restart = (bit flags SMP2P_FLAGS_RESTART_DONE_BIT \<noteq> sp_ssr_ack sp) in
          if \<not> restart then OK (False, w)
          else
            rbind (item_get w (sp_in sp) it_version 1) (\<lambda>version.
              if version > SMP2P_VERSION_1 then
                OK (True, set_dev (sp_inbound_update (map (\<lambda>e. if se_value e = None then e else e\<lparr>se_last_value := 0\<rparr>))) w)
              else OK (True, w))))"

definition qcom_smp2p_do_ssr_ack :: "smp2p \<Rightarrow> smp2p result" where
  "qcom_smp2p_do_ssr_ack w =
     (let ack = (\<not> sp_ssr_ack (w_dev w)); w1 = set_dev (sp_ssr_ack_update (\<lambda>_. ack)) w in
      rbind (item_get w1 (sp_out (w_dev w1)) it_flags 4) (\<lambda>flags.
        let val = unset_bit SMP2P_FLAGS_RESTART_ACK_BIT flags;
            val1 = (if ack then set_bit SMP2P_FLAGS_RESTART_ACK_BIT val else val)
        in rbind (item_put (sp_out (w_dev w1)) it_flags 4 val1 w1) (\<lambda>w2. OK (qcom_smp2p_kick w2))))"

definition qcom_smp2p_negotiate :: "smp2p \<Rightarrow> smp2p result" where
  "qcom_smp2p_negotiate w =
     (let sp = w_dev w in
      rbind (item_get w (sp_in sp) it_version 1) (\<lambda>in_version.
      rbind (item_get w (sp_out sp) it_version 1) (\<lambda>out_version.
        if in_version \<noteq> out_version then OK w
        else
          rbind (item_get w (sp_out sp) it_features 3) (\<lambda>out_features.
          rbind (item_get w (sp_in sp) it_features 3) (\<lambda>in_features.
            let features = out_features AND in_features in
            rbind (item_put (sp_out sp) it_features 3 features w) (\<lambda>w1.
              OK (set_dev (\<lambda>sp. sp\<lparr>sp_ssr_ack_enabled := sp_ssr_ack_enabled sp \<or> features AND SMP2P_FEATURE_SSR_ACK \<noteq> 0,
                                  sp_negotiation_done := True\<rparr>) w1)))))))"

definition qcom_smp2p_in_version :: "smp2p \<Rightarrow> nat result" where
  "qcom_smp2p_in_version w =
     (case qcom_smem_get (w_smem w) (sp_remote_pid (w_dev w)) (sp_smem_in (w_dev w)) of
        Err _ \<Rightarrow> OK 0
      | UB \<Rightarrow> UB
      | OK (p, _) \<Rightarrow> item_get w (Some p) it_version 1)"

subsection \<open>Inbound entries\<close>

text \<open>
  Comparing a name of 16 bytes with a string: the comparison runs past the bytes when they have no end
  and agree with the string so far.
\<close>

fun name_eq :: "bytes \<Rightarrow> bytes \<Rightarrow> bool result" where
  "name_eq [] name = UB"
| "name_eq (b # bs) [] = OK (b = 0)"
| "name_eq (b # bs) (c # cs) = (if b \<noteq> c then OK False else name_eq bs cs)"

text \<open>The first entry with a name gets the value of an item; \<open>start\<close> also takes the value over.\<close>

fun match_entry :: "smp2p \<Rightarrow> bool \<Rightarrow> smem_ptr \<Rightarrow> nat \<Rightarrow> smp2p_entry list \<Rightarrow> smp2p_entry list result" where
  "match_entry w start p i [] = OK []"
| "match_entry w start p i (e # es) =
     rbind (entry_at i) (\<lambda>d.
     rbind (item_load w (Some p) d SMP2P_MAX_ENTRY_NAME) (\<lambda>buf.
     rbind (name_eq buf (se_name e)) (\<lambda>same.
       if same then
         let e1 = e\<lparr>se_value := Some (ptr_add p (it_value i))\<rparr> in
         if start then
           rbind (item_get w (se_value e1) 0 4) (\<lambda>v. OK (e1\<lparr>se_last_value := of_nat v\<rparr> # es))
         else OK (e1 # es)
       else rbind (match_entry w start p i es) (\<lambda>es'. OK (e # es')))))"

fun match_entries :: "smp2p \<Rightarrow> bool \<Rightarrow> smem_ptr \<Rightarrow> nat list \<Rightarrow> smp2p_entry list \<Rightarrow> smp2p_entry list result" where
  "match_entries w start p [] es = OK es"
| "match_entries w start p (i # is) es = rbind (match_entry w start p i es) (match_entries w start p is)"

text \<open>Looking at the entries the remote side has added since the last time.\<close>

definition scan_inbound :: "bool \<Rightarrow> smem_ptr \<Rightarrow> smp2p \<Rightarrow> smp2p result" where
  "scan_inbound start p w =
     (let sp = w_dev w in
      rbind (item_get w (Some p) it_valid_entries 2) (\<lambda>valid.
      rbind (match_entries w start p [sp_valid_entries sp..<valid] (sp_inbound sp)) (\<lambda>es.
        OK (set_dev (\<lambda>sp. sp\<lparr>sp_inbound := es, sp_valid_entries := max (sp_valid_entries sp) valid\<rparr>) w))))"

definition qcom_smp2p_start_in :: "smp2p \<Rightarrow> smp2p result" where
  "qcom_smp2p_start_in w =
     (case qcom_smem_get (w_smem w) (sp_remote_pid (w_dev w)) (sp_smem_in (w_dev w)) of
        Err _ \<Rightarrow> OK w
      | UB \<Rightarrow> UB
      | OK (p, _) \<Rightarrow>
          let w1 = set_dev (sp_in_update (\<lambda>_. Some p)) w in
          rbind (item_get w1 (Some p) it_version 1) (\<lambda>version.
            if version = 0 then OK w1 else scan_inbound True p w1))"

text \<open>The interrupts of an entry for a value: changed or pending bits with an edge that is wanted.\<close>

definition fires :: "smp2p_entry \<Rightarrow> u32w \<Rightarrow> u32w \<Rightarrow> nat \<Rightarrow> bool" where
  "fires e val status i =
     (bit status i \<and> (bit val i \<and> bit (se_irq_rising e) i \<or> \<not> bit val i \<and> bit (se_irq_falling e) i))"

definition notify_entry :: "smp2p_entry \<Rightarrow> u32w \<Rightarrow> smp2p_entry \<times> nat list" where
  "notify_entry e val =
     (let status = (val XOR se_last_value e) OR se_irq_pending e;
          irqs = filter (fires e val status) [0..<32]
      in (e\<lparr>se_last_value := val, se_irq_pending := fold unset_bit irqs (se_irq_pending e)\<rparr>, irqs))"

text \<open>\<open>alloc\<close> tells for which entries a counter can be allocated.\<close>

fun notify_entries :: "(nat \<Rightarrow> bool) \<Rightarrow> smp2p_entry list \<Rightarrow> smp2p \<Rightarrow> (smp2p_entry list \<times> smp2p) result" where
  "notify_entries alloc [] w = OK ([], w)"
| "notify_entries alloc (e # es) w =
     (if se_value e = None then rbind (notify_entries (\<lambda>i. alloc (Suc i)) es w) (\<lambda>(es', w'). OK (e # es', w'))
      else
        rbind (item_get w (se_value e) 0 4) (\<lambda>v.
          case notify_entry e (of_nat v) of
            (e', irqs) \<Rightarrow>
              let w1 = w\<lparr>w_irqs := w_irqs w @ map (Pair (se_name e)) irqs,
                         w_oplus := map_option (update_oplus_smp2p_state (alloc 0) (sp_local_pid (w_dev w)) (sp_remote_pid (w_dev w)) (of_nat v)) (w_oplus w)\<rparr>
              in rbind (notify_entries (\<lambda>i. alloc (Suc i)) es w1) (\<lambda>(es', w'). OK (e' # es', w'))))"

definition qcom_smp2p_notify_in :: "(nat \<Rightarrow> bool) \<Rightarrow> smp2p \<Rightarrow> smp2p result" where
  "qcom_smp2p_notify_in alloc w =
     rbind (of_opt (sp_in (w_dev w))) (\<lambda>p.
     rbind (scan_inbound False p w) (\<lambda>w1.
     rbind (notify_entries alloc (sp_inbound (w_dev w1)) w1) (\<lambda>(es, w2).
       OK (set_dev (sp_inbound_update (\<lambda>_. es)) w2))))"

text \<open>The handler after the item of the other side is known.\<close>

definition handle_intr :: "(nat \<Rightarrow> bool) \<Rightarrow> smp2p \<Rightarrow> smp2p result" where
  "handle_intr alloc w =
     rbind (if sp_negotiation_done (w_dev w) then OK w else qcom_smp2p_negotiate w) (\<lambda>w1.
       if \<not> sp_negotiation_done (w_dev w1) then OK w1
       else
         rbind (qcom_smp2p_check_ssr w1) (\<lambda>(ack_restart, w2).
         rbind (qcom_smp2p_notify_in alloc w2) (\<lambda>w3.
           if ack_restart then qcom_smp2p_do_ssr_ack w3 else OK w3)))"

definition qcom_smp2p_intr :: "(nat \<Rightarrow> bool) \<Rightarrow> smp2p \<Rightarrow> smp2p result" where
  "qcom_smp2p_intr alloc w =
     (case sp_in (w_dev w) of
        Some _ \<Rightarrow> handle_intr alloc w
      | None \<Rightarrow>
          (case qcom_smem_get (w_smem w) (sp_remote_pid (w_dev w)) (sp_smem_in (w_dev w)) of
             Err _ \<Rightarrow> OK w
           | UB \<Rightarrow> UB
           | OK (p, _) \<Rightarrow> handle_intr alloc (set_dev (sp_in_update (\<lambda>_. Some p)) w)))"

subsection \<open>The interrupt chip of an inbound entry\<close>

definition smp2p_mask_irq :: "nat \<Rightarrow> smp2p_entry \<Rightarrow> smp2p_entry" where
  "smp2p_mask_irq irq e = e\<lparr>se_irq_enabled := unset_bit irq (se_irq_enabled e)\<rparr>"

definition smp2p_unmask_irq :: "nat \<Rightarrow> smp2p_entry \<Rightarrow> smp2p_entry" where
  "smp2p_unmask_irq irq e = e\<lparr>se_irq_enabled := set_bit irq (se_irq_enabled e)\<rparr>"

text \<open>The bits of the two edges in a type are arguments, as the header that has them is not in the tree.\<close>

definition smp2p_set_irq_type :: "u32w \<Rightarrow> u32w \<Rightarrow> nat \<Rightarrow> u32w \<Rightarrow> smp2p_entry \<Rightarrow> smp2p_entry result" where
  "smp2p_set_irq_type edge_rising edge_falling irq type e =
     (if type AND (edge_rising OR edge_falling) = 0 then Err EINVAL
      else
        OK (e\<lparr>se_irq_rising := (if type AND edge_rising \<noteq> 0 then set_bit irq (se_irq_rising e) else unset_bit irq (se_irq_rising e)),
              se_irq_falling := (if type AND edge_falling \<noteq> 0 then set_bit irq (se_irq_falling e) else unset_bit irq (se_irq_falling e))\<rparr>))"

definition smp2p_retrigger_irq :: "nat \<Rightarrow> smp2p_entry \<Rightarrow> smp2p_entry" where
  "smp2p_retrigger_irq irq e = e\<lparr>se_irq_pending := set_bit irq (se_irq_pending e)\<rparr>"

definition smp2p_irq_get_irqchip_state :: "smp2p \<Rightarrow> bool \<Rightarrow> nat \<Rightarrow> smp2p_entry \<Rightarrow> bool result" where
  "smp2p_irq_get_irqchip_state w line_level irq e =
     (if \<not> line_level then Err EINVAL
      else if se_value e = None then Err ENODEV
      else rbind (item_get w (se_value e) 0 4) (\<lambda>val. OK (bit val irq)))"

text \<open>What mapping an interrupt of an entry sets up: its handler is that of level interrupts.\<close>

record irq_setup =
  iq_chip_data :: smp2p_entry
  iq_nested :: bool
  iq_noprobe :: bool
  iq_parent :: nat
  iq_disable_unlazy :: bool

definition smp2p_irq_map :: "qcom_smp2p \<Rightarrow> smp2p_entry \<Rightarrow> irq_setup" where
  "smp2p_irq_map sp e =
     \<lparr>iq_chip_data = e, iq_nested = True, iq_noprobe = True, iq_parent = sp_irq sp, iq_disable_unlazy = True\<rparr>"

subsection \<open>Outbound entries\<close>

definition smp2p_update_bits :: "smp2p_entry \<Rightarrow> u32w \<Rightarrow> u32w \<Rightarrow> smp2p \<Rightarrow> smp2p result" where
  "smp2p_update_bits e msk val_bits w =
     rbind (item_get w (se_value e) 0 4) (\<lambda>orig.
       let val = (of_nat orig AND NOT msk) OR val_bits in
       rbind (item_put (se_value e) 0 4 (unat val) w) (\<lambda>w1.
         OK (if val \<noteq> of_nat orig then qcom_smp2p_kick w1 else w1)))"

definition entry_name :: "bytes \<Rightarrow> bytes" where
  "entry_name name = take 15 name @ replicate (SMP2P_MAX_ENTRY_NAME - min 15 (length name)) 0"

text \<open>\<open>reg\<close> is the result of registering the state with the framework.\<close>

definition qcom_smp2p_outbound_entry :: "unit result \<Rightarrow> smp2p_entry \<Rightarrow> smp2p \<Rightarrow> (unit result \<times> smp2p_entry \<times> smp2p) result" where
  "qcom_smp2p_outbound_entry reg e w =
     (let out = sp_out (w_dev w) in
      rbind (of_opt out) (\<lambda>p.
      rbind (item_get w out it_valid_entries 2) (\<lambda>n.
      rbind (entry_at n) (\<lambda>d.
      rbind (item_store out d (entry_name (se_name e)) w) (\<lambda>w1.
      rbind (item_put out it_valid_entries 2 (n + 1) w1) (\<lambda>w2.
        OK (reg, e\<lparr>se_value := Some (ptr_add p (it_value n))\<rparr>, w2)))))))"

text \<open>\<open>lock\<close> is the result of taking the lock of the shared memory.\<close>

definition qcom_smp2p_alloc_outbound_item :: "unit result \<Rightarrow> smp2p \<Rightarrow> (unit result \<times> smp2p) result" where
  "qcom_smp2p_alloc_outbound_item lock w =
     (let sp = w_dev w;
          after = (\<lambda>w1.
            case qcom_smem_get (w_smem w1) (sp_remote_pid sp) (sp_smem_out sp) of
              UB \<Rightarrow> UB
            | Err e \<Rightarrow> OK (Err e, w1)
            | OK (p, _) \<Rightarrow>
                rbind (item_store (Some p) 0 (replicate ITEM_SIZE 0) w1) (\<lambda>w2.
                rbind (item_put (Some p) 0 4 SMP2P_MAGIC w2) (\<lambda>w3.
                rbind (item_put (Some p) it_local_pid 2 (sp_local_pid sp) w3) (\<lambda>w4.
                rbind (item_put (Some p) it_remote_pid 2 (sp_remote_pid sp) w4) (\<lambda>w5.
                rbind (item_put (Some p) it_total_entries 2 SMP2P_MAX_ENTRY w5) (\<lambda>w6.
                rbind (item_put (Some p) it_valid_entries 2 0 w6) (\<lambda>w7.
                rbind (item_put (Some p) it_features 3 SMP2P_ALL_FEATURES w7) (\<lambda>w8.
                rbind (qcom_smp2p_in_version w8) (\<lambda>in_version.
                rbind (item_put (Some p) it_version 1 (if in_version \<noteq> 0 then in_version else 1) w8) (\<lambda>w9.
                  OK (OK (), set_dev (sp_out_update (\<lambda>_. Some p)) (qcom_smp2p_kick w9))))))))))))
      in case qcom_smem_alloc lock (w_smem w) (sp_remote_pid sp) (sp_smem_out sp) ITEM_SIZE of
           UB \<Rightarrow> UB
         | Err e \<Rightarrow> if e = EEXIST then after w else OK (Err e, w)
         | OK s \<Rightarrow> after (w\<lparr>w_smem := Some s\<rparr>))"

subsection \<open>Probe, removal, sleep\<close>

text \<open>
  What the kernel answers for a child node: whether the entry can be allocated, its name or the error
  of reading it, whether it is an interrupt controller, and the results of adding its interrupt domain
  and of registering its state.
\<close>

record child_node =
  ch_alloc :: bool
  ch_name :: "bytes result"
  ch_inbound :: bool
  ch_domain :: bool
  ch_reg :: "unit result"

definition new_entry :: "bytes \<Rightarrow> smp2p_entry" where
  "new_entry name = \<lparr>se_name = name, se_value = None, se_last_value = 0, se_irq_enabled = 0, se_irq_pending = 0,
     se_irq_rising = 0, se_irq_falling = 0\<rparr>"

definition qcom_smp2p_inbound_entry :: "bool \<Rightarrow> unit result" where
  "qcom_smp2p_inbound_entry domain = (if domain then OK () else Err ENOMEM)"

fun probe_children :: "child_node list \<Rightarrow> smp2p \<Rightarrow> (unit result \<times> smp2p) result" where
  "probe_children [] w = OK (OK (), w)"
| "probe_children (c # cs) w =
     (if \<not> ch_alloc c then OK (Err ENOMEM, w)
      else
        case ch_name c of
          UB \<Rightarrow> UB
        | Err e \<Rightarrow> OK (Err e, w)
        | OK name \<Rightarrow>
            if ch_inbound c then
              (case qcom_smp2p_inbound_entry (ch_domain c) of
                 OK _ \<Rightarrow> probe_children cs (set_dev (sp_inbound_update ((#) (new_entry name))) w)
               | r \<Rightarrow> OK (r, w))
            else
              rbind (qcom_smp2p_outbound_entry (ch_reg c) (new_entry name) w) (\<lambda>(r, e, w').
                case r of
                  OK _ \<Rightarrow> probe_children cs (set_dev (sp_outbound_update ((#) e)) w')
                | _ \<Rightarrow> OK (r, w')))"

text \<open>
  The answers to the probe: the properties of the node, the interrupt, the mailbox or its error, the
  three steps of finding the register instead, and the results of the last steps.
\<close>

record smp2p_node =
  sn_alloc :: bool
  sn_smem :: "(nat \<times> nat) result"
  sn_local_pid :: "nat option"
  sn_remote_pid :: "nat option"
  sn_irq :: "nat result"
  sn_mbox :: "unit result"
  sn_syscon :: "unit result option"
  sn_offset :: "nat option"
  sn_bit :: "nat option"
  sn_lock :: "unit result"
  sn_children :: "child_node list"
  sn_devname :: bool
  sn_request_irq :: "unit result"
  sn_wake_irq :: "unit result"

definition smp2p_parse_ipc :: "smp2p_node \<Rightarrow> smp2p_kick result" where
  "smp2p_parse_ipc sn =
     (case sn_syscon sn of
        None \<Rightarrow> Err ENODEV
      | Some regmap \<Rightarrow>
          rbind regmap (\<lambda>_.
            case sn_offset sn of
              None \<Rightarrow> Err EINVAL
            | Some off \<Rightarrow> (case sn_bit sn of None \<Rightarrow> Err EINVAL | Some b \<Rightarrow> OK (KickIpc off b))))"

definition probe_route :: "smp2p_node \<Rightarrow> smp2p_kick result" where
  "probe_route sn =
     (case sn_mbox sn of
        OK _ \<Rightarrow> OK KickMbox
      | Err e \<Rightarrow> if e \<noteq> ENODEV then Err e else smp2p_parse_ipc sn
      | UB \<Rightarrow> UB)"

text \<open>A failed probe frees its entries and withdraws them from the item.\<close>

definition unwind :: "errno \<Rightarrow> smp2p \<Rightarrow> (unit result \<times> smp2p) result" where
  "unwind e w =
     rbind (item_put (sp_out (w_dev w)) it_valid_entries 2 0 w) (\<lambda>w1.
       OK (Err e, set_dev (\<lambda>sp. sp\<lparr>sp_inbound := [], sp_outbound := []\<rparr>) w1))"

definition probe_finish :: "smp2p_node \<Rightarrow> smp2p \<Rightarrow> (unit result \<times> smp2p) result" where
  "probe_finish sn w =
     rbind (qcom_smp2p_start_in w) (\<lambda>w1.
       let w2 = set_dev (sp_irq_update (\<lambda>_. case sn_irq sn of OK irq \<Rightarrow> irq | _ \<Rightarrow> 0)) (qcom_smp2p_kick w1) in
       if \<not> sn_devname sn then unwind ENOMEM w2
       else
         case sn_request_irq sn of
           UB \<Rightarrow> UB
         | Err e \<Rightarrow> unwind e w2
         | OK _ \<Rightarrow> (case sn_wake_irq sn of UB \<Rightarrow> UB | Err e \<Rightarrow> unwind e w2 | OK _ \<Rightarrow> OK (OK (), w2)))"

definition zero_smp2p :: "nat \<times> nat \<Rightarrow> nat \<Rightarrow> nat \<Rightarrow> smp2p_kick \<Rightarrow> qcom_smp2p" where
  "zero_smp2p items lpid rpid route =
     \<lparr>sp_in = None, sp_out = None, sp_smem_in = fst items, sp_smem_out = snd items, sp_valid_entries = 0,
      sp_ssr_ack_enabled = False, sp_ssr_ack = False, sp_negotiation_done = False, sp_local_pid = lpid, sp_remote_pid = rpid,
      sp_irq = 0, sp_route = route, sp_inbound = [], sp_outbound = []\<rparr>"

definition smp2p_probe_config :: "smp2p_node \<Rightarrow> qcom_smp2p result" where
  "smp2p_probe_config sn =
     (if \<not> sn_alloc sn then Err ENOMEM
      else
        rbind (sn_smem sn) (\<lambda>items.
          case sn_local_pid sn of
            None \<Rightarrow> Err EINVAL
          | Some lpid \<Rightarrow>
              (case sn_remote_pid sn of
                 None \<Rightarrow> Err EINVAL
               | Some rpid \<Rightarrow> rbind (sn_irq sn) (\<lambda>_. rbind (probe_route sn) (\<lambda>route. OK (zero_smp2p items lpid rpid route))))))"

definition qcom_smp2p_probe :: "smp2p_node \<Rightarrow> qcom_smem option \<Rightarrow> oplus_smp2p option \<Rightarrow> (unit result \<times> smp2p) result" where
  "qcom_smp2p_probe sn smem oplus =
     (case smp2p_probe_config sn of
        UB \<Rightarrow> UB
      | Err e \<Rightarrow> OK (Err e, \<lparr>w_smem = smem, w_dev = zero_smp2p (0, 0) 0 0 KickMbox, w_kicks = [], w_irqs = [], w_oplus = oplus\<rparr>)
      | OK sp \<Rightarrow>
          rbind (qcom_smp2p_alloc_outbound_item (sn_lock sn) \<lparr>w_smem = smem, w_dev = sp, w_kicks = [], w_irqs = [], w_oplus = oplus\<rparr>) (\<lambda>(r, w).
            case r of
              OK _ \<Rightarrow>
                rbind (probe_children (sn_children sn) w) (\<lambda>(r', w1).
                  case r' of OK _ \<Rightarrow> probe_finish sn w1 | Err e \<Rightarrow> unwind e w1 | UB \<Rightarrow> UB)
            | _ \<Rightarrow> OK (r, w)))"

definition qcom_smp2p_remove :: "smp2p \<Rightarrow> smp2p result" where
  "qcom_smp2p_remove w =
     rbind (item_put (sp_out (w_dev w)) it_valid_entries 2 0 w) (\<lambda>w1.
       OK (set_dev (\<lambda>sp. sp\<lparr>sp_inbound := [], sp_outbound := []\<rparr>) w1))"

fun restore_children :: "child_node list \<Rightarrow> smp2p \<Rightarrow> (unit result \<times> smp2p) result" where
  "restore_children [] w = OK (OK (), w)"
| "restore_children (c # cs) w =
     (if \<not> ch_alloc c then OK (Err ENOMEM, w)
      else
        case ch_name c of
          UB \<Rightarrow> UB
        | Err e \<Rightarrow> OK (Err e, w)
        | OK name \<Rightarrow>
            if ch_inbound c then restore_children cs w
            else
              rbind (qcom_smp2p_outbound_entry (ch_reg c) (new_entry name) w) (\<lambda>(r, e, w').
                case r of
                  OK _ \<Rightarrow> restore_children cs (set_dev (sp_outbound_update ((#) e)) w')
                | _ \<Rightarrow> OK (r, w')))"

definition qcom_smp2p_restore :: "unit result \<Rightarrow> child_node list \<Rightarrow> smp2p \<Rightarrow> (unit result \<times> smp2p) result" where
  "qcom_smp2p_restore lock children w =
     rbind (qcom_smp2p_alloc_outbound_item lock w) (\<lambda>(r, w1).
       case r of
         OK _ \<Rightarrow>
           rbind (restore_children children w1) (\<lambda>(r', w2).
             case r' of OK _ \<Rightarrow> OK (OK (), qcom_smp2p_kick w2) | _ \<Rightarrow> OK (r', w2))
       | _ \<Rightarrow> OK (r, w1))"

definition qcom_smp2p_freeze :: "smp2p \<Rightarrow> smp2p" where
  "qcom_smp2p_freeze w =
     set_dev (\<lambda>sp. sp\<lparr>sp_outbound := [], sp_inbound := map (se_last_value_update (\<lambda>_. 0)) (sp_inbound sp),
                      sp_in := None, sp_valid_entries := 0\<rparr>) w"

end
