(* ===== verification/Smp2p_Item.thy ===== *)
theory Smp2p_Item
  imports Smp2p
begin

text \<open>
  Accesses to items in shared memory: every window is a byte memory, a write is seen at its place and
  nowhere else. On top of this, what the items of a driver have to look like and the behaviour of the
  loops over the entries.
\<close>

subsection \<open>Windows are byte memories\<close>

lemma win_mem_set:
  assumes "length m = length (win_mem w s)" shows "win_mem w (set_win w m s) = m"
  using assms by (cases w) (auto split: if_splits)

lemma win_mem_set_other: "w \<noteq> w' \<Longrightarrow> win_mem w' (set_win w m s) = win_mem w' s"
  by (cases w; cases w') (auto simp: nth_list_update)

interpretation wm: byte_memory "win_load w" "win_store w" "\<lambda>s. length (win_mem w s)" for w
proof (unfold_locales, goal_cases)
  case (1 m p n) show ?case by (simp add: win_load_def load_def)
next
  case (2 m p d) show ?case by (simp add: win_store_def store_def)
next
  case (3 m p n bs) then show ?case using bm.ld_length by (simp add: win_load_def)
next
  case (4 m p d m') then show ?case by (auto simp: win_store_def win_mem_set dest: store_length)
next
  case (5 m p d m')
  then obtain z where z: "store (win_mem w m) p d = Some z" "m' = set_win w z m" by (auto simp: win_store_def)
  then show ?case using bm.ld_st_same [OF z(1)] store_length [OF z(1)] by (simp add: win_load_def win_mem_set)
next
  case (6 m p d m' q n)
  then obtain z where z: "store (win_mem w m) p d = Some z" "m' = set_win w z m" by (auto simp: win_store_def)
  then show ?case using load_store_other [OF z(1) 6(2)] store_length [OF z(1)] by (simp add: win_load_def win_mem_set)
qed

subsection \<open>Places\<close>

definition room :: "qcom_smem \<Rightarrow> smem_ptr \<Rightarrow> nat \<Rightarrow> bool" where
  "room s p n \<longleftrightarrow> ptr_off p + n \<le> length (win_mem (ptr_win p) s)"

definition separate :: "smem_ptr \<Rightarrow> nat \<Rightarrow> nat \<Rightarrow> smem_ptr \<Rightarrow> nat \<Rightarrow> nat \<Rightarrow> bool" where
  "separate p d n q e k \<longleftrightarrow>
     ptr_win p \<noteq> ptr_win q \<or> ptr_off p + d + n \<le> ptr_off q + e \<or> ptr_off q + e + k \<le> ptr_off p + d"

definition sm_num :: "qcom_smem \<Rightarrow> smem_ptr \<Rightarrow> nat \<Rightarrow> nat \<Rightarrow> nat option" where
  "sm_num s p d n = map_option le_val (sm_load s p d n)"

lemma ptr_add_simps [simp]: "ptr_win (ptr_add p d) = ptr_win p" "ptr_off (ptr_add p d) = ptr_off p + d"
  by (cases p; simp)+

lemma sm_load_add [simp]: "sm_load s (ptr_add p d) e n = sm_load s p (d + e) n"
  by (simp add: sm_load_def add.assoc)

lemma sm_num_add [simp]: "sm_num s (ptr_add p d) e n = sm_num s p (d + e) n"
  by (simp add: sm_num_def)

lemma sm_load_room: "room s p k \<Longrightarrow> d + n \<le> k \<Longrightarrow> \<exists>bs. sm_load s p d n = Some bs \<and> length bs = n"
  using wm.ld_defined [of "ptr_win p" s "ptr_off p + d" n] wm.ld_length [of "ptr_win p" s "ptr_off p + d" n]
  by (cases "sm_load s p d n") (auto simp: room_def sm_load_def)

lemma sm_num_room: "room s p k \<Longrightarrow> d + n \<le> k \<Longrightarrow> \<exists>v. sm_num s p d n = Some v \<and> v < 256 ^ n"
  using sm_load_room [of s p k d n] le_val_less by (fastforce simp: sm_num_def)

lemma sm_store_room: "room s p k \<Longrightarrow> d + length bs \<le> k \<Longrightarrow> \<exists>s'. sm_store p d bs s = Some s'"
  using wm.st_defined [of "ptr_win p" s "ptr_off p + d" bs] by (auto simp: room_def sm_store_def)

lemma sm_store_length:
  assumes "sm_store p d bs s = Some s'" shows "length (win_mem w s') = length (win_mem w s)"
  using assms wm.st_msize [of "ptr_win p" s "ptr_off p + d" bs s']
  by (cases "ptr_win p = w") (auto simp: sm_store_def win_store_def win_mem_set_other)

lemma sm_store_keeps_room: "sm_store p d bs s = Some s' \<Longrightarrow> room s' q n = room s q n"
  by (simp add: room_def sm_store_length)

lemma sm_load_store_same: "sm_store p d bs s = Some s' \<Longrightarrow> sm_load s' p d (length bs) = Some bs"
  by (simp add: sm_store_def sm_load_def wm.ld_st_same)

lemma sm_load_store_other:
  assumes "sm_store q e bs s = Some s'" "separate p d n q e (length bs)"
  shows "sm_load s' p d n = sm_load s p d n"
proof (cases "ptr_win p = ptr_win q")
  case True
  then show ?thesis
    using assms wm.ld_st_other [of "ptr_win q" s "ptr_off q + e" bs s' "ptr_off p + d" n]
    by (auto simp: sm_store_def sm_load_def separate_def)
next
  case False
  then show ?thesis using assms(1) by (auto simp: sm_store_def sm_load_def win_store_def win_load_def win_mem_set_other)
qed

lemma sm_num_store_same: "sm_store p d (le_bytes n v) s = Some s' \<Longrightarrow> sm_num s' p d n = Some (v mod 256 ^ n)"
  using sm_load_store_same [of p d "le_bytes n v" s s'] by (simp add: sm_num_def)

lemma sm_num_store_other:
  "sm_store q e bs s = Some s' \<Longrightarrow> separate p d n q e (length bs) \<Longrightarrow> sm_num s' p d n = sm_num s p d n"
  by (simp add: sm_num_def sm_load_store_other)

lemma separate_within: "separate p 0 a q 0 b \<Longrightarrow> d + n \<le> a \<Longrightarrow> e + k \<le> b \<Longrightarrow> separate p d n q e k"
  by (auto simp: separate_def)

lemma separate_self: "d + n \<le> e \<or> e + k \<le> d \<Longrightarrow> separate p d n p e k"
  by (auto simp: separate_def)

subsection \<open>Accesses of a driver\<close>

lemma item_get_Some [simp]: "item_get w (Some p) d n = rbind (of_opt (w_smem w)) (\<lambda>s. of_opt (sm_num s p d n))"
  by (cases "w_smem w") (auto simp: item_get_def item_load_def sm_num_def of_opt_def split: option.splits)

lemma item_load_Some [simp]: "item_load w (Some p) d n = rbind (of_opt (w_smem w)) (\<lambda>s. of_opt (sm_load s p d n))"
  by (simp add: item_load_def)

lemma item_store_Some [simp]:
  "item_store (Some p) d bs w = rbind (of_opt (w_smem w)) (\<lambda>s. rbind (of_opt (sm_store p d bs s)) (\<lambda>s'. OK (w\<lparr>w_smem := Some s'\<rparr>)))"
  by (simp add: item_store_def)

lemma set_dev_simps [simp]:
  "w_dev (set_dev f w) = f (w_dev w)" "w_smem (set_dev f w) = w_smem w" "w_kicks (set_dev f w) = w_kicks w"
  "w_irqs (set_dev f w) = w_irqs w" "w_oplus (set_dev f w) = w_oplus w"
  by (simp_all add: set_dev_def)

lemma kick_simps [simp]:
  "w_dev (qcom_smp2p_kick w) = w_dev w" "w_smem (qcom_smp2p_kick w) = w_smem w" "w_irqs (qcom_smp2p_kick w) = w_irqs w"
  "w_oplus (qcom_smp2p_kick w) = w_oplus w" "w_kicks (qcom_smp2p_kick w) = w_kicks w @ [sp_route (w_dev w)]"
  by (simp_all add: qcom_smp2p_kick_def)

subsection \<open>Names\<close>

lemma name_eq_OK: "0 \<in> set buf \<Longrightarrow> 0 \<notin> set name \<Longrightarrow> \<exists>b. name_eq buf name = OK b"
  by (induction buf name rule: name_eq.induct) auto

lemma name_eq_entry_name:
  assumes "0 \<notin> set name" "length name < SMP2P_MAX_ENTRY_NAME" "0 \<notin> set name'"
  shows "name_eq (entry_name name) name' = OK (name = name')"
proof -
  have "name_eq (nm @ replicate (Suc k) 0) name' = OK (nm = name')" if "0 \<notin> set nm" for nm k
    using that assms(3) by (induction "nm @ replicate (Suc k) 0" name' arbitrary: nm rule: name_eq.induct) (auto simp: Cons_eq_append_conv)
  moreover have "entry_name name = name @ replicate (Suc (15 - length name)) 0"
    using assms(2) by (simp add: entry_name_def SMP2P_MAX_ENTRY_NAME_def Suc_diff_le [symmetric] del: replicate_Suc)
  ultimately show ?thesis using assms(1) by (simp del: replicate_Suc)
qed

subsection \<open>Well-formed items\<close>

definition terminated :: "qcom_smem \<Rightarrow> smem_ptr \<Rightarrow> nat \<Rightarrow> bool" where
  "terminated s p i = (case sm_load s p (it_entry i) SMP2P_MAX_ENTRY_NAME of Some buf \<Rightarrow> 0 \<in> set buf | None \<Rightarrow> False)"

text \<open>An inbound item: room for it, at most 16 entries, and names with an end.\<close>

definition in_ok :: "qcom_smem \<Rightarrow> smem_ptr \<Rightarrow> bool" where
  "in_ok s p \<longleftrightarrow> room s p ITEM_SIZE \<and>
     (case sm_num s p it_valid_entries 2 of Some v \<Rightarrow> v \<le> SMP2P_MAX_ENTRY \<and> (\<forall>i < v. terminated s p i) | None \<Rightarrow> False)"

definition entries_ok :: "qcom_smem \<Rightarrow> smp2p_entry list \<Rightarrow> bool" where
  "entries_ok s es \<longleftrightarrow> (\<forall>e \<in> set es. 0 \<notin> set (se_name e) \<and> (case se_value e of Some v \<Rightarrow> room s v 4 | None \<Rightarrow> True))"

lemma it_entry_within: "i < 16 \<Longrightarrow> it_entry i + 20 \<le> ITEM_SIZE"
  by (simp add: item_layout)

lemma value_room: "room s p ITEM_SIZE \<Longrightarrow> i < 16 \<Longrightarrow> room s (ptr_add p (it_value i)) 4"
  using it_entry_within [of i] by (simp add: room_def it_value_def)

lemma in_ok_store_apart:
  assumes "in_ok s p" "sm_store q d bs s = Some s'" "separate p 0 ITEM_SIZE q d (length bs)"
  shows "in_ok s' p"
proof -
  have k: "sm_load s' p e n = sm_load s p e n" if "e + n \<le> ITEM_SIZE" for e n
    using sm_load_store_other [OF assms(2)] assms(3) that by (auto simp: separate_def)
  have v: "sm_num s' p it_valid_entries 2 = sm_num s p it_valid_entries 2" by (simp add: sm_num_def k item_layout)
  have "terminated s' p i = terminated s p i" if "i < 16" for i
    using k [of "it_entry i" 16] it_entry_within [OF that] by (simp add: terminated_def SMP2P_MAX_ENTRY_NAME_def)
  then show ?thesis
    using assms(1) v sm_store_keeps_room [OF assms(2)] by (auto simp: in_ok_def SMP2P_MAX_ENTRY_def split: option.splits)
qed

text \<open>Writing the value of an entry changes neither the header nor a name.\<close>

lemma in_ok_store_value:
  assumes "in_ok s p" "sm_store (ptr_add p (it_value i)) 0 bs s = Some s'" "length bs = 4"
  shows "in_ok s' p"
proof -
  have st: "sm_store p (it_value i) bs s = Some s'" using assms(2) by (simp add: sm_store_def)
  have v: "sm_num s' p it_valid_entries 2 = sm_num s p it_valid_entries 2"
    using assms(3) by (intro sm_num_store_other [OF st] separate_self) (simp add: item_layout)
  have "sm_load s' p (it_entry j) 16 = sm_load s p (it_entry j) 16" for j
    using assms(3) by (intro sm_load_store_other [OF st] separate_self) (auto simp: item_layout)
  then have "terminated s' p j = terminated s p j" for j by (simp add: terminated_def SMP2P_MAX_ENTRY_NAME_def)
  then show ?thesis
    using assms(1) v sm_store_keeps_room [OF assms(2)] by (auto simp: in_ok_def split: option.splits)
qed

lemma entries_ok_store: "sm_store p d bs s = Some s' \<Longrightarrow> entries_ok s' es = entries_ok s es"
  by (simp add: entries_ok_def sm_store_keeps_room cong: option.case_cong)

subsection \<open>Matching entries\<close>

lemma match_entry_OK:
  assumes "w_smem w = Some s" "room s p ITEM_SIZE" "i < 16" "terminated s p i"
  shows "entries_ok s es \<Longrightarrow> \<exists>es'. match_entry w start p i es = OK es' \<and> entries_ok s es'"
proof (induction es)
  case (Cons e es)
  obtain buf where buf: "sm_load s p (it_entry i) 16 = Some buf" "0 \<in> set buf"
    using assms(4) by (auto simp: terminated_def SMP2P_MAX_ENTRY_NAME_def split: option.splits)
  obtain b where b: "name_eq buf (se_name e) = OK b" using name_eq_OK [OF buf(2)] Cons.prems by (auto simp: entries_ok_def)
  obtain es' where es': "match_entry w start p i es = OK es'" "entries_ok s es'" using Cons by (auto simp: entries_ok_def)
  obtain v where v: "sm_num s p (it_value i) 4 = Some v"
    using sm_num_room [OF value_room [OF assms(2,3)], of 0 4] by auto
  show ?case
    using Cons.prems assms(1,3) buf(1) b es' v value_room [OF assms(2,3)]
    by (auto simp: entries_ok_def entry_at_def SMP2P_MAX_ENTRY_def SMP2P_MAX_ENTRY_NAME_def Let_def)
qed (simp add: entries_ok_def)

lemma match_entries_OK:
  assumes "w_smem w = Some s" "room s p ITEM_SIZE"
  shows "\<forall>i \<in> set is. i < 16 \<and> terminated s p i \<Longrightarrow> entries_ok s es \<Longrightarrow>
    \<exists>es'. match_entries w start p is es = OK es' \<and> entries_ok s es'"
proof (induction "is" arbitrary: es)
  case (Cons i "is")
  then show ?case using match_entry_OK [OF assms, of i es start] by fastforce
qed simp

lemma scan_inbound_OK:
  assumes "w_smem w = Some s" "in_ok s p" "entries_ok s (sp_inbound (w_dev w))"
  shows "\<exists>es n. scan_inbound start p w = OK (set_dev (\<lambda>sp. sp\<lparr>sp_inbound := es, sp_valid_entries := n\<rparr>) w) \<and> entries_ok s es"
proof -
  obtain v where v: "sm_num s p it_valid_entries 2 = Some v" "v \<le> 16" "\<forall>i < v. terminated s p i"
    using assms(2) by (auto simp: in_ok_def SMP2P_MAX_ENTRY_def split: option.splits)
  have "\<exists>es. match_entries w start p [sp_valid_entries (w_dev w)..<v] (sp_inbound (w_dev w)) = OK es \<and> entries_ok s es"
    using match_entries_OK [OF assms(1) _ _ assms(3)] v assms(2) by (simp add: in_ok_def)
  then show ?thesis using assms(1) v(1) by (force simp: scan_inbound_def Let_def set_dev_def)
qed

text \<open>Nothing new to look at: the scan changes nothing.\<close>

lemma scan_inbound_none:
  assumes "w_smem w = Some s" "sm_num s p it_valid_entries 2 = Some v" "v \<le> sp_valid_entries (w_dev w)"
  shows "scan_inbound start p w = OK w"
  using assms by (simp add: scan_inbound_def set_dev_def Let_def)

subsection \<open>Notifications\<close>

definition cell :: "qcom_smem \<Rightarrow> smem_ptr \<Rightarrow> u32w" where
  "cell s v = of_nat (case sm_num s v 0 4 of Some x \<Rightarrow> x | None \<Rightarrow> 0)"

definition received :: "qcom_smem \<Rightarrow> smp2p_entry \<Rightarrow> smp2p_entry" where
  "received s e = (case se_value e of None \<Rightarrow> e | Some v \<Rightarrow> fst (notify_entry e (cell s v)))"

definition deliveries :: "qcom_smem \<Rightarrow> smp2p_entry \<Rightarrow> (bytes \<times> nat) list" where
  "deliveries s e = (case se_value e of None \<Rightarrow> [] | Some v \<Rightarrow> map (Pair (se_name e)) (snd (notify_entry e (cell s v))))"

lemma notify_entries_spec:
  assumes "w_smem w = Some s" "entries_ok s es"
  shows "\<exists>opl. notify_entries alloc es w =
    OK (map (received s) es, w\<lparr>w_irqs := w_irqs w @ concat (map (deliveries s) es), w_oplus := opl\<rparr>)"
  using assms
proof (induction es arbitrary: w alloc)
  case (Cons e es)
  show ?case
  proof (cases "se_value e")
    case None
    with Cons.IH [of w "\<lambda>i. alloc (Suc i)"] Cons.prems show ?thesis
      by (auto simp: entries_ok_def received_def deliveries_def)
  next
    case (Some v)
    then obtain x where x: "sm_num s v 0 4 = Some x" using Cons.prems(2) sm_num_room [of s v 4 0 4] by (auto simp: entries_ok_def)
    obtain e' irqs where n: "notify_entry e (of_nat x) = (e', irqs)" by fastforce
    let ?w = "w\<lparr>w_irqs := w_irqs w @ map (Pair (se_name e)) irqs,
      w_oplus := map_option (update_oplus_smp2p_state (alloc 0) (sp_local_pid (w_dev w)) (sp_remote_pid (w_dev w)) (of_nat x)) (w_oplus w)\<rparr>"
    obtain opl where "notify_entries (\<lambda>i. alloc (Suc i)) es ?w =
        OK (map (received s) es, ?w\<lparr>w_irqs := w_irqs ?w @ concat (map (deliveries s) es), w_oplus := opl\<rparr>)"
      using Cons.IH [of ?w "\<lambda>i. alloc (Suc i)"] Cons.prems by (auto simp: entries_ok_def)
    moreover have "received s e = e'" "deliveries s e = map (Pair (se_name e)) irqs"
      using Some x n by (simp_all add: received_def deliveries_def cell_def)
    ultimately show ?thesis using Some x n Cons.prems(1) by (auto simp: Let_def)
  qed
next
  case Nil
  then show ?case by (auto intro!: exI [of _ "w_oplus w"])
qed

lemma received_simps [simp]: "se_name (received s e) = se_name e" "se_value (received s e) = se_value e"
  by (auto simp: received_def notify_entry_def Let_def split: option.splits)

lemma entries_ok_received [simp]: "entries_ok s (map (received s') es) = entries_ok s es"
  by (simp add: entries_ok_def)

lemma notify_in_spec:
  assumes "w_smem w = Some s" "sp_in (w_dev w) = Some p" "in_ok s p" "entries_ok s (sp_inbound (w_dev w))"
  shows "\<exists>es n opl irqs. qcom_smp2p_notify_in alloc w =
      OK (set_dev (\<lambda>sp. sp\<lparr>sp_inbound := es, sp_valid_entries := n\<rparr>) (w\<lparr>w_irqs := irqs, w_oplus := opl\<rparr>)) \<and> entries_ok s es"
proof -
  obtain es n where sc: "scan_inbound False p w = OK (set_dev (\<lambda>sp. sp\<lparr>sp_inbound := es, sp_valid_entries := n\<rparr>) w)" "entries_ok s es"
    using scan_inbound_OK [OF assms(1,3,4)] by blast
  let ?w = "set_dev (\<lambda>sp. sp\<lparr>sp_inbound := es, sp_valid_entries := n\<rparr>) w"
  obtain opl where "notify_entries alloc es ?w =
      OK (map (received s) es, ?w\<lparr>w_irqs := w_irqs ?w @ concat (map (deliveries s) es), w_oplus := opl\<rparr>)"
    using notify_entries_spec [of ?w s es alloc] sc(2) assms(1) by auto
  then have "qcom_smp2p_notify_in alloc w = OK (set_dev (\<lambda>sp. sp\<lparr>sp_inbound := map (received s) es, sp_valid_entries := n\<rparr>)
      (w\<lparr>w_irqs := w_irqs w @ concat (map (deliveries s) es), w_oplus := opl\<rparr>))"
    using sc(1) assms(2) by (simp add: qcom_smp2p_notify_in_def set_dev_def)
  then show ?thesis using sc(2) entries_ok_received by blast
qed

end
