(* ===== verification/Smp2p_Props.thy ===== *)
theory Smp2p_Props
  imports Smp2p_Item
begin

text \<open>
  The properties of the point-to-point signals: handling an interrupt is safe, a signal written by one
  side is delivered on the other, restarts are acknowledged, and the outbound item of a new driver.
\<close>

subsection \<open>A connected driver\<close>

definition connected :: "smp2p \<Rightarrow> qcom_smem \<Rightarrow> smem_ptr \<Rightarrow> smem_ptr \<Rightarrow> bool" where
  "connected w s p q \<longleftrightarrow>
     w_smem w = Some s \<and> sp_in (w_dev w) = Some p \<and> sp_out (w_dev w) = Some q \<and> room s q ITEM_SIZE \<and>
     entries_ok s (sp_inbound (w_dev w)) \<and> in_ok s p \<and> separate p 0 ITEM_SIZE q 0 ITEM_SIZE"

lemma connectedD:
  assumes "connected w s p q"
  shows "w_smem w = Some s" "sp_in (w_dev w) = Some p" "sp_out (w_dev w) = Some q" "room s q ITEM_SIZE"
    "entries_ok s (sp_inbound (w_dev w))" "in_ok s p" "separate p 0 ITEM_SIZE q 0 ITEM_SIZE" "room s p ITEM_SIZE"
  using assms by (auto simp: connected_def in_ok_def)

lemma in_field: "connected w s p q \<Longrightarrow> d + n \<le> ITEM_SIZE \<Longrightarrow> \<exists>v. sm_num s p d n = Some v \<and> v < 256 ^ n"
  by (rule sm_num_room) (auto dest: connectedD)

lemma out_field: "connected w s p q \<Longrightarrow> d + n \<le> ITEM_SIZE \<Longrightarrow> \<exists>v. sm_num s q d n = Some v \<and> v < 256 ^ n"
  by (rule sm_num_room) (auto dest: connectedD)

text \<open>A write into the outbound item keeps the connection and the inbound item.\<close>

lemma out_store:
  assumes "connected w s p q" "d + length bs \<le> ITEM_SIZE"
  obtains s' where "sm_store q d bs s = Some s'" "connected (w\<lparr>w_smem := Some s'\<rparr>) s' p q"
    "\<And>e n. e + n \<le> ITEM_SIZE \<Longrightarrow> sm_num s' p e n = sm_num s p e n"
proof -
  note c = connectedD [OF assms(1)]
  obtain s' where s': "sm_store q d bs s = Some s'" using sm_store_room [OF c(4) assms(2)] by blast
  have "separate p 0 ITEM_SIZE q d (length bs)" using separate_within [OF c(7)] assms(2) by simp
  then have "in_ok s' p" using in_ok_store_apart [OF c(6) s'] by simp
  then have "connected (w\<lparr>w_smem := Some s'\<rparr>) s' p q"
    using c entries_ok_store [OF s'] sm_store_keeps_room [OF s'] by (simp add: connected_def)
  moreover have "sm_num s' p e n = sm_num s p e n" if "e + n \<le> ITEM_SIZE" for e n
    using sm_num_store_other [OF s'] separate_within [OF c(7) that assms(2)] by simp
  ultimately show ?thesis using that s' by blast
qed

lemma negotiate_spec:
  assumes "connected w s p q"
  shows "\<exists>w' s'. qcom_smp2p_negotiate w = OK w' \<and> connected w' s' p q"
proof -
  note c = connectedD [OF assms]
  have within: "it_version + 1 \<le> ITEM_SIZE" "it_features + 3 \<le> ITEM_SIZE" by (simp_all add: item_layout)
  obtain iv ov fi fo where f: "sm_num s p it_version 1 = Some iv" "sm_num s q it_version 1 = Some ov"
      "sm_num s p it_features 3 = Some fi" "sm_num s q it_features 3 = Some fo"
    using in_field [OF assms within(1)] out_field [OF assms within(1)] in_field [OF assms within(2)] out_field [OF assms within(2)] by auto
  obtain s' where s': "sm_store q it_features (le_bytes 3 (fo AND fi)) s = Some s'" "connected (w\<lparr>w_smem := Some s'\<rparr>) s' p q"
    using out_store [OF assms, of it_features "le_bytes 3 (fo AND fi)"] within(2) by (metis length_le_bytes)
  show ?thesis
    using c f s' assms by (auto simp: qcom_smp2p_negotiate_def item_put_def Let_def connected_def)
qed

lemma set_inbound_same: "set_dev (sp_inbound_update (\<lambda>_. sp_inbound (w_dev w))) w = w"
  by (simp add: set_dev_def)

lemma set_inbound_map:
  "set_dev (sp_inbound_update f) w = set_dev (sp_inbound_update (\<lambda>_. f (sp_inbound (w_dev w)))) w"
proof -
  have "sp_inbound_update f d = sp_inbound_update (\<lambda>_. f (sp_inbound d)) d" for d :: qcom_smp2p
    by (rule qcom_smp2p.equality) simp_all
  then show ?thesis by (simp only: set_dev_def)
qed

lemma check_ssr_cases:
  assumes "w_smem w = Some s" "sp_in (w_dev w) = Some p" "sm_num s p it_flags 4 = Some flags" "sm_num s p it_version 1 = Some v"
    and "b = (sp_ssr_ack_enabled (w_dev w) \<and> bit flags 0 \<noteq> sp_ssr_ack (w_dev w))"
  shows "qcom_smp2p_check_ssr w = OK (b, if b \<and> v > SMP2P_VERSION_1
    then set_dev (sp_inbound_update (map (\<lambda>e. if se_value e = None then e else e\<lparr>se_last_value := 0\<rparr>))) w else w)"
proof -
  have g: "item_get w (sp_in (w_dev w)) it_flags 4 = OK flags" "item_get w (sp_in (w_dev w)) it_version 1 = OK v"
    using assms(1-4) by simp_all
  show ?thesis
    unfolding qcom_smp2p_check_ssr_def Let_def g rbind.simps SMP2P_FLAGS_RESTART_DONE_BIT_def assms(5)
    by (simp only: if_True if_False split: if_split) blast
qed

lemma check_ssr_spec:
  assumes "connected w s p q" "sm_num s p it_flags 4 = Some flags"
  shows "\<exists>es. qcom_smp2p_check_ssr w = OK (sp_ssr_ack_enabled (w_dev w) \<and> bit flags 0 \<noteq> sp_ssr_ack (w_dev w), set_dev (sp_inbound_update (\<lambda>_. es)) w) \<and>
    entries_ok s es"
proof -
  obtain v where v: "sm_num s p it_version 1 = Some v" using in_field [OF assms(1), of it_version 1] by (auto simp: item_layout)
  define f where "f = map (\<lambda>e :: smp2p_entry. if se_value e = None then e else e\<lparr>se_last_value := 0\<rparr>)"
  note c = connectedD(1,2,5) [OF assms(1)]
  note eq = check_ssr_cases [OF c(1,2) assms(2) v refl, folded f_def]
  have es: "entries_ok s (f (sp_inbound (w_dev w)))" using c(3) by (auto simp: entries_ok_def f_def)
  show ?thesis
  proof (cases "(sp_ssr_ack_enabled (w_dev w) \<and> bit flags 0 \<noteq> sp_ssr_ack (w_dev w)) \<and> v > SMP2P_VERSION_1")
    case True
    show ?thesis
      by (rule exI [of _ "f (sp_inbound (w_dev w))"], intro conjI es)
        (simp only: eq if_P [OF True] set_inbound_map [of f w])
  next
    case False
    show ?thesis
      by (rule exI [of _ "sp_inbound (w_dev w)"], intro conjI c(3)) (simp only: eq if_not_P [OF False] set_inbound_same)
  qed
qed

lemma bit_mod_u32: "k < 32 \<Longrightarrow> bit (v mod 256 ^ 4 :: nat) k = bit v k"
  using bit_take_bit_iff [of 32 v k] by (simp add: take_bit_eq_mod)

lemma do_ssr_ack_spec:
  assumes "connected w s p q"
  shows "\<exists>w' s' flags. qcom_smp2p_do_ssr_ack w = OK w' \<and> connected w' s' p q \<and> sm_num s' q it_flags 4 = Some flags \<and>
    bit flags 1 = (\<not> sp_ssr_ack (w_dev w)) \<and> w_dev w' = (w_dev w)\<lparr>sp_ssr_ack := \<not> sp_ssr_ack (w_dev w)\<rparr> \<and>
    w_kicks w' = w_kicks w @ [sp_route (w_dev w)] \<and> w_irqs w' = w_irqs w \<and> sm_num s' p it_flags 4 = sm_num s p it_flags 4"
proof -
  have within: "it_flags + 4 \<le> ITEM_SIZE" by (simp add: item_layout)
  obtain f where f: "sm_num s q it_flags 4 = Some f" using out_field [OF assms within] by auto
  let ?v = "if \<not> sp_ssr_ack (w_dev w) then set_bit 1 (unset_bit 1 f) else unset_bit 1 f"
  obtain s' where s': "sm_store q it_flags (le_bytes 4 ?v) s = Some s'" "connected (w\<lparr>w_smem := Some s'\<rparr>) s' p q"
      "sm_num s' p it_flags 4 = sm_num s p it_flags 4"
    using out_store [OF assms, of it_flags "le_bytes 4 ?v"] within by (metis length_le_bytes)
  have "bit ?v 1 = (\<not> sp_ssr_ack (w_dev w))" by (auto simp: bit_set_bit_iff bit_unset_bit_iff)
  then show ?thesis
    using connectedD [OF assms] f s' sm_num_store_same [OF s'(1)] bit_mod_u32 [of 1 ?v]
    by (auto simp: qcom_smp2p_do_ssr_ack_def item_put_def Let_def SMP2P_FLAGS_RESTART_ACK_BIT_def connected_def)
qed

subsection \<open>Handling an interrupt\<close>

lemma notify_in_connected:
  assumes "connected w s p q"
  shows "\<exists>w'. qcom_smp2p_notify_in alloc w = OK w' \<and> connected w' s p q \<and>
    sp_ssr_ack (w_dev w') = sp_ssr_ack (w_dev w) \<and> sp_route (w_dev w') = sp_route (w_dev w) \<and> w_kicks w' = w_kicks w"
  using notify_in_spec [of w s p alloc] connectedD [OF assms] by (auto simp: connected_def)

text \<open>The handler of a connected driver after negotiation: the acknowledgement follows the restart flag.\<close>

lemma handle_intr_negotiated:
  assumes "connected w s p q" "sp_negotiation_done (w_dev w)" "sm_num s p it_flags 4 = Some flags"
  shows "\<exists>w' s'. handle_intr alloc w = OK w' \<and> connected w' s' p q \<and> sm_num s' p it_flags 4 = Some flags \<and>
    (if sp_ssr_ack_enabled (w_dev w) \<and> bit flags 0 \<noteq> sp_ssr_ack (w_dev w)
     then sp_ssr_ack (w_dev w') = bit flags 0 \<and> w_kicks w' = w_kicks w @ [sp_route (w_dev w)] \<and>
       (\<exists>out. sm_num s' q it_flags 4 = Some out \<and> bit out 1 = bit flags 0)
     else sp_ssr_ack (w_dev w') = sp_ssr_ack (w_dev w) \<and> w_kicks w' = w_kicks w \<and> s' = s)"
proof -
  let ?r = "sp_ssr_ack_enabled (w_dev w) \<and> bit flags 0 \<noteq> sp_ssr_ack (w_dev w)"
  obtain es where ssr: "qcom_smp2p_check_ssr w = OK (?r, set_dev (sp_inbound_update (\<lambda>_. es)) w)" "entries_ok s es"
    using check_ssr_spec [OF assms(1,3)] by blast
  let ?w = "set_dev (sp_inbound_update (\<lambda>_. es)) w"
  have "connected ?w s p q" using assms(1) ssr(2) by (simp add: connected_def)
  then obtain w1 where w1: "qcom_smp2p_notify_in alloc ?w = OK w1" "connected w1 s p q"
      "sp_ssr_ack (w_dev w1) = sp_ssr_ack (w_dev w)" "sp_route (w_dev w1) = sp_route (w_dev w)" "w_kicks w1 = w_kicks w"
    using notify_in_connected [of ?w s p q alloc] by auto
  show ?thesis
  proof (cases ?r)
    case True
    obtain w' s' out where a: "qcom_smp2p_do_ssr_ack w1 = OK w'" "connected w' s' p q" "sm_num s' q it_flags 4 = Some out"
        "bit out 1 = (\<not> sp_ssr_ack (w_dev w1))" "w_dev w' = (w_dev w1)\<lparr>sp_ssr_ack := \<not> sp_ssr_ack (w_dev w1)\<rparr>"
        "w_kicks w' = w_kicks w1 @ [sp_route (w_dev w1)]" "sm_num s' p it_flags 4 = sm_num s p it_flags 4"
      using do_ssr_ack_spec [OF w1(2)] by blast
    show ?thesis
      using True a w1 ssr(1) assms(2,3) by (intro exI [of _ w'] exI [of _ s']) (auto simp: handle_intr_def)
  next
    case False
    with w1 ssr(1) assms(2,3) show ?thesis by (auto simp: handle_intr_def)
  qed
qed

lemma handle_intr_connected:
  assumes "connected w s p q" shows "\<exists>w' s'. handle_intr alloc w = OK w' \<and> connected w' s' p q"
proof (cases "sp_negotiation_done (w_dev w)")
  case True
  then show ?thesis using handle_intr_negotiated [OF assms] in_field [OF assms, of it_flags 4] by (fastforce simp: item_layout)
next
  case False
  obtain w1 s1 where n: "qcom_smp2p_negotiate w = OK w1" "connected w1 s1 p q" using negotiate_spec [OF assms] by blast
  show ?thesis
  proof (cases "sp_negotiation_done (w_dev w1)")
    case True
    obtain flags where "sm_num s1 p it_flags 4 = Some flags" using in_field [OF n(2), of it_flags 4] by (auto simp: item_layout)
    from handle_intr_negotiated [OF n(2) True this] show ?thesis using n(1) False True by (fastforce simp: handle_intr_def)
  next
    case nd: False
    then show ?thesis using n False by (auto simp: handle_intr_def)
  qed
qed

text \<open>The driver before the item of the other side is found: what a lookup gives has to be a good item.\<close>

definition smp2p_ok :: "smp2p \<Rightarrow> bool" where
  "smp2p_ok w \<longleftrightarrow>
     (case (w_smem w, sp_out (w_dev w)) of
        (Some s, Some q) \<Rightarrow>
          (case sp_in (w_dev w) of
             Some p \<Rightarrow> connected w s p q
           | None \<Rightarrow>
               room s q ITEM_SIZE \<and> entries_ok s (sp_inbound (w_dev w)) \<and>
               (case qcom_smem_get (Some s) (sp_remote_pid (w_dev w)) (sp_smem_in (w_dev w)) of
                  OK (p, _) \<Rightarrow> in_ok s p \<and> separate p 0 ITEM_SIZE q 0 ITEM_SIZE
                | Err _ \<Rightarrow> True
                | UB \<Rightarrow> False))
      | _ \<Rightarrow> False)"

lemma connected_ok: "connected w s p q \<Longrightarrow> smp2p_ok w"
  using connectedD(1-3) [of w s p q] by (simp add: smp2p_ok_def)

text \<open>
  C8. Handling an interrupt is memory safe and keeps the driver well formed: the outbound item and the
  values of the entries stay in shared memory, and the inbound item, found or still to be found, is one
  with at most 16 entries and terminated names.
\<close>

theorem smp2p_intr_safe:
  assumes "smp2p_ok w"
  shows "\<exists>w'. qcom_smp2p_intr alloc w = OK w' \<and> smp2p_ok w'"
proof -
  obtain s q where sq: "w_smem w = Some s" "sp_out (w_dev w) = Some q" using assms by (auto simp: smp2p_ok_def split: option.splits)
  show ?thesis
  proof (cases "sp_in (w_dev w)")
    case (Some p)
    then have "connected w s p q" using assms sq by (simp add: smp2p_ok_def)
    from handle_intr_connected [OF this, of alloc] show ?thesis using Some connected_ok by (auto simp: qcom_smp2p_intr_def)
  next
    case None
    show ?thesis
    proof (cases "qcom_smem_get (Some s) (sp_remote_pid (w_dev w)) (sp_smem_in (w_dev w))")
      case (OK ps)
      obtain p sz where ps: "ps = (p, sz)" by fastforce
      have "connected (set_dev (sp_in_update (\<lambda>_. Some p)) w) s p q"
        using assms sq None OK ps by (simp add: smp2p_ok_def connected_def)
      from handle_intr_connected [OF this, of alloc] show ?thesis
        using None OK ps sq connected_ok by (auto simp: qcom_smp2p_intr_def)
    qed (use assms sq None in \<open>auto simp: smp2p_ok_def qcom_smp2p_intr_def\<close>)
  qed
qed


subsection \<open>Delivery\<close>

definition settled :: "smp2p \<Rightarrow> qcom_smem \<Rightarrow> smem_ptr \<Rightarrow> bool" where
  "settled w s p \<longleftrightarrow>
     sp_negotiation_done (w_dev w) \<and>
     (sp_ssr_ack_enabled (w_dev w) \<longrightarrow> (case sm_num s p it_flags 4 of Some flags \<Rightarrow> bit flags 0 = sp_ssr_ack (w_dev w) | None \<Rightarrow> False)) \<and>
     (case sm_num s p it_valid_entries 2 of Some v \<Rightarrow> v \<le> sp_valid_entries (w_dev w) | None \<Rightarrow> False)"

definition up_to_date :: "qcom_smem \<Rightarrow> smp2p_entry list \<Rightarrow> bool" where
  "up_to_date s es \<longleftrightarrow> (\<forall>e \<in> set es. case se_value e of Some v \<Rightarrow> se_last_value e = cell s v \<and> se_irq_pending e = 0 | None \<Rightarrow> True)"

text \<open>The bits of a change that an entry wants to hear of.\<close>

definition edges :: "smp2p_entry \<Rightarrow> u32w \<Rightarrow> u32w \<Rightarrow> nat list" where
  "edges e old new = filter (\<lambda>i. bit old i \<noteq> bit new i \<and> (if bit new i then bit (se_irq_rising e) i else bit (se_irq_falling e) i)) [0..<32]"

lemma notify_entry_up:
  assumes "se_irq_pending e = 0"
  shows "snd (notify_entry e val) = edges e (se_last_value e) val" "fst (notify_entry e val) = e\<lparr>se_last_value := val\<rparr>"
proof -
  have "fold unset_bit xs (0 :: u32w) = 0" for xs
  proof (induction xs)
    case (Cons x xs)
    have "unset_bit x (0 :: u32w) = 0" by (rule bit_word_eqI) (simp add: bit_unset_bit_iff)
    with Cons show ?case by simp
  qed simp
  then show "fst (notify_entry e val) = e\<lparr>se_last_value := val\<rparr>" using assms by (simp add: notify_entry_def Let_def)
  show "snd (notify_entry e val) = edges e (se_last_value e) val"
    using assms by (auto simp: notify_entry_def Let_def edges_def fires_def bit_xor_iff intro!: filter_cong)
qed

lemma edges_same [simp]: "edges e v v = []"
  by (simp add: edges_def)

lemma intr_settled:
  assumes "connected w s p q" "settled w s p"
  shows "\<exists>opl. qcom_smp2p_intr alloc w = OK (set_dev (sp_inbound_update (\<lambda>_. map (received s) (sp_inbound (w_dev w))))
    (w\<lparr>w_irqs := w_irqs w @ concat (map (deliveries s) (sp_inbound (w_dev w))), w_oplus := opl\<rparr>))"
proof -
  note c = connectedD [OF assms(1)]
  obtain v where v: "sm_num s p it_valid_entries 2 = Some v" "v \<le> sp_valid_entries (w_dev w)" and nd: "sp_negotiation_done (w_dev w)"
    using assms(2) by (auto simp: settled_def split: option.splits)
  have ssr: "qcom_smp2p_check_ssr w = OK (False, w)"
    using assms(2) c(1,2) by (auto simp: qcom_smp2p_check_ssr_def settled_def SMP2P_FLAGS_RESTART_DONE_BIT_def Let_def split: option.splits)
  obtain opl where "notify_entries alloc (sp_inbound (w_dev w)) w = OK (map (received s) (sp_inbound (w_dev w)),
      w\<lparr>w_irqs := w_irqs w @ concat (map (deliveries s) (sp_inbound (w_dev w))), w_oplus := opl\<rparr>)"
    using notify_entries_spec [OF c(1,5)] by blast
  then show ?thesis
    using nd ssr c(2) scan_inbound_none [OF c(1) v, of False]
    by (auto simp: qcom_smp2p_intr_def handle_intr_def qcom_smp2p_notify_in_def set_dev_def)
qed

lemma update_bits_spec:
  assumes "w_smem a = Some s" "se_value e = Some v" "smp2p_update_bits e msk bits a = OK a'"
  obtains s' where "w_smem a' = Some s'" "sm_store v 0 (le_bytes 4 (unat ((cell s v AND NOT msk) OR bits))) s = Some s'"
    "cell s' v = (cell s v AND NOT msk) OR bits"
    "w_kicks a' = w_kicks a @ (if (cell s v AND NOT msk) OR bits = cell s v then [] else [sp_route (w_dev a)])"
proof -
  obtain x where x: "sm_num s v 0 4 = Some x" using assms by (auto simp: smp2p_update_bits_def of_opt_def split: option.splits)
  let ?n = "(cell s v AND NOT msk) OR bits"
  have c: "cell s v = of_nat x" using x by (simp add: cell_def)
  obtain s' where s': "sm_store v 0 (le_bytes 4 (unat ?n)) s = Some s'" "a' = (if ?n = cell s v then a\<lparr>w_smem := Some s'\<rparr> else qcom_smp2p_kick (a\<lparr>w_smem := Some s'\<rparr>))"
    using assms x c by (auto simp: smp2p_update_bits_def item_put_def of_opt_def Let_def split: option.splits)
  have "unat ?n < 2 ^ LENGTH(32)" by (rule unsigned_less)
  then have "sm_num s' v 0 4 = Some (unat ?n)" using sm_num_store_same [OF s'(1)] by simp
  then have "cell s' v = ?n" by (simp add: cell_def)
  then show ?thesis using that [of s'] s' by (auto split: if_splits)
qed

lemma up_to_date_quiet:
  assumes "up_to_date s es" "\<And>e u. e \<in> set es \<Longrightarrow> se_value e = Some u \<Longrightarrow> cell s' u = cell s u"
  shows "concat (map (deliveries s') es) = []" "map (received s') es = es"
proof -
  have "deliveries s' e = [] \<and> received s' e = e" if "e \<in> set es" for e
    using assms(1) assms(2) [OF that] that notify_entry_up [of e]
    by (cases "se_value e") (force simp: up_to_date_def deliveries_def received_def)+
  then show "concat (map (deliveries s') es) = []" "map (received s') es = es" by (auto intro: map_idI)
qed

text \<open>
  C9. A signal arrives: when one side updates bits of an entry, the next interrupt on the other side
  delivers exactly the changed bits with a wanted edge to the entry of that value, and nothing to any
  other entry; afterwards the receiver is up to date again. The sender kicks exactly when the value
  changed.
\<close>

theorem smp2p_signal_delivered:
  assumes "connected b s p q" "settled b s p" "up_to_date s (sp_inbound (w_dev b))"
    and "sp_inbound (w_dev b) = es1 @ r # es2" "se_value r = Some v" "v = ptr_add p (it_value i)" "i < SMP2P_MAX_ENTRY"
    and "\<And>x u. x \<in> set (es1 @ es2) \<Longrightarrow> se_value x = Some u \<Longrightarrow> separate u 0 4 v 0 4"
    and "w_smem a = Some s" "se_value e = Some v" "smp2p_update_bits e msk bits a = OK a'"
    and "new = (cell s v AND NOT msk) OR bits"
  shows "\<exists>s' b'. w_smem a' = Some s' \<and> qcom_smp2p_intr alloc (b\<lparr>w_smem := Some s'\<rparr>) = OK b' \<and>
    w_irqs b' = w_irqs b @ map (Pair (se_name r)) (edges r (cell s v) new) \<and>
    connected b' s' p q \<and> settled b' s' p \<and> up_to_date s' (sp_inbound (w_dev b')) \<and>
    w_kicks a' = w_kicks a @ (if new = cell s v then [] else [sp_route (w_dev a)])"
proof -
  obtain s' where s': "w_smem a' = Some s'" "sm_store v 0 (le_bytes 4 (unat new)) s = Some s'" "cell s' v = new"
      "w_kicks a' = w_kicks a @ (if new = cell s v then [] else [sp_route (w_dev a)])"
    using update_bits_spec [OF assms(9-11)] assms(12) by metis
  let ?b = "b\<lparr>w_smem := Some s'\<rparr>"
  note c = connectedD [OF assms(1)]
  have con: "connected ?b s' p q"
    using c s'(2) in_ok_store_value [OF c(6), of i _ s'] assms(6) entries_ok_store [OF s'(2)] sm_store_keeps_room [OF s'(2)]
    by (simp add: connected_def)
  have st: "sm_store p (it_value i) (le_bytes 4 (unat new)) s = Some s'" using s'(2) assms(6) by (simp add: sm_store_def)
  have hdr: "sm_num s' p it_flags 4 = sm_num s p it_flags 4" "sm_num s' p it_valid_entries 2 = sm_num s p it_valid_entries 2"
    by (intro sm_num_store_other [OF st] separate_self; simp add: item_layout)+
  then have set: "settled ?b s' p" using assms(2) by (auto simp: settled_def split: option.splits)
  obtain opl where intr: "qcom_smp2p_intr alloc ?b = OK (set_dev (sp_inbound_update (\<lambda>_. map (received s') (sp_inbound (w_dev ?b))))
      (?b\<lparr>w_irqs := w_irqs ?b @ concat (map (deliveries s') (sp_inbound (w_dev ?b))), w_oplus := opl\<rparr>))"
    using intr_settled [OF con set] by blast
  have other: "cell s' u = cell s u" if "x \<in> set (es1 @ es2)" "se_value x = Some u" for x u
    using sm_num_store_other [OF s'(2)] assms(8) [OF that] by (simp add: cell_def)
  have up: "up_to_date s es1" "up_to_date s es2" "se_last_value r = cell s v" "se_irq_pending r = 0"
    using assms(3,4,5) by (auto simp: up_to_date_def)
  have q1: "concat (map (deliveries s') es1) = []" "map (received s') es1 = es1"
    by (rule up_to_date_quiet [OF up(1)], rule other, simp_all)+
  have q2: "concat (map (deliveries s') es2) = []" "map (received s') es2 = es2"
    by (rule up_to_date_quiet [OF up(2)], rule other, simp_all)+
  have rr: "deliveries s' r = map (Pair (se_name r)) (edges r (cell s v) new)" "received s' r = r\<lparr>se_last_value := new\<rparr>"
    using notify_entry_up [OF up(4)] up(3) assms(5) s'(3) by (simp_all add: deliveries_def received_def)
  have es: "concat (map (deliveries s') (sp_inbound (w_dev b))) = map (Pair (se_name r)) (edges r (cell s v) new)"
    "map (received s') (sp_inbound (w_dev b)) = es1 @ r\<lparr>se_last_value := new\<rparr> # es2"
    unfolding assms(4) map_append list.map concat_append concat.simps q1 q2 rr by simp_all
  let ?es = "es1 @ r\<lparr>se_last_value := new\<rparr> # es2"
  have up': "up_to_date s' ?es"
    using up assms(5) s'(3) other by (auto simp: up_to_date_def split: option.splits)
  have ok: "entries_ok s' ?es"
    using connectedD(5) [OF con] entries_ok_received [of s' s' "sp_inbound (w_dev b)"] unfolding es(2) by simp
  let ?b' = "set_dev (sp_inbound_update (\<lambda>_. ?es)) (?b\<lparr>w_irqs := w_irqs b @ map (Pair (se_name r)) (edges r (cell s v) new), w_oplus := opl\<rparr>)"
  have intr': "qcom_smp2p_intr alloc ?b = OK ?b'" using intr es by simp
  have con': "connected ?b' s' p q" using con ok by (simp add: connected_def)
  have set': "settled ?b' s' p" using set by (auto simp: settled_def split: option.splits)
  show ?thesis by (rule exI [of _ s'], rule exI [of _ ?b']) (use s'(1,4) intr' con' set' up' in simp)
qed

subsection \<open>Publishing an entry\<close>

lemma match_entry_first:
  assumes "w_smem w = Some s" "i < 16" "sm_load s p (it_entry i) 16 = Some (entry_name name)" "0 \<notin> set name" "length name < 16"
    and "sm_num s p (it_value i) 4 = Some v" "se_name r = name" "\<forall>x \<in> set es1. 0 \<notin> set (se_name x) \<and> se_name x \<noteq> name"
  shows "match_entry w start p i (es1 @ r # es2) =
    OK (es1 @ r\<lparr>se_value := Some (ptr_add p (it_value i)), se_last_value := if start then of_nat v else se_last_value r\<rparr> # es2)"
  using assms(8)
proof (induction es1)
  case Nil
  show ?case
    using assms(1-7) name_eq_entry_name [of name name]
    by (simp add: entry_at_def SMP2P_MAX_ENTRY_def SMP2P_MAX_ENTRY_NAME_def Let_def)
next
  case (Cons x es1)
  then have "name_eq (entry_name name) (se_name x) = OK False"
    using name_eq_entry_name [of name "se_name x"] assms(4,5) by (auto simp: SMP2P_MAX_ENTRY_NAME_def)
  then show ?case
    using Cons assms(1-3) by (simp add: entry_at_def SMP2P_MAX_ENTRY_def SMP2P_MAX_ENTRY_NAME_def)
qed

lemma length_entry_name [simp]: "length (entry_name name) = 16"
  by (simp add: entry_name_def SMP2P_MAX_ENTRY_NAME_def min_def)

lemma outbound_entry_spec:
  assumes "w_smem a = Some s" "sp_out (w_dev a) = Some q" "room s q ITEM_SIZE" "sm_num s q it_valid_entries 2 = Some n" "n < 16"
  obtains s' where "qcom_smp2p_outbound_entry reg e a = OK (reg, e\<lparr>se_value := Some (ptr_add q (it_value n))\<rparr>, a\<lparr>w_smem := Some s'\<rparr>)"
    "sm_num s' q it_valid_entries 2 = Some (n + 1)" "sm_load s' q (it_entry n) 16 = Some (entry_name (se_name e))"
    "sm_num s' q (it_value n) 4 = sm_num s q (it_value n) 4"
proof -
  have r: "it_entry n + 16 \<le> ITEM_SIZE" "it_valid_entries + 2 \<le> ITEM_SIZE" using assms(5) by (simp_all add: item_layout)
  obtain s1 where s1: "sm_store q (it_entry n) (entry_name (se_name e)) s = Some s1"
    using sm_store_room [OF assms(3), of "it_entry n" "entry_name (se_name e)"] r(1) by auto
  have "room s1 q ITEM_SIZE" using sm_store_keeps_room [OF s1] assms(3) by simp
  then obtain s2 where s2: "sm_store q it_valid_entries (le_bytes 2 (n + 1)) s1 = Some s2"
    using sm_store_room [of s1 q ITEM_SIZE it_valid_entries "le_bytes 2 (n + 1)"] r(2) by auto
  show thesis
  proof (rule that [of s2])
    show "qcom_smp2p_outbound_entry reg e a = OK (reg, e\<lparr>se_value := Some (ptr_add q (it_value n))\<rparr>, a\<lparr>w_smem := Some s2\<rparr>)"
      using assms s1 s2 by (simp add: qcom_smp2p_outbound_entry_def entry_at_def SMP2P_MAX_ENTRY_def item_put_def Let_def)
    show "sm_num s2 q it_valid_entries 2 = Some (n + 1)" using sm_num_store_same [OF s2] assms(5) by simp
    have "sm_load s2 q (it_entry n) 16 = sm_load s1 q (it_entry n) 16"
      by (intro sm_load_store_other [OF s2] separate_self) (simp add: item_layout)
    then show "sm_load s2 q (it_entry n) 16 = Some (entry_name (se_name e))" using sm_load_store_same [OF s1] by simp
    have "sm_num s2 q (it_value n) 4 = sm_num s1 q (it_value n) 4"
      by (intro sm_num_store_other [OF s2] separate_self) (simp add: item_layout)
    also have "\<dots> = sm_num s q (it_value n) 4"
      by (intro sm_num_store_other [OF s1] separate_self) (simp add: item_layout)
    finally show "sm_num s2 q (it_value n) 4 = sm_num s q (it_value n) 4" .
  qed
qed

text \<open>
  C20. An entry published by one side is found by the other: after the outbound entry is added, the next
  scan on the other side binds its first inbound entry of that name to the value of the new entry, binds
  no other entry, and takes the value over when it is the scan at start.
\<close>

theorem smp2p_entry_found:
  assumes "w_smem a = Some s" "sp_out (w_dev a) = Some q" "room s q ITEM_SIZE"
    and "sm_num s q it_valid_entries 2 = Some n" "n < SMP2P_MAX_ENTRY"
    and "0 \<notin> set (se_name e)" "length (se_name e) < SMP2P_MAX_ENTRY_NAME"
    and "sp_valid_entries (w_dev b) = n" "sp_inbound (w_dev b) = es1 @ r # es2" "se_name r = se_name e"
    and "\<forall>x \<in> set es1. 0 \<notin> set (se_name x) \<and> se_name x \<noteq> se_name e"
  shows "\<exists>s' e'. qcom_smp2p_outbound_entry reg e a = OK (reg, e', a\<lparr>w_smem := Some s'\<rparr>) \<and>
    se_value e' = Some (ptr_add q (it_value n)) \<and>
    scan_inbound start q (b\<lparr>w_smem := Some s'\<rparr>) =
      OK (set_dev (\<lambda>sp. sp\<lparr>sp_inbound := es1 @ r\<lparr>se_value := se_value e',
            se_last_value := if start then cell s (ptr_add q (it_value n)) else se_last_value r\<rparr> # es2, sp_valid_entries := n + 1\<rparr>)
          (b\<lparr>w_smem := Some s'\<rparr>))"
proof -
  have n: "n < 16" and l: "length (se_name e) < 16" using assms(5,7) by (simp_all add: SMP2P_MAX_ENTRY_def SMP2P_MAX_ENTRY_NAME_def)
  obtain s' where s': "qcom_smp2p_outbound_entry reg e a = OK (reg, e\<lparr>se_value := Some (ptr_add q (it_value n))\<rparr>, a\<lparr>w_smem := Some s'\<rparr>)"
    "sm_num s' q it_valid_entries 2 = Some (n + 1)" "sm_load s' q (it_entry n) 16 = Some (entry_name (se_name e))"
    "sm_num s' q (it_value n) 4 = sm_num s q (it_value n) 4"
    using outbound_entry_spec [OF assms(1-4) n, of reg e] by blast
  obtain v where v: "sm_num s q (it_value n) 4 = Some v" using sm_num_room [OF value_room [OF assms(3) n], of 0 4] by auto
  let ?b = "b\<lparr>w_smem := Some s'\<rparr>"
  have m: "match_entry ?b start q n (es1 @ r # es2) = OK (es1 @ r\<lparr>se_value := Some (ptr_add q (it_value n)),
      se_last_value := if start then of_nat v else se_last_value r\<rparr> # es2)"
    by (rule match_entry_first [OF _ n s'(3) assms(6) l _ assms(10,11)]) (simp_all add: s'(4) v)
  have c: "cell s (ptr_add q (it_value n)) = of_nat v" using v by (simp add: cell_def)
  have "scan_inbound start q ?b = OK (set_dev (\<lambda>sp. sp\<lparr>sp_inbound := es1 @ r\<lparr>se_value := Some (ptr_add q (it_value n)),
      se_last_value := if start then of_nat v else se_last_value r\<rparr> # es2, sp_valid_entries := n + 1\<rparr>) ?b)"
    using s'(2) assms(8,9) m by (simp add: scan_inbound_def Let_def set_dev_def)
  then show ?thesis using s'(1) unfolding c by auto
qed

text \<open>
  The number of entries the remote side claims is not compared with the size of the array: when it is
  above 16 and a new entry has to be compared with an inbound one, the handler reads beyond the entries
  of the item.
\<close>

theorem smp2p_valid_entries_overrun:
  assumes "w_smem w = Some s" "sp_in (w_dev w) = Some p" "sp_inbound (w_dev w) \<noteq> []"
    and "sm_num s p it_valid_entries 2 = Some n" "n > SMP2P_MAX_ENTRY" "sp_valid_entries (w_dev w) = SMP2P_MAX_ENTRY"
  shows "qcom_smp2p_notify_in alloc w = UB"
proof -
  obtain e es where es: "sp_inbound (w_dev w) = e # es" using assms(3) by (cases "sp_inbound (w_dev w)") auto
  have u: "[SMP2P_MAX_ENTRY..<n] = SMP2P_MAX_ENTRY # [Suc SMP2P_MAX_ENTRY..<n]" using assms(5) by (rule upt_conv_Cons)
  have "scan_inbound False p w = UB"
    using assms(1,4,6) es u by (simp add: scan_inbound_def Let_def entry_at_def)
  then show ?thesis using assms(2) by (simp add: qcom_smp2p_notify_in_def)
qed

subsection \<open>A concrete pair of items\<close>

definition demo_item :: "byte \<Rightarrow> byte \<Rightarrow> bytes" where
  "demo_item n flags =
     [0x24, 0x53, 0x4d, 0x50, 1, 1, 0, 0, 2, 0, 0, 0, 16, 0, n, 0, flags, 0, 0, 0] @
     [97, 0, 0, 0, 0, 0, 0, 0, 0, 0, 0, 0, 0, 0, 0, 0] @ [0, 0, 0, 0] @ replicate 300 0"

definition demo_region :: "bytes \<Rightarrow> smem_region" where
  "demo_region m = \<lparr>r_aux_base = 0, r_virt_base = 4096, r_size = 340, r_mem = m\<rparr>"

definition demo_shared :: "byte \<Rightarrow> byte \<Rightarrow> qcom_smem" where
  "demo_shared n flags = \<lparr>item_count = 512, ptable = [], global_partition = no_partition, partitions = [],
     regions = [demo_region (demo_item n flags), demo_region (demo_item 1 0)]\<rparr>"

definition demo_entry :: smp2p_entry where
  "demo_entry = (new_entry [97])\<lparr>se_value := Some (ptr_add (InRegion 0 0) (it_value 0)), se_irq_rising := 5\<rparr>"

definition demo_driver :: "byte \<Rightarrow> byte \<Rightarrow> bool \<Rightarrow> smp2p" where
  "demo_driver n flags ack =
     \<lparr>w_smem = Some (demo_shared n flags),
      w_dev = (zero_smp2p (429, 428) 0 2 KickMbox)\<lparr>sp_in := Some (InRegion 0 0), sp_out := Some (InRegion 1 0), sp_valid_entries := 1,
        sp_ssr_ack_enabled := True, sp_ssr_ack := ack, sp_negotiation_done := True, sp_inbound := [demo_entry]\<rparr>,
      w_kicks = [], w_irqs = [], w_oplus = None\<rparr>"

lemma demo_length: "length (demo_item n flags) = 340"
  by (simp add: demo_item_def)

lemma demo_win: "win_mem (WinRegion 0) (demo_shared n flags) = demo_item n flags" "win_mem (WinRegion 1) (demo_shared n flags) = demo_item 1 0"
  by (simp_all add: demo_shared_def demo_region_def)

lemma demo_room: "room (demo_shared n flags) (InRegion 0 0) ITEM_SIZE" "room (demo_shared n flags) (InRegion 1 0) ITEM_SIZE"
  using demo_win demo_length by (simp_all add: room_def ITEM_SIZE_def)

lemma demo_item_fields:
  "sm_num (demo_shared n flags) (InRegion 0 0) it_valid_entries 2 = Some (unat n)"
  "sm_num (demo_shared n flags) (InRegion 0 0) it_flags 4 = Some (unat flags)"
  "sm_num (demo_shared n flags) (InRegion 1 0) it_flags 4 = Some 0"
  "sm_num (demo_shared n flags) (InRegion 0 0) (it_value 0) 4 = Some 0"
  "sm_load (demo_shared n flags) (InRegion 0 0) (it_entry 0) 16 = Some [97, 0, 0, 0, 0, 0, 0, 0, 0, 0, 0, 0, 0, 0, 0, 0]"
  using demo_win [of n flags] by (simp_all add: sm_num_def sm_load_def win_load_def load_def demo_item_def item_layout)

lemma demo_connected: "connected (demo_driver 1 flags ack) (demo_shared 1 flags) (InRegion 0 0) (InRegion 1 0)"
proof -
  have "in_ok (demo_shared 1 flags) (InRegion 0 0)"
    using demo_room demo_item_fields(1,5) [of 1 flags] by (simp add: in_ok_def terminated_def SMP2P_MAX_ENTRY_def SMP2P_MAX_ENTRY_NAME_def)
  moreover have "entries_ok (demo_shared 1 flags) [demo_entry]"
    using value_room [OF demo_room(1), of 0] by (simp add: entries_ok_def demo_entry_def new_entry_def)
  ultimately show ?thesis
    using demo_room by (simp add: connected_def demo_driver_def separate_def)
qed

theorem smp2p_intr_safe_witness: "\<exists>w'. qcom_smp2p_intr (\<lambda>_. True) (demo_driver 1 1 False) = OK w' \<and> smp2p_ok w'"
  using smp2p_intr_safe [OF connected_ok [OF demo_connected], of "\<lambda>_. True" 1 False] .


definition demo_sender :: smp2p where
  "demo_sender = (demo_driver 1 0 False)\<lparr>w_dev := zero_smp2p (428, 429) 2 0 KickMbox\<rparr>"

lemma demo_cell: "cell (demo_shared n flags) (ptr_add (InRegion 0 0) (it_value 0)) = 0"
  using demo_item_fields(4) [of n flags] by (simp add: cell_def del: ptr_add.simps)

lemma demo_update: "\<exists>a'. smp2p_update_bits demo_entry 3 1 demo_sender = OK a'"
proof -
  have n: "sm_num (demo_shared 1 0) (InRegion 0 0) (it_value 0) 4 = Some 0" by (rule demo_item_fields(4))
  obtain s' where "sm_store (ptr_add (InRegion 0 0) (it_value 0)) 0 (le_bytes 4 1) (demo_shared 1 0) = Some s'"
    using sm_store_room [OF value_room [OF demo_room(1), of 0], of 0 "le_bytes 4 1"] by auto
  then show ?thesis
    using n by (simp add: smp2p_update_bits_def demo_entry_def demo_sender_def demo_driver_def item_put_def Let_def del: ptr_add.simps)
qed

lemma demo_edges: "edges demo_entry 0 1 = [0]"
  by (simp add: edges_def demo_entry_def new_entry_def upt_rec) 

theorem smp2p_signal_delivered_witness:
  "\<exists>a' s' b'. smp2p_update_bits demo_entry 3 1 demo_sender = OK a' \<and> w_smem a' = Some s' \<and> w_kicks a' = [KickMbox] \<and>
     qcom_smp2p_intr (\<lambda>_. True) ((demo_driver 1 0 False)\<lparr>w_smem := Some s'\<rparr>) = OK b' \<and> w_irqs b' = [([97], 0)]"
proof -
  obtain a' where a': "smp2p_update_bits demo_entry 3 1 demo_sender = OK a'" using demo_update by blast
  have st: "settled (demo_driver 1 0 False) (demo_shared 1 0) (InRegion 0 0)"
    using demo_item_fields(1,2) [of 1 0] by (simp add: settled_def demo_driver_def)
  have up: "up_to_date (demo_shared 1 0) (sp_inbound (w_dev (demo_driver 1 0 False)))"
    using demo_cell [of 1 0] by (simp add: up_to_date_def demo_driver_def demo_entry_def new_entry_def del: ptr_add.simps)
  have e: "se_value demo_entry = Some (ptr_add (InRegion 0 0) (it_value 0))" "se_name demo_entry = [97]"
    by (simp_all add: demo_entry_def new_entry_def)
  show ?thesis
    using smp2p_signal_delivered [OF demo_connected st up, of "[]" demo_entry "[]" "ptr_add (InRegion 0 0) (it_value 0)" 0 demo_sender demo_entry 3 1 a' 1 "\<lambda>_. True"]
      a' e demo_cell [of 1 0] demo_edges
    by (auto simp: SMP2P_MAX_ENTRY_def demo_sender_def demo_driver_def zero_smp2p_def simp del: ptr_add.simps)
qed

theorem smp2p_entry_found_witness:
  "\<exists>s' e' b'. qcom_smp2p_outbound_entry (OK ()) (new_entry [98]) ((demo_driver 1 0 False)\<lparr>w_dev := (zero_smp2p (428, 429) 2 0 KickMbox)\<lparr>sp_out := Some (InRegion 0 0)\<rparr>\<rparr>) =
       OK (OK (), e', (demo_driver 1 0 False)\<lparr>w_dev := (zero_smp2p (428, 429) 2 0 KickMbox)\<lparr>sp_out := Some (InRegion 0 0)\<rparr>, w_smem := Some s'\<rparr>) \<and>
     scan_inbound False (InRegion 0 0) ((demo_driver 1 0 False)\<lparr>w_dev := (w_dev (demo_driver 1 0 False))\<lparr>sp_inbound := [demo_entry, new_entry [98]]\<rparr>, w_smem := Some s'\<rparr>) = OK b' \<and>
     map se_value (sp_inbound (w_dev b')) = [se_value demo_entry, se_value e'] \<and> se_value e' = Some (InRegion 0 56)"
proof -
  have n: "sm_num (demo_shared 1 0) (InRegion 0 0) it_valid_entries 2 = Some 1" using demo_item_fields(1) [of 1 0] by simp
  show ?thesis
    using smp2p_entry_found [where a = "(demo_driver 1 0 False)\<lparr>w_dev := (zero_smp2p (428, 429) 2 0 KickMbox)\<lparr>sp_out := Some (InRegion 0 0)\<rparr>\<rparr>"
        and b = "(demo_driver 1 0 False)\<lparr>w_dev := (w_dev (demo_driver 1 0 False))\<lparr>sp_inbound := [demo_entry, new_entry [98]]\<rparr>\<rparr>"
        and e = "new_entry [98]" and ?es1.0 = "[demo_entry]" and r = "new_entry [98]" and ?es2.0 = "[]" and reg = "OK ()" and start = False,
        OF _ _ demo_room(1) n]
    by (auto simp: demo_driver_def new_entry_def demo_entry_def SMP2P_MAX_ENTRY_def SMP2P_MAX_ENTRY_NAME_def item_layout)
qed

theorem smp2p_valid_entries_overrun_witness:
  "qcom_smp2p_notify_in (\<lambda>_. True) ((demo_driver 17 0 False)\<lparr>w_dev := (w_dev (demo_driver 17 0 False))\<lparr>sp_valid_entries := 16\<rparr>\<rparr>) = UB"
  using demo_item_fields(1) [of 17 0]
  by (intro smp2p_valid_entries_overrun [where s = "demo_shared 17 0" and p = "InRegion 0 0" and n = 17])
    (simp_all add: demo_driver_def SMP2P_MAX_ENTRY_def)

end
