(* ===== verification/Smp2p_Outbound.thy ===== *)
theory Smp2p_Outbound
  imports Smp2p_Props
begin

text \<open>
  The outbound item of a new driver: it is allocated in the shared memory heap, filled in and published.
  The heap stays well formed and every other lookup is as before, whatever is written into the item.
\<close>

subsection \<open>Writes inside an item\<close>

definition writes_in :: "smem_ptr \<Rightarrow> nat \<Rightarrow> qcom_smem \<Rightarrow> qcom_smem \<Rightarrow> bool" where
  "writes_in p n s s' \<longleftrightarrow>
     (\<exists>m. s' = set_win (ptr_win p) m s \<and> same_on (win_mem (ptr_win p) s) m 0 (ptr_off p) \<and>
        same_on (win_mem (ptr_win p) s) m (ptr_off p + n) (length (win_mem (ptr_win p) s)))"

lemma set_win_twice: "set_win w m (set_win w m' s) = set_win w m s"
proof (cases w)
  case (WinPartition h)
  then show ?thesis by (cases "h < length (partitions s)") (simp_all add: list_update_beyond)
next
  case (WinRegion i)
  then show ?thesis by (cases "i < length (regions s)") (simp_all add: list_update_beyond)
qed simp

lemma set_win_same: "set_win w (win_mem w s) s = s"
proof (cases w)
  case (WinPartition h)
  then show ?thesis by (cases "h < length (partitions s)") (simp_all add: list_update_beyond)
next
  case (WinRegion i)
  then show ?thesis by (cases "i < length (regions s)") (simp_all add: list_update_beyond)
qed simp

lemma writes_in_refl: "writes_in p n s s"
  unfolding writes_in_def
  by (rule exI [of _ "win_mem (ptr_win p) s"]) (simp add: same_on_def set_win_same)

lemma writes_in_store:
  assumes "writes_in p n s0 s" "sm_store p d bs s = Some s'" "d + length bs \<le> n"
  shows "writes_in p n s0 s'"
proof -
  let ?w = "ptr_win p"
  obtain m where m: "s = set_win ?w m s0" "same_on (win_mem ?w s0) m 0 (ptr_off p)"
      "same_on (win_mem ?w s0) m (ptr_off p + n) (length (win_mem ?w s0))"
    using assms(1) by (auto simp: writes_in_def)
  have wm: "win_mem ?w s = m" using m(1,2) by (simp add: win_mem_set same_on_def)
  obtain m' where m': "store m (ptr_off p + d) bs = Some m'" "s' = set_win ?w m' s"
    using assms(2) wm by (auto simp: sm_store_def win_store_def)
  have fit: "ptr_off p \<le> length m" using m'(1) by (simp add: store_def split: if_splits)
  have "same_on m m' 0 (ptr_off p)" "same_on m m' (ptr_off p + n) (length m)"
    using store_length [OF m'(1)] store_nth [OF m'(1)] assms(3) fit by (simp_all add: same_on_def)
  then have "same_on (win_mem ?w s0) m' 0 (ptr_off p)" "same_on (win_mem ?w s0) m' (ptr_off p + n) (length (win_mem ?w s0))"
    using m(2,3) same_on_trans by (auto simp: same_on_def)
  then show ?thesis using m(1) m'(2) by (auto simp: writes_in_def set_win_twice)
qed

lemma writes_in_room: "writes_in p n s s' \<Longrightarrow> room s' q k = room s q k"
  by (cases "ptr_win q = ptr_win p") (auto simp: writes_in_def room_def same_on_def win_mem_set win_mem_set_other)

subsection \<open>Filling in an item\<close>

type_synonym fields = "(nat \<times> nat \<times> nat) list"

definition filled :: "smp2p \<Rightarrow> smem_ptr \<Rightarrow> qcom_smem \<Rightarrow> fields \<Rightarrow> bool" where
  "filled w p s0 fs \<longleftrightarrow>
     (\<exists>s. w_smem w = Some s \<and> room s p ITEM_SIZE \<and> writes_in p ITEM_SIZE s0 s \<and>
        (\<forall>(d, n, v) \<in> set fs. sm_num s p d n = Some v))"

lemma filled_put:
  assumes "filled w p s0 fs" "e + k \<le> ITEM_SIZE" "x < 256 ^ k" "list_all (\<lambda>(d, n, v). d + n \<le> e \<or> e + k \<le> d) fs"
  obtains s where "item_put (Some p) e k x w = OK (w\<lparr>w_smem := Some s\<rparr>)" "filled (w\<lparr>w_smem := Some s\<rparr>) p s0 ((e, k, x) # fs)"
proof -
  obtain s where s: "w_smem w = Some s" "room s p ITEM_SIZE" "writes_in p ITEM_SIZE s0 s" "\<forall>(d, n, v) \<in> set fs. sm_num s p d n = Some v"
    using assms(1) by (auto simp: filled_def)
  obtain s' where s': "sm_store p e (le_bytes k x) s = Some s'" using sm_store_room [OF s(2), of e "le_bytes k x"] assms(2) by auto
  have "sm_num s' p d n = Some v" if "(d, n, v) \<in> set fs" for d n v
  proof -
    have "separate p d n p e (length (le_bytes k x))" using assms(4) that by (intro separate_self) (auto simp: list_all_iff)
    then show ?thesis using sm_num_store_other [OF s'] s(4) that by fastforce
  qed
  then have "filled (w\<lparr>w_smem := Some s'\<rparr>) p s0 ((e, k, x) # fs)"
    using sm_num_store_same [OF s'] writes_in_store [OF s(3) s'] sm_store_keeps_room [OF s'] s(2) assms(2,3) by (auto simp: filled_def)
  then show thesis using that s(1) s' by (simp add: item_put_def)
qed

lemma load_part: "load m p n = Some bs \<Longrightarrow> d + k \<le> n \<Longrightarrow> load m (p + d) k = Some (take k (drop d bs))"
  by (auto simp: load_def drop_take min_def split: if_splits) (simp add: add.commute)

lemma filled_clear:
  assumes "w_smem w = Some s0" "room s0 p ITEM_SIZE"
  obtains s where "item_store (Some p) 0 (replicate ITEM_SIZE 0) w = OK (w\<lparr>w_smem := Some s\<rparr>)"
    "filled (w\<lparr>w_smem := Some s\<rparr>) p s0 [(it_flags, 4, 0)]"
proof -
  obtain s where s: "sm_store p 0 (replicate ITEM_SIZE 0) s0 = Some s" using sm_store_room [OF assms(2)] by fastforce
  have "sm_load s p 0 ITEM_SIZE = Some (replicate ITEM_SIZE 0)" using sm_load_store_same [OF s] by simp
  then have "sm_load s p it_flags 4 = Some (take 4 (drop it_flags (replicate ITEM_SIZE 0)))"
    using load_part [of "win_mem (ptr_win p) s" "ptr_off p" ITEM_SIZE _ it_flags 4] by (simp add: sm_load_def win_load_def item_layout)
  then have "sm_num s p it_flags 4 = Some 0" by (simp add: sm_num_def item_layout)
  then have "filled (w\<lparr>w_smem := Some s\<rparr>) p s0 [(it_flags, 4, 0)]"
    using writes_in_store [OF writes_in_refl s] sm_store_keeps_room [OF s] assms(2) by (simp add: filled_def)
  then show thesis using that s assms(1) by simp
qed

subsection \<open>The heap around an item\<close>

lemma get_after_writes:
  assumes "has_partition smem host" "length (partitions smem) = SMEM_HOST_COUNT" "wf_partition (partitions smem ! host)"
    and "valid_request item sz" "qcom_smem_alloc (OK ()) (Some smem) host item sz = OK smem1"
    and "phdr_free_uncached (p_mem (partitions smem ! host)) = OK uend"
    and "writes_in (InPartition host (uend + 16)) sz smem1 s"
  shows "qcom_smem_get (Some s) h i = (if (h, i) = (host, item) then OK (InPartition host (uend + 16), sz) else qcom_smem_get (Some smem) h i)"
    and "wf_partition (partitions s ! host)" "has_partition s host" "length (partitions s) = SMEM_HOST_COUNT"
proof -
  let ?part = "partitions smem ! host"
  have hl: "host < length (partitions smem)" using assms(1,2) by (simp add: has_partition_def)
  obtain part' where a: "qcom_smem_alloc_private ?part item sz = OK part'" "item < item_count smem"
    and s1: "smem1 = smem\<lparr>partitions := (partitions smem)[host := part']\<rparr>"
    using assms(1,5) by (auto simp: qcom_smem_alloc_def split: if_splits)
  obtain m where m: "s = set_win (WinPartition host) m smem1" "same_on (p_mem part') m 0 (uend + 16)"
      "same_on (p_mem part') m (uend + 16 + sz) (length (p_mem part'))"
    using assms(7) hl by (auto simp: writes_in_def s1)
  have s: "s = smem\<lparr>partitions := (partitions smem)[host := part'\<lparr>p_mem := m\<rparr>]\<rparr>" using m(1) hl by (simp add: s1)
  have v: "item < 2 ^ 16" "0 < sz" "sz + 8 \<le> 2 ^ 32" using assms(4) by (auto simp: valid_request_def)
  note look = alloc_private_contents [OF assms(3) v a(1) assms(6) m(2,3)]
  show "wf_partition (partitions s ! host)" using look(1) hl by (simp add: s)
  show "length (partitions s) = SMEM_HOST_COUNT" using assms(2) by (simp add: s)
  have hp: "has_partition s h = has_partition smem h" for h
    using alloc_private_addr [OF a(1)] hl by (auto simp: s has_partition_def nth_list_update)
  then show "has_partition s host" using assms(1) by simp
  show "qcom_smem_get (Some s) h i = (if (h, i) = (host, item) then OK (InPartition host (uend + 16), sz) else qcom_smem_get (Some smem) h i)"
    using look(2) hp a(2) assms(1) hl by (auto simp: qcom_smem_get_def s nth_list_update)
qed

text \<open>The new item has its room, and any other item of the partition lies apart from it.\<close>

lemma new_item_place:
  assumes "has_partition smem host" "length (partitions smem) = SMEM_HOST_COUNT" "wf_partition (partitions smem ! host)"
    and "valid_request item sz" "qcom_smem_alloc (OK ()) (Some smem) host item sz = OK smem1"
    and "phdr_free_uncached (p_mem (partitions smem ! host)) = OK uend"
  shows "room smem1 (InPartition host (uend + 16)) sz"
    and "i \<noteq> item \<Longrightarrow> qcom_smem_get (Some smem) host i = OK (p, n) \<Longrightarrow>
      room smem1 p n \<and> separate p 0 n (InPartition host (uend + 16)) 0 sz"
proof -
  let ?q = "InPartition host (uend + 16)"
  note g = get_after_writes [OF assms(1-6) writes_in_refl]
  have hl: "host < length (partitions smem1)" using g(3,4) by (simp add: has_partition_def)
  obtain uend' cend' where wf: "32 \<le> uend'" "uend' \<le> cend'" "cend' \<le> length (p_mem (partitions smem1 ! host))"
      "p_size (partitions smem1 ! host) = length (p_mem (partitions smem1 ! host))"
    using wf_partitionE [OF g(2)] by metis
  have in_room: "room smem1 (InPartition host x) k" if "qcom_smem_get_private (partitions smem1 ! host) j = OK (x, k)" for x k j
    using get_private_cases [of "partitions smem1 ! host" j] that wf hl by (simp add: found_in_def room_def)
  have priv: "qcom_smem_get (Some smem1) host j = OK (y, k) \<Longrightarrow> \<exists>x. y = InPartition host x \<and> qcom_smem_get_private (partitions smem1 ! host) j = OK (x, k)" for y k j
    using g(3) by (auto simp: qcom_smem_get_def split: if_splits)
  show "room smem1 ?q sz" using in_room priv [of item ?q sz] g(1) [of host item] by auto
  assume i: "i \<noteq> item" "qcom_smem_get (Some smem) host i = OK (p, n)"
  then obtain x where x: "p = InPartition host x" "qcom_smem_get_private (partitions smem1 ! host) i = OK (x, n)"
    using priv [of i p n] g(1) [of host i] by auto
  obtain part' where a: "qcom_smem_alloc_private (partitions smem ! host) item sz = OK part'"
    and s1: "smem1 = smem\<lparr>partitions := (partitions smem)[host := part']\<rparr>"
    using assms(1,5) by (auto simp: qcom_smem_alloc_def split: if_splits)
  have p': "partitions smem1 ! host = part'" using hl by (simp add: s1)
  have new: "qcom_smem_get_private part' item = OK (uend + 16, sz)" using priv [of item ?q sz] g(1) [of host item] p' by auto
  have "apart (uend + 16, sz) (x, n)" using ph.alloc_fresh [OF assms(3,4) a i(1) new] x(2) p' by simp
  then show "room smem1 p n \<and> separate p 0 n ?q 0 sz" using in_room x by (auto simp: apart_def separate_def)
qed

subsection \<open>The whole allocation\<close>

text \<open>The header up to the version.\<close>

lemma fill_header:
  assumes "w_smem w = Some s0" "room s0 p ITEM_SIZE" "lpid < 2 ^ 16" "rpid < 2 ^ 16"
  obtains s where
    "rbind (item_store (Some p) 0 (replicate ITEM_SIZE 0) w) (\<lambda>w2.
     rbind (item_put (Some p) 0 4 SMP2P_MAGIC w2) (\<lambda>w3.
     rbind (item_put (Some p) it_local_pid 2 lpid w3) (\<lambda>w4.
     rbind (item_put (Some p) it_remote_pid 2 rpid w4) (\<lambda>w5.
     rbind (item_put (Some p) it_total_entries 2 SMP2P_MAX_ENTRY w5) (\<lambda>w6.
     rbind (item_put (Some p) it_valid_entries 2 0 w6) (\<lambda>w7.
     rbind (item_put (Some p) it_features 3 SMP2P_ALL_FEATURES w7) f)))))) = f (w\<lparr>w_smem := Some s\<rparr>)"
    "filled (w\<lparr>w_smem := Some s\<rparr>) p s0
       [(it_features, 3, SMP2P_ALL_FEATURES), (it_valid_entries, 2, 0), (it_total_entries, 2, SMP2P_MAX_ENTRY),
        (it_remote_pid, 2, rpid), (it_local_pid, 2, lpid), (0, 4, SMP2P_MAGIC), (it_flags, 4, 0)]"
proof -
  note lay = item_layout SMP2P_MAGIC_def SMP2P_MAX_ENTRY_def SMP2P_ALL_FEATURES_def SMP2P_FEATURE_SSR_ACK_def
  obtain s1 where s1: "item_store (Some p) 0 (replicate ITEM_SIZE 0) w = OK (w\<lparr>w_smem := Some s1\<rparr>)"
      "filled (w\<lparr>w_smem := Some s1\<rparr>) p s0 [(it_flags, 4, 0)]"
    using filled_clear [OF assms(1,2)] by blast
  obtain s2 where s2: "item_put (Some p) 0 4 SMP2P_MAGIC (w\<lparr>w_smem := Some s1\<rparr>) = OK (w\<lparr>w_smem := Some s2\<rparr>)"
      "filled (w\<lparr>w_smem := Some s2\<rparr>) p s0 [(0, 4, SMP2P_MAGIC), (it_flags, 4, 0)]"
    using filled_put [OF s1(2), of 0 4 SMP2P_MAGIC] by (auto simp: lay)
  obtain s3 where s3: "item_put (Some p) it_local_pid 2 lpid (w\<lparr>w_smem := Some s2\<rparr>) = OK (w\<lparr>w_smem := Some s3\<rparr>)"
      "filled (w\<lparr>w_smem := Some s3\<rparr>) p s0 [(it_local_pid, 2, lpid), (0, 4, SMP2P_MAGIC), (it_flags, 4, 0)]"
    using filled_put [OF s2(2), of it_local_pid 2 lpid] assms(3) by (auto simp: lay)
  obtain s4 where s4: "item_put (Some p) it_remote_pid 2 rpid (w\<lparr>w_smem := Some s3\<rparr>) = OK (w\<lparr>w_smem := Some s4\<rparr>)"
      "filled (w\<lparr>w_smem := Some s4\<rparr>) p s0 [(it_remote_pid, 2, rpid), (it_local_pid, 2, lpid), (0, 4, SMP2P_MAGIC), (it_flags, 4, 0)]"
    using filled_put [OF s3(2), of it_remote_pid 2 rpid] assms(4) by (auto simp: lay)
  obtain s5 where s5: "item_put (Some p) it_total_entries 2 SMP2P_MAX_ENTRY (w\<lparr>w_smem := Some s4\<rparr>) = OK (w\<lparr>w_smem := Some s5\<rparr>)"
      "filled (w\<lparr>w_smem := Some s5\<rparr>) p s0 [(it_total_entries, 2, SMP2P_MAX_ENTRY), (it_remote_pid, 2, rpid), (it_local_pid, 2, lpid), (0, 4, SMP2P_MAGIC), (it_flags, 4, 0)]"
    using filled_put [OF s4(2), of it_total_entries 2 SMP2P_MAX_ENTRY] by (auto simp: lay)
  obtain s6 where s6: "item_put (Some p) it_valid_entries 2 0 (w\<lparr>w_smem := Some s5\<rparr>) = OK (w\<lparr>w_smem := Some s6\<rparr>)"
      "filled (w\<lparr>w_smem := Some s6\<rparr>) p s0 [(it_valid_entries, 2, 0), (it_total_entries, 2, SMP2P_MAX_ENTRY), (it_remote_pid, 2, rpid), (it_local_pid, 2, lpid), (0, 4, SMP2P_MAGIC), (it_flags, 4, 0)]"
    using filled_put [OF s5(2), of it_valid_entries 2 0] by (auto simp: lay)
  obtain s7 where s7: "item_put (Some p) it_features 3 SMP2P_ALL_FEATURES (w\<lparr>w_smem := Some s6\<rparr>) = OK (w\<lparr>w_smem := Some s7\<rparr>)"
      "filled (w\<lparr>w_smem := Some s7\<rparr>) p s0 [(it_features, 3, SMP2P_ALL_FEATURES), (it_valid_entries, 2, 0), (it_total_entries, 2, SMP2P_MAX_ENTRY), (it_remote_pid, 2, rpid), (it_local_pid, 2, lpid), (0, 4, SMP2P_MAGIC), (it_flags, 4, 0)]"
    using filled_put [OF s6(2), of it_features 3 SMP2P_ALL_FEATURES] by (auto simp: lay)
  show thesis by (rule that [OF _ s7(2)]) (simp only: s1(1) s2(1) s3(1) s4(1) s5(1) s6(1) s7(1) rbind.simps)
qed

lemma valid_item: "item < 2 ^ 16 \<Longrightarrow> valid_request item ITEM_SIZE"
  by (simp add: valid_request_def ITEM_SIZE_def)

text \<open>The version of the inbound item as it is read before the own version is written.\<close>

definition inbound_version :: "qcom_smem \<Rightarrow> nat \<Rightarrow> nat \<Rightarrow> nat" where
  "inbound_version s host item =
     (case qcom_smem_get (Some s) host item of
        OK (p, _) \<Rightarrow> (case sm_num s p it_version 1 of Some v \<Rightarrow> v | None \<Rightarrow> 0)
      | _ \<Rightarrow> 0)"

lemma in_version_spec:
  assumes "w_smem w = Some s" "qcom_smem_get (Some s) (sp_remote_pid (w_dev w)) (sp_smem_in (w_dev w)) \<noteq> UB"
    and "\<And>p n. qcom_smem_get (Some s) (sp_remote_pid (w_dev w)) (sp_smem_in (w_dev w)) = OK (p, n) \<Longrightarrow> room s p ITEM_SIZE"
  shows "qcom_smp2p_in_version w = OK (inbound_version s (sp_remote_pid (w_dev w)) (sp_smem_in (w_dev w)))"
    and "inbound_version s (sp_remote_pid (w_dev w)) (sp_smem_in (w_dev w)) < 256"
proof -
  have "\<exists>v. sm_num s p it_version 1 = Some v \<and> v < 256" if "room s p ITEM_SIZE" for p
    using sm_num_room [OF that, of it_version 1] by (simp add: item_layout)
  then show "qcom_smp2p_in_version w = OK (inbound_version s (sp_remote_pid (w_dev w)) (sp_smem_in (w_dev w)))"
    "inbound_version s (sp_remote_pid (w_dev w)) (sp_smem_in (w_dev w)) < 256"
    using assms by (auto simp: qcom_smp2p_in_version_def inbound_version_def split: result.splits) fastforce+
qed

lemma inbound_version_store:
  assumes "sm_store p d bs s = Some s'" "qcom_smem_get (Some s') host item = qcom_smem_get (Some s) host item"
    and "\<And>q n. qcom_smem_get (Some s) host item = OK (q, n) \<Longrightarrow> separate q it_version 1 p d (length bs)"
  shows "inbound_version s' host item = inbound_version s host item"
  using assms(2,3) sm_num_store_other [OF assms(1), of _ it_version 1] by (auto simp: inbound_version_def split: result.splits)

lemma get_not_UB:
  assumes "has_partition smem host" "wf_partition (partitions smem ! host)"
  shows "qcom_smem_get (Some smem) host item \<noteq> UB"
proof -
  have "qcom_smem_get_private (partitions smem ! host) item \<noteq> UB"
    using get_private_cases [of "partitions smem ! host" item] wf_partitionE [OF assms(2)] by (fastforce split: result.splits)
  then show ?thesis using assms(1) by (auto simp: qcom_smem_get_def rbind_UB_iff)
qed

text \<open>The last steps: the version, the kick and the pointer to the item.\<close>

definition publish :: "smem_ptr \<Rightarrow> smp2p \<Rightarrow> (unit result \<times> smp2p) result" where
  "publish p w =
     rbind (qcom_smp2p_in_version w) (\<lambda>in_version.
     rbind (item_put (Some p) it_version 1 (if in_version \<noteq> 0 then in_version else 1) w) (\<lambda>w'.
       OK (OK (), set_dev (sp_out_update (\<lambda>_. Some p)) (qcom_smp2p_kick w'))))"

definition header :: "nat \<Rightarrow> nat \<Rightarrow> fields" where
  "header lpid rpid =
     [(it_features, 3, SMP2P_ALL_FEATURES), (it_valid_entries, 2, 0), (it_total_entries, 2, SMP2P_MAX_ENTRY),
      (it_remote_pid, 2, rpid), (it_local_pid, 2, lpid), (0, 4, SMP2P_MAGIC), (it_flags, 4, 0)]"

lemma alloc_outbound_header:
  assumes "w_smem w = Some smem" "qcom_smem_alloc (OK ()) (Some smem) (sp_remote_pid (w_dev w)) (sp_smem_out (w_dev w)) ITEM_SIZE = OK smem1"
    and "qcom_smem_get (Some smem1) (sp_remote_pid (w_dev w)) (sp_smem_out (w_dev w)) = OK (p, n)" "room smem1 p ITEM_SIZE"
    and "sp_local_pid (w_dev w) < 2 ^ 16" "sp_remote_pid (w_dev w) < 2 ^ 16"
  obtains s where "qcom_smp2p_alloc_outbound_item (OK ()) w = publish p (w\<lparr>w_smem := Some s\<rparr>)"
    "filled (w\<lparr>w_smem := Some s\<rparr>) p smem1 (header (sp_local_pid (w_dev w)) (sp_remote_pid (w_dev w)))"
proof -
  let ?w1 = "w\<lparr>w_smem := Some smem1\<rparr>"
  show thesis
  proof (rule fill_header [of ?w1 smem1 p "sp_local_pid (w_dev w)" "sp_remote_pid (w_dev w)" "publish p"])
    fix s
    assume eq: "rbind (item_store (Some p) 0 (replicate ITEM_SIZE 0) ?w1) (\<lambda>w2.
     rbind (item_put (Some p) 0 4 SMP2P_MAGIC w2) (\<lambda>w3.
     rbind (item_put (Some p) it_local_pid 2 (sp_local_pid (w_dev w)) w3) (\<lambda>w4.
     rbind (item_put (Some p) it_remote_pid 2 (sp_remote_pid (w_dev w)) w4) (\<lambda>w5.
     rbind (item_put (Some p) it_total_entries 2 SMP2P_MAX_ENTRY w5) (\<lambda>w6.
     rbind (item_put (Some p) it_valid_entries 2 0 w6) (\<lambda>w7.
     rbind (item_put (Some p) it_features 3 SMP2P_ALL_FEATURES w7) (publish p))))))) = publish p (?w1\<lparr>w_smem := Some s\<rparr>)"
      and f: "filled (?w1\<lparr>w_smem := Some s\<rparr>) p smem1
       [(it_features, 3, SMP2P_ALL_FEATURES), (it_valid_entries, 2, 0), (it_total_entries, 2, SMP2P_MAX_ENTRY),
        (it_remote_pid, 2, sp_remote_pid (w_dev w)), (it_local_pid, 2, sp_local_pid (w_dev w)), (0, 4, SMP2P_MAGIC), (it_flags, 4, 0)]"
    have "qcom_smp2p_alloc_outbound_item (OK ()) w = publish p (?w1\<lparr>w_smem := Some s\<rparr>)"
      unfolding eq [symmetric] unfolding publish_def [abs_def] qcom_smp2p_alloc_outbound_item_def Let_def using assms(1-3)
      by (simp del: item_store_Some)
    then show thesis using that [of s] f by (simp add: header_def)
  qed (use assms in simp_all)
qed

lemma publish_spec:
  assumes "filled w p s0 (header lpid rpid)" "w_smem w = Some s"
    and "qcom_smem_get (Some s) (sp_remote_pid (w_dev w)) (sp_smem_in (w_dev w)) \<noteq> UB"
    and "\<And>q n. qcom_smem_get (Some s) (sp_remote_pid (w_dev w)) (sp_smem_in (w_dev w)) = OK (q, n) \<Longrightarrow> room s q ITEM_SIZE"
  obtains s' where "publish p w = OK (OK (), set_dev (sp_out_update (\<lambda>_. Some p)) (qcom_smp2p_kick (w\<lparr>w_smem := Some s'\<rparr>)))"
    "filled (w\<lparr>w_smem := Some s'\<rparr>) p s0 ((it_version, 1, (let v = inbound_version s (sp_remote_pid (w_dev w)) (sp_smem_in (w_dev w)) in if v = 0 then 1 else v)) # header lpid rpid)"
    "sm_store p it_version (le_bytes 1 (let v = inbound_version s (sp_remote_pid (w_dev w)) (sp_smem_in (w_dev w)) in if v = 0 then 1 else v)) s = Some s'"
proof -
  let ?i = "inbound_version s (sp_remote_pid (w_dev w)) (sp_smem_in (w_dev w))"
  define v where "v = (let v = ?i in if v = 0 then 1 else v)"
  note iv = in_version_spec [OF assms(2,3), OF assms(4)]
  have v: "v < 256 ^ 1" "(if ?i \<noteq> 0 then ?i else 1) = v" using iv(2) by (auto simp: v_def Let_def)
  obtain s' where s': "item_put (Some p) it_version 1 v w = OK (w\<lparr>w_smem := Some s'\<rparr>)"
      "filled (w\<lparr>w_smem := Some s'\<rparr>) p s0 ((it_version, 1, v) # header lpid rpid)"
    using filled_put [OF assms(1) _ v(1), of it_version] by (auto simp: item_layout header_def)
  have "sm_store p it_version (le_bytes 1 v) s = Some s'"
    using s'(1) assms(2) by (cases "sm_store p it_version (le_bytes 1 v) s") (auto simp: item_put_def dest: arg_cong [of _ _ w_smem])
  then show thesis
    using that [of s'] s' iv(1) v(2) by (simp add: publish_def v_def [symmetric])
qed

end
