(* ===== verification/Xarray.thy ===== *)
theory Xarray
  imports Prelude
begin

text \<open>
  The kernel's \<^verbatim>\<open>xarray\<close> as the name service uses it: a finite map from indices to
  entries that \<^verbatim>\<open>xa_for_each\<close> visits in ascending order of the index. It is a strictly
  sorted association list; the locale \<open>index_map\<close> states the laws clients rely on.
\<close>

type_synonym 'a xarray = "(nat \<times> 'a) list"

definition xa_load :: "'a xarray \<Rightarrow> nat \<Rightarrow> 'a option" where
  "xa_load xs k = map_of xs k"

fun xa_store :: "'a xarray \<Rightarrow> nat \<Rightarrow> 'a \<Rightarrow> 'a xarray" where
  "xa_store [] k v = [(k, v)]"
| "xa_store ((i, w) # xs) k v =
     (if i < k then (i, w) # xa_store xs k v
      else if i = k then (k, v) # xs else (k, v) # (i, w) # xs)"

definition xa_erase :: "'a xarray \<Rightarrow> nat \<Rightarrow> 'a xarray" where
  "xa_erase xs k = filter (\<lambda>(i, _). i \<noteq> k) xs"

definition xa_ok :: "'a xarray \<Rightarrow> bool" where
  "xa_ok xs = sorted_wrt (<) (map fst xs)"

locale index_map =
  fixes load :: "'m \<Rightarrow> nat \<Rightarrow> 'v option"
    and stor :: "'m \<Rightarrow> nat \<Rightarrow> 'v \<Rightarrow> 'm"
    and erase :: "'m \<Rightarrow> nat \<Rightarrow> 'm"
    and entries :: "'m \<Rightarrow> (nat \<times> 'v) list"
    and ok :: "'m \<Rightarrow> bool"
  assumes load_stor: "ok m \<Longrightarrow> load (stor m k v) i = (if i = k then Some v else load m i)"
    and load_erase: "ok m \<Longrightarrow> load (erase m k) i = (if i = k then None else load m i)"
    and stor_ok: "ok m \<Longrightarrow> ok (stor m k v)"
    and erase_ok: "ok m \<Longrightarrow> ok (erase m k)"
    and entries_load: "ok m \<Longrightarrow> (i, v) \<in> set (entries m) \<longleftrightarrow> load m i = Some v"
    and entries_distinct: "ok m \<Longrightarrow> distinct (map fst (entries m))"
begin

lemma stor_entries:
  "ok m \<Longrightarrow> (i, v) \<in> set (entries (stor m k w)) \<longleftrightarrow> (if i = k then v = w else (i, v) \<in> set (entries m))"
  by (auto simp: entries_load stor_ok load_stor)

lemma erase_entries:
  "ok m \<Longrightarrow> (i, v) \<in> set (entries (erase m k)) \<longleftrightarrow> i \<noteq> k \<and> (i, v) \<in> set (entries m)"
  by (auto simp: entries_load erase_ok load_erase)

lemma erase_all:
  "ok m \<Longrightarrow> ok (fold (\<lambda>k m. erase m k) ks m) \<and>
     load (fold (\<lambda>k m. erase m k) ks m) i = (if i \<in> set ks then None else load m i)"
  by (induction ks arbitrary: m) (auto simp: erase_ok load_erase)

lemma same_entries_iff: "ok m \<Longrightarrow> ok m' \<Longrightarrow> set (entries m) = set (entries m') \<longleftrightarrow> load m = load m'"
proof
  assume *: "ok m" "ok m'" "set (entries m) = set (entries m')"
  show "load m = load m'"
  proof
    fix i
    have "load m i = Some v \<longleftrightarrow> load m' i = Some v" for v using * entries_load by blast
    then show "load m i = load m' i" by (metis not_Some_eq)
  qed
next
  assume *: "ok m" "ok m'" "load m = load m'"
  then show "set (entries m) = set (entries m')" using entries_load by (metis surj_pair subsetI subset_antisym)
qed

end

lemma xa_store_keys: "fst ` set (xa_store xs k v) = insert k (fst ` set xs)"
  by (induction xs k v rule: xa_store.induct) auto

lemma xa_store_ok: "xa_ok xs \<Longrightarrow> xa_ok (xa_store xs k v)"
proof (induction xs k v rule: xa_store.induct)
  case (2 i w xs k v)
  have "\<forall>x \<in> fst ` set (xa_store xs k v). i < x" if "i < k"
    using 2 that by (auto simp: xa_ok_def xa_store_keys)
  with 2 show ?case by (auto simp: xa_ok_def)
qed (simp add: xa_ok_def)

lemma map_of_xa_store: "xa_ok xs \<Longrightarrow> map_of (xa_store xs k v) = (map_of xs)(k \<mapsto> v)"
proof (induction xs k v rule: xa_store.induct)
  case (2 i w xs k v)
  then have "xa_ok xs" by (simp add: xa_ok_def)
  with 2 show ?case by (auto simp: fun_eq_iff)
qed simp

lemma map_of_xa_erase: "map_of (xa_erase xs k) = (map_of xs)(k := None)"
  by (induction xs) (auto simp: xa_erase_def fun_eq_iff)

lemma xa_erase_ok: "xa_ok xs \<Longrightarrow> xa_ok (xa_erase xs k)"
  by (induction xs) (auto simp: xa_ok_def xa_erase_def)

lemma xa_ok_distinct: "xa_ok xs \<Longrightarrow> distinct (map fst xs)"
  by (simp add: xa_ok_def strict_sorted_iff)

interpretation xa: index_map xa_load xa_store xa_erase id xa_ok
proof (unfold_locales, goal_cases)
  case (5 m i v)
  then show ?case using xa_ok_distinct [of m] by (simp add: xa_load_def)
qed (auto simp: xa_load_def map_of_xa_store map_of_xa_erase xa_store_ok xa_erase_ok xa_ok_distinct)

lemma xa_ok_Nil [simp]: "xa_ok []"
  by (simp add: xa_ok_def)

end
