(* ===== verification/Qrtr_Ns.thy ===== *)
theory Qrtr_Ns
  imports Xarray
begin

text \<open>
  The QRTR name service of \<^verbatim>\<open>net/qrtr/ns.c\<close>: the registry of servers per node, the list
  of lookups, and the control commands. The state is explicit; every call of
  \<^verbatim>\<open>kernel_sendmsg\<close> is appended to a log. Two oracles stand for the rest of the kernel:
  \<open>env_send\<close> gives the result of the n-th send and \<open>env_mem\<close> tells whether the n-th memory request
  (\<^verbatim>\<open>kzalloc\<close> or the node allocation inside \<^verbatim>\<open>xa_store\<close>) succeeds. The C fields of type
  \<^verbatim>\<open>unsigned int\<close> are naturals below \<open>2 ^ 32\<close>.
\<close>

subsection \<open>Data\<close>

record sockaddr_qrtr =
  sq_node :: nat
  sq_port :: nat

record qrtr_server =
  srv_service :: nat
  srv_instance :: nat
  srv_node :: nat
  srv_port :: nat

record qrtr_lookup =
  lk_service :: nat
  lk_instance :: nat
  lk_sq :: sockaddr_qrtr

record qrtr_server_filter =
  f_service :: nat
  f_instance :: nat
  f_ifilter :: nat

record qrtr_node =
  n_id :: nat
  n_servers :: "qrtr_server xarray"

text \<open>The control packets the service sends, with the fields it fills in.\<close>

datatype pkt =
    Pkt_Hello
  | Pkt_Bye nat
  | Pkt_Del_Client nat nat
  | Pkt_New_Server nat nat nat nat
  | Pkt_Del_Server nat nat nat nat

record qrtr_ns =
  ns_nodes :: "qrtr_node xarray"
  ns_lookups :: "qrtr_lookup list"
  ns_local_node :: nat
  ns_log :: "(sockaddr_qrtr \<times> pkt) list"
  ns_mem :: nat

record ns_env =
  env_send :: "nat \<Rightarrow> unit result"
  env_mem :: "nat \<Rightarrow> bool"

definition QRTR_NODE_BCAST :: nat where "QRTR_NODE_BCAST = 0xffffffff"
definition QRTR_PORT_CTRL :: nat where "QRTR_PORT_CTRL = 0xfffffffe"

definition bcast_sq :: sockaddr_qrtr where
  "bcast_sq = \<lparr>sq_node = QRTR_NODE_BCAST, sq_port = QRTR_PORT_CTRL\<rparr>"

subsection \<open>Sending\<close>

definition kernel_sendmsg :: "ns_env \<Rightarrow> sockaddr_qrtr \<Rightarrow> pkt \<Rightarrow> qrtr_ns \<Rightarrow> unit result \<times> qrtr_ns" where
  "kernel_sendmsg env dest p s =
     (env_send env (length (ns_log s)), s\<lparr>ns_log := ns_log s @ [(dest, p)]\<rparr>)"

definition new_server_pkt :: "qrtr_server \<Rightarrow> pkt" where
  "new_server_pkt srv = Pkt_New_Server (srv_service srv) (srv_instance srv) (srv_node srv) (srv_port srv)"

definition del_server_pkt :: "qrtr_server \<Rightarrow> pkt" where
  "del_server_pkt srv = Pkt_Del_Server (srv_service srv) (srv_instance srv) (srv_node srv) (srv_port srv)"

definition service_announce_new ::
  "ns_env \<Rightarrow> sockaddr_qrtr \<Rightarrow> qrtr_server \<Rightarrow> qrtr_ns \<Rightarrow> unit result \<times> qrtr_ns" where
  "service_announce_new env dest srv s = kernel_sendmsg env dest (new_server_pkt srv) s"

definition service_announce_del ::
  "ns_env \<Rightarrow> sockaddr_qrtr \<Rightarrow> qrtr_server \<Rightarrow> qrtr_ns \<Rightarrow> qrtr_ns" where
  "service_announce_del env dest srv s = snd (kernel_sendmsg env dest (del_server_pkt srv) s)"

definition lookup_notify ::
  "ns_env \<Rightarrow> sockaddr_qrtr \<Rightarrow> qrtr_server option \<Rightarrow> bool \<Rightarrow> qrtr_ns \<Rightarrow> qrtr_ns" where
  "lookup_notify env dest srv is_new s =
     (let p = (case srv of
                 Some v \<Rightarrow> if is_new then new_server_pkt v else del_server_pkt v
               | None \<Rightarrow> if is_new then Pkt_New_Server 0 0 0 0 else Pkt_Del_Server 0 0 0 0)
      in snd (kernel_sendmsg env dest p s))"

definition say_hello :: "ns_env \<Rightarrow> sockaddr_qrtr \<Rightarrow> qrtr_ns \<Rightarrow> unit result \<times> qrtr_ns" where
  "say_hello env dest s = kernel_sendmsg env dest Pkt_Hello s"

subsection \<open>The registry\<close>

text \<open>Taking memory: the oracle's answer, and the request counted.\<close>

definition take_mem :: "ns_env \<Rightarrow> qrtr_ns \<Rightarrow> bool \<times> qrtr_ns" where
  "take_mem env s = (env_mem env (ns_mem s), s\<lparr>ns_mem := Suc (ns_mem s)\<rparr>)"

definition node_get :: "ns_env \<Rightarrow> nat \<Rightarrow> qrtr_ns \<Rightarrow> qrtr_node option \<times> qrtr_ns" where
  "node_get env node_id s =
     (case xa_load (ns_nodes s) node_id of
        Some node \<Rightarrow> (Some node, s)
      | None \<Rightarrow>
          let (ok, s1) = take_mem env s in
          if \<not> ok then (None, s1)
          else
            let node = \<lparr>n_id = node_id, n_servers = []\<rparr>; (ok2, s2) = take_mem env s1 in
            if \<not> ok2 then (None, s2)
            else (Some node, s2\<lparr>ns_nodes := xa_store (ns_nodes s2) node_id node\<rparr>))"

text \<open>
  The two queries return an \<^verbatim>\<open>int\<close>: the unsigned identifier converted, or \<^verbatim>\<open>-EINVAL\<close>.
\<close>

definition as_int :: "nat \<Rightarrow> int" where
  "as_int v = (if u32 v < 2 ^ 31 then int (u32 v) else int (u32 v) - 2 ^ 32)"

definition neg_EINVAL :: int where "neg_EINVAL = - 22"

definition qrtr_get_service_id :: "qrtr_ns \<Rightarrow> nat \<Rightarrow> nat \<Rightarrow> int" where
  "qrtr_get_service_id s node_id port_id =
     (case xa_load (ns_nodes s) node_id of
        None \<Rightarrow> neg_EINVAL
      | Some node \<Rightarrow>
          (case find (\<lambda>(_, srv). srv_node srv = node_id \<and> srv_port srv = port_id) (n_servers node) of
             None \<Rightarrow> neg_EINVAL | Some (_, srv) \<Rightarrow> as_int (srv_service srv)))"

definition qrtr_get_service_instance_id :: "qrtr_ns \<Rightarrow> nat \<Rightarrow> nat \<Rightarrow> int" where
  "qrtr_get_service_instance_id s node_id port_id =
     (case xa_load (ns_nodes s) node_id of
        None \<Rightarrow> neg_EINVAL
      | Some node \<Rightarrow>
          (case find (\<lambda>(_, srv). srv_node srv = node_id \<and> srv_port srv = port_id) (n_servers node) of
             None \<Rightarrow> neg_EINVAL | Some (_, srv) \<Rightarrow> as_int (srv_instance srv)))"

unbundle bit_operations_syntax

definition server_match :: "qrtr_server \<Rightarrow> qrtr_server_filter \<Rightarrow> bool" where
  "server_match srv f =
     (if f_service f \<noteq> 0 \<and> srv_service srv \<noteq> f_service f then False
      else
        let ifilter = (if f_ifilter f = 0 \<and> f_instance f \<noteq> 0 then 2 ^ 32 - 1 else f_ifilter f)
        in (srv_instance srv AND ifilter) = f_instance f)"

text \<open>The test the notification loops make on a lookup.\<close>

definition lookup_wants :: "qrtr_lookup \<Rightarrow> nat \<Rightarrow> nat \<Rightarrow> bool" where
  "lookup_wants lk service instance =
     (\<not> (lk_service lk \<noteq> 0 \<and> lk_service lk \<noteq> service) \<and>
      \<not> (lk_instance lk \<noteq> 0 \<and> lk_instance lk \<noteq> instance))"

fun notify_lookups ::
  "ns_env \<Rightarrow> qrtr_server \<Rightarrow> nat \<Rightarrow> nat \<Rightarrow> bool \<Rightarrow> qrtr_lookup list \<Rightarrow> qrtr_ns \<Rightarrow> qrtr_ns" where
  "notify_lookups env srv service instance is_new [] s = s"
| "notify_lookups env srv service instance is_new (lk # lks) s =
     notify_lookups env srv service instance is_new lks
       (if lookup_wants lk service instance then lookup_notify env (lk_sq lk) (Some srv) is_new s else s)"

definition server_add ::
  "ns_env \<Rightarrow> nat \<Rightarrow> nat \<Rightarrow> nat \<Rightarrow> nat \<Rightarrow> qrtr_ns \<Rightarrow> qrtr_server option \<times> qrtr_ns" where
  "server_add env service instance node_id port s =
     (if service = 0 \<or> port = 0 then (None, s)
      else
        let (ok, s1) = take_mem env s in
        if \<not> ok then (None, s1)
        else
          let srv = \<lparr>srv_service = service, srv_instance = instance, srv_node = node_id, srv_port = port\<rparr>;
              (node, s2) = node_get env node_id s1 in
          case node of None \<Rightarrow> (None, s2)
          | Some n \<Rightarrow>
              let (ok2, s3) = take_mem env s2 in
              if \<not> ok2 then (None, s3)
              else (Some srv, s3\<lparr>ns_nodes := xa_store (ns_nodes s3) node_id
                                   (n\<lparr>n_servers := xa_store (n_servers n) port srv\<rparr>)\<rparr>))"

definition server_del :: "ns_env \<Rightarrow> nat \<Rightarrow> nat \<Rightarrow> bool \<Rightarrow> qrtr_ns \<Rightarrow> qrtr_ns" where
  "server_del env node_id port bcast s =
     (case xa_load (ns_nodes s) node_id of
        None \<Rightarrow> s
      | Some node \<Rightarrow>
          (case xa_load (n_servers node) port of
             None \<Rightarrow> s
           | Some srv \<Rightarrow>
               let s1 = s\<lparr>ns_nodes := xa_store (ns_nodes s) node_id
                            (node\<lparr>n_servers := xa_erase (n_servers node) port\<rparr>)\<rparr>;
                   s2 = (if srv_node srv = ns_local_node s1 \<and> bcast
                         then service_announce_del env bcast_sq srv s1 else s1)
               in notify_lookups env srv (srv_service srv) (srv_instance srv) False (ns_lookups s2) s2))"

subsection \<open>Control commands\<close>

text \<open>
  The two loops of \<^verbatim>\<open>announce_servers\<close>: \<open>Err\<close> is the early return.
\<close>

fun announce_node_servers ::
  "ns_env \<Rightarrow> sockaddr_qrtr \<Rightarrow> (nat \<times> qrtr_server) list \<Rightarrow> qrtr_ns \<Rightarrow> unit result \<times> qrtr_ns" where
  "announce_node_servers env sq [] s = (OK (), s)"
| "announce_node_servers env sq ((_, srv) # srvs) s =
     (case service_announce_new env sq srv s of
        (Err e, s') \<Rightarrow> if e = ENODEV then announce_node_servers env sq srvs s' else (Err e, s')
      | (UB, s') \<Rightarrow> (UB, s')
      | (OK _, s') \<Rightarrow> announce_node_servers env sq srvs s')"

fun announce_nodes ::
  "ns_env \<Rightarrow> sockaddr_qrtr \<Rightarrow> (nat \<times> qrtr_node) list \<Rightarrow> qrtr_ns \<Rightarrow> unit result \<times> qrtr_ns" where
  "announce_nodes env sq [] s = (OK (), s)"
| "announce_nodes env sq ((_, node) # nodes) s =
     (if n_id node = sq_node sq then announce_nodes env sq nodes s
      else
        (case announce_node_servers env sq (n_servers node) s of
           (OK _, s') \<Rightarrow> announce_nodes env sq nodes s'
         | r \<Rightarrow> r))"

definition announce_servers :: "ns_env \<Rightarrow> sockaddr_qrtr \<Rightarrow> qrtr_ns \<Rightarrow> unit result \<times> qrtr_ns" where
  "announce_servers env sq s = announce_nodes env sq (ns_nodes s) s"

definition ctrl_cmd_hello :: "ns_env \<Rightarrow> sockaddr_qrtr \<Rightarrow> qrtr_ns \<Rightarrow> unit result \<times> qrtr_ns" where
  "ctrl_cmd_hello env sq s =
     (case say_hello env sq s of
        (OK _, s1) \<Rightarrow> announce_servers env sq s1
      | r \<Rightarrow> r)"

text \<open>
  \<^verbatim>\<open>xa_for_each\<close> over a node whose entries the body erases: the indices present at the
  start are visited in order, and one that is gone by then is passed over.
\<close>

fun bye_servers :: "ns_env \<Rightarrow> nat \<Rightarrow> nat list \<Rightarrow> qrtr_ns \<Rightarrow> qrtr_ns" where
  "bye_servers env node_id [] s = s"
| "bye_servers env node_id (i # is) s =
     bye_servers env node_id is
       (case xa_load (ns_nodes s) node_id of
          None \<Rightarrow> s
        | Some node \<Rightarrow>
            (case xa_load (n_servers node) i of
               None \<Rightarrow> s | Some srv \<Rightarrow> server_del env node_id (srv_port srv) True s))"

text \<open>One message to every server of the local node.\<close>

fun tell_servers :: "ns_env \<Rightarrow> pkt \<Rightarrow> (nat \<times> qrtr_server) list \<Rightarrow> qrtr_ns \<Rightarrow> qrtr_ns" where
  "tell_servers env p [] s = s"
| "tell_servers env p ((_, srv) # srvs) s =
     tell_servers env p srvs
       (snd (kernel_sendmsg env \<lparr>sq_node = srv_node srv, sq_port = srv_port srv\<rparr> p s))"

definition ctrl_cmd_bye :: "ns_env \<Rightarrow> sockaddr_qrtr \<Rightarrow> qrtr_ns \<Rightarrow> unit result \<times> qrtr_ns" where
  "ctrl_cmd_bye env from s =
     (case node_get env (sq_node from) s of
        (None, s1) \<Rightarrow> (OK (), s1)
      | (Some node, s1) \<Rightarrow>
          let s2 = bye_servers env (sq_node from) (map fst (n_servers node)) s1 in
          (case node_get env (ns_local_node s2) s2 of
             (None, s3) \<Rightarrow> (OK (), s3)
           | (Some local, s3) \<Rightarrow> (OK (), tell_servers env (Pkt_Bye (sq_node from)) (n_servers local) s3)))"

definition ctrl_cmd_del_client ::
  "ns_env \<Rightarrow> sockaddr_qrtr \<Rightarrow> nat \<Rightarrow> nat \<Rightarrow> qrtr_ns \<Rightarrow> unit result \<times> qrtr_ns" where
  "ctrl_cmd_del_client env from node_id port s =
     (if sq_node from \<noteq> node_id then (Err EINVAL, s)
      else if sq_node from = ns_local_node s \<and> sq_port from \<noteq> port then (Err EINVAL, s)
      else
        let s1 = s\<lparr>ns_lookups := filter (\<lambda>lk. sq_node (lk_sq lk) \<noteq> node_id \<or> sq_port (lk_sq lk) \<noteq> port)
                                   (ns_lookups s)\<rparr>;
            (node, s2) = node_get env node_id s1;
            s3 = (case node of None \<Rightarrow> s2 | Some _ \<Rightarrow> server_del env node_id port False s2)
        in (case node_get env (ns_local_node s3) s3 of
              (None, s4) \<Rightarrow> (OK (), s4)
            | (Some local, s4) \<Rightarrow>
                (OK (), tell_servers env (Pkt_Del_Client node_id port) (n_servers local) s4)))"

definition ctrl_cmd_new_server ::
  "ns_env \<Rightarrow> sockaddr_qrtr \<Rightarrow> nat \<Rightarrow> nat \<Rightarrow> nat \<Rightarrow> nat \<Rightarrow> qrtr_ns \<Rightarrow> unit result \<times> qrtr_ns" where
  "ctrl_cmd_new_server env from service instance node_id port s =
     (let (node_id, port) = (if sq_node from = ns_local_node s then (sq_node from, sq_port from)
                             else (node_id, port)) in
      case server_add env service instance node_id port s of
        (None, s1) \<Rightarrow> (Err EINVAL, s1)
      | (Some srv, s1) \<Rightarrow>
          (case (if srv_node srv = ns_local_node s1 then service_announce_new env bcast_sq srv s1
                 else (OK (), s1)) of
             (OK _, s2) \<Rightarrow> (OK (), notify_lookups env srv service instance True (ns_lookups s2) s2)
           | r \<Rightarrow> r))"

definition ctrl_cmd_del_server ::
  "ns_env \<Rightarrow> sockaddr_qrtr \<Rightarrow> nat \<Rightarrow> nat \<Rightarrow> nat \<Rightarrow> nat \<Rightarrow> qrtr_ns \<Rightarrow> unit result \<times> qrtr_ns" where
  "ctrl_cmd_del_server env from service instance node_id port s =
     (let (node_id, port) = (if sq_node from = ns_local_node s then (sq_node from, sq_port from)
                             else (node_id, port)) in
      if sq_node from = ns_local_node s \<and> sq_port from \<noteq> port then (Err EINVAL, s)
      else
        (case node_get env node_id s of
           (None, s1) \<Rightarrow> (Err ENOENT, s1)
         | (Some _, s1) \<Rightarrow> (OK (), server_del env node_id port True s1)))"

text \<open>All servers, in the order the two nested \<^verbatim>\<open>xa_for_each\<close> loops visit them.\<close>

definition all_servers :: "qrtr_ns \<Rightarrow> qrtr_server list" where
  "all_servers s = concat (map (\<lambda>(_, node). map snd (n_servers node)) (ns_nodes s))"

fun notify_matching ::
  "ns_env \<Rightarrow> sockaddr_qrtr \<Rightarrow> qrtr_server_filter \<Rightarrow> qrtr_server list \<Rightarrow> qrtr_ns \<Rightarrow> qrtr_ns" where
  "notify_matching env from f [] s = s"
| "notify_matching env from f (srv # srvs) s =
     notify_matching env from f srvs
       (if \<not> server_match srv f then s else lookup_notify env from (Some srv) True s)"

definition ctrl_cmd_new_lookup ::
  "ns_env \<Rightarrow> sockaddr_qrtr \<Rightarrow> nat \<Rightarrow> nat \<Rightarrow> qrtr_ns \<Rightarrow> unit result \<times> qrtr_ns" where
  "ctrl_cmd_new_lookup env from service instance s =
     (if sq_node from \<noteq> ns_local_node s then (Err EINVAL, s)
      else
        let (ok, s1) = take_mem env s in
        if \<not> ok then (Err ENOMEM, s1)
        else
          let s2 = s1\<lparr>ns_lookups := ns_lookups s1 @
                       [\<lparr>lk_service = service, lk_instance = instance, lk_sq = from\<rparr>]\<rparr>;
              f = \<lparr>f_service = service, f_instance = instance, f_ifilter = 0\<rparr>;
              s3 = notify_matching env from f (all_servers s2) s2
          in (OK (), lookup_notify env from None True s3))"

definition ctrl_cmd_del_lookup :: "sockaddr_qrtr \<Rightarrow> nat \<Rightarrow> nat \<Rightarrow> qrtr_ns \<Rightarrow> qrtr_ns" where
  "ctrl_cmd_del_lookup from service instance s =
     s\<lparr>ns_lookups := filter (\<lambda>lk. sq_node (lk_sq lk) \<noteq> sq_node from \<or> sq_port (lk_sq lk) \<noteq> sq_port from
          \<or> lk_service lk \<noteq> service \<or> (lk_instance lk \<noteq> 0 \<and> lk_instance lk \<noteq> instance)) (ns_lookups s)\<rparr>"

subsection \<open>The worker\<close>

definition QRTR_TYPE_HELLO :: nat where "QRTR_TYPE_HELLO = 2"
definition QRTR_TYPE_BYE :: nat where "QRTR_TYPE_BYE = 3"
definition QRTR_TYPE_NEW_SERVER :: nat where "QRTR_TYPE_NEW_SERVER = 4"
definition QRTR_TYPE_DEL_SERVER :: nat where "QRTR_TYPE_DEL_SERVER = 5"
definition QRTR_TYPE_DEL_CLIENT :: nat where "QRTR_TYPE_DEL_CLIENT = 6"
definition QRTR_TYPE_NEW_LOOKUP :: nat where "QRTR_TYPE_NEW_LOOKUP = 10"
definition QRTR_TYPE_DEL_LOOKUP :: nat where "QRTR_TYPE_DEL_LOOKUP = 11"

lemmas qrtr_types = QRTR_TYPE_HELLO_def QRTR_TYPE_BYE_def QRTR_TYPE_NEW_SERVER_def
  QRTR_TYPE_DEL_SERVER_def QRTR_TYPE_DEL_CLIENT_def QRTR_TYPE_NEW_LOOKUP_def QRTR_TYPE_DEL_LOOKUP_def

text \<open>
  \<^verbatim>\<open>struct qrtr_ctrl_pkt\<close>: the command and the four words of its union; a client packet
  has its node and port in the first two.
\<close>

definition ns_dispatch ::
  "ns_env \<Rightarrow> sockaddr_qrtr \<Rightarrow> nat \<Rightarrow> nat \<Rightarrow> nat \<Rightarrow> nat \<Rightarrow> nat \<Rightarrow> qrtr_ns \<Rightarrow> unit result \<times> qrtr_ns" where
  "ns_dispatch env sq cmd w0 w1 w2 w3 s =
     (if cmd = QRTR_TYPE_HELLO then ctrl_cmd_hello env sq s
      else if cmd = QRTR_TYPE_BYE then ctrl_cmd_bye env sq s
      else if cmd = QRTR_TYPE_DEL_CLIENT then ctrl_cmd_del_client env sq w0 w1 s
      else if cmd = QRTR_TYPE_NEW_SERVER then ctrl_cmd_new_server env sq w0 w1 w2 w3 s
      else if cmd = QRTR_TYPE_DEL_SERVER then ctrl_cmd_del_server env sq w0 w1 w2 w3 s
      else if cmd = QRTR_TYPE_NEW_LOOKUP then ctrl_cmd_new_lookup env sq w0 w1 s
      else if cmd = QRTR_TYPE_DEL_LOOKUP then (OK (), ctrl_cmd_del_lookup sq w0 w1 s)
      else (OK (), s))"

definition recv_buf_size :: nat where "recv_buf_size = 4096"

text \<open>Receiving copies the message over the start of the buffer; the rest keeps its bytes.\<close>

definition kernel_recvmsg :: "bytes \<Rightarrow> bytes \<Rightarrow> bytes" where
  "kernel_recvmsg buf msg = take recv_buf_size msg @ drop (length (take recv_buf_size msg)) buf"

fun qrtr_ns_worker :: "ns_env \<Rightarrow> bytes \<Rightarrow> (sockaddr_qrtr \<times> bytes) list \<Rightarrow> qrtr_ns \<Rightarrow> qrtr_ns result" where
  "qrtr_ns_worker env buf [] s = OK s"
| "qrtr_ns_worker env buf ((sq, msg) # msgs) s =
     (let buf' = kernel_recvmsg buf msg in
      rbind (of_opt (num buf' 0 4)) (\<lambda>cmd.
      rbind (of_opt (num buf' 4 4)) (\<lambda>w0.
      rbind (of_opt (num buf' 8 4)) (\<lambda>w1.
      rbind (of_opt (num buf' 12 4)) (\<lambda>w2.
      rbind (of_opt (num buf' 16 4)) (\<lambda>w3.
        qrtr_ns_worker env buf' msgs (snd (ns_dispatch env sq cmd w0 w1 w2 w3 s))))))))"

definition qrtr_ns_work :: "ns_env \<Rightarrow> bool \<Rightarrow> (sockaddr_qrtr \<times> bytes) list \<Rightarrow> qrtr_ns \<Rightarrow> qrtr_ns result" where
  "qrtr_ns_work env kzalloc_ok msgs s =
     (if \<not> kzalloc_ok then OK s else qrtr_ns_worker env (replicate recv_buf_size 0) msgs s)"

text \<open>
  \<^verbatim>\<open>qrtr_ns_init\<close>, with the results of creating, naming and binding the socket and of
  starting the worker as arguments. A failed start of the worker returns the result of
  \<^verbatim>\<open>kernel_getsockname\<close>, which is not an error.
\<close>

definition qrtr_ns_init ::
  "ns_env \<Rightarrow> unit result \<Rightarrow> nat result \<Rightarrow> bool \<Rightarrow> unit result \<Rightarrow> qrtr_ns option result" where
  "qrtr_ns_init env sock_create getsockname worker_started bind_result =
     rbind sock_create (\<lambda>_.
     rbind getsockname (\<lambda>node.
       if \<not> worker_started then OK None
       else
         rbind bind_result (\<lambda>_.
           let s = \<lparr>ns_nodes = [], ns_lookups = [], ns_local_node = node, ns_log = [], ns_mem = 0\<rparr> in
           (case say_hello env bcast_sq s of
              (OK _, s') \<Rightarrow> OK (Some s') | (Err e, _) \<Rightarrow> Err e | (UB, _) \<Rightarrow> UB))))"

end
