(* ===== verification/Qrtr_Ns_Inv.thy ===== *)
theory Qrtr_Ns_Inv
  imports Qrtr_Ns
begin

text \<open>
  The invariant of the name service and the abstract registry it implements: a partial map from
  addresses (node and port) to service and instance. Every control command keeps the
  invariant and changes the registry as \<open>registry_spec\<close> says.
\<close>

subsection \<open>What sending leaves alone\<close>

named_theorems ns_frame \<open>fields the sending functions do not change\<close>

lemma kernel_sendmsg_frame [ns_frame]:
  "ns_nodes (snd (kernel_sendmsg env d p s)) = ns_nodes s"
  "ns_lookups (snd (kernel_sendmsg env d p s)) = ns_lookups s"
  "ns_local_node (snd (kernel_sendmsg env d p s)) = ns_local_node s"
  "ns_mem (snd (kernel_sendmsg env d p s)) = ns_mem s"
  by (simp_all add: kernel_sendmsg_def)

lemma send_frame [ns_frame]:
  "ns_nodes (snd (service_announce_new env d srv s)) = ns_nodes s"
  "ns_lookups (snd (service_announce_new env d srv s)) = ns_lookups s"
  "ns_local_node (snd (service_announce_new env d srv s)) = ns_local_node s"
  "ns_nodes (service_announce_del env d srv s) = ns_nodes s"
  "ns_lookups (service_announce_del env d srv s) = ns_lookups s"
  "ns_local_node (service_announce_del env d srv s) = ns_local_node s"
  "ns_nodes (lookup_notify env d v b s) = ns_nodes s"
  "ns_lookups (lookup_notify env d v b s) = ns_lookups s"
  "ns_local_node (lookup_notify env d v b s) = ns_local_node s"
  "ns_mem (lookup_notify env d v b s) = ns_mem s"
  by (simp_all add: service_announce_new_def service_announce_del_def lookup_notify_def ns_frame)

lemma notify_lookups_frame [ns_frame]:
  "ns_nodes (notify_lookups env srv sv i b lks s) = ns_nodes s"
  "ns_lookups (notify_lookups env srv sv i b lks s) = ns_lookups s"
  "ns_local_node (notify_lookups env srv sv i b lks s) = ns_local_node s"
  by (induction lks arbitrary: s) (simp_all add: ns_frame)

lemma notify_matching_frame [ns_frame]:
  "ns_nodes (notify_matching env from f srvs s) = ns_nodes s"
  "ns_lookups (notify_matching env from f srvs s) = ns_lookups s"
  "ns_local_node (notify_matching env from f srvs s) = ns_local_node s"
  by (induction srvs arbitrary: s) (simp_all add: ns_frame)

lemma tell_servers_frame [ns_frame]:
  "ns_nodes (tell_servers env p srvs s) = ns_nodes s"
  "ns_lookups (tell_servers env p srvs s) = ns_lookups s"
  "ns_local_node (tell_servers env p srvs s) = ns_local_node s"
  by (induction srvs arbitrary: s) (auto simp: ns_frame)

lemma announce_node_servers_frame [ns_frame]:
  "ns_nodes (snd (announce_node_servers env sq srvs s)) = ns_nodes s \<and>
   ns_lookups (snd (announce_node_servers env sq srvs s)) = ns_lookups s \<and>
   ns_local_node (snd (announce_node_servers env sq srvs s)) = ns_local_node s"
proof (induction env sq srvs s rule: announce_node_servers.induct)
  case (2 env sq i srv srvs s)
  show ?case
    using 2 send_frame(1-3) [of env sq srv s]
    by (cases "service_announce_new env sq srv s"; cases "fst (service_announce_new env sq srv s)") auto
qed simp

lemma announce_nodes_frame [ns_frame]:
  "ns_nodes (snd (announce_nodes env sq nodes s)) = ns_nodes s \<and>
   ns_lookups (snd (announce_nodes env sq nodes s)) = ns_lookups s \<and>
   ns_local_node (snd (announce_nodes env sq nodes s)) = ns_local_node s"
proof (induction env sq nodes s rule: announce_nodes.induct)
  case (2 env sq i node nodes s)
  show ?case
    using 2 announce_node_servers_frame [of env sq "n_servers node" s]
    by (cases "announce_node_servers env sq (n_servers node) s";
        cases "fst (announce_node_servers env sq (n_servers node) s)") auto
qed simp

lemma hello_frame [ns_frame]:
  "ns_nodes (snd (ctrl_cmd_hello env sq s)) = ns_nodes s \<and>
   ns_lookups (snd (ctrl_cmd_hello env sq s)) = ns_lookups s \<and>
   ns_local_node (snd (ctrl_cmd_hello env sq s)) = ns_local_node s"
  using announce_nodes_frame kernel_sendmsg_frame [of env sq Pkt_Hello s]
  by (cases "kernel_sendmsg env sq Pkt_Hello s"; cases "fst (kernel_sendmsg env sq Pkt_Hello s)")
    (auto simp: ctrl_cmd_hello_def say_hello_def announce_servers_def)

subsection \<open>The invariant and the abstract registry\<close>

text \<open>
  Every server is filed under its own node and port, with a service and a port that are not
  zero; every lookup comes from the local node.
\<close>

definition node_ok :: "nat \<Rightarrow> qrtr_node \<Rightarrow> bool" where
  "node_ok nid node =
     (n_id node = nid \<and> xa_ok (n_servers node) \<and>
      list_all (\<lambda>(p, srv). srv_node srv = nid \<and> srv_port srv = p \<and> srv_service srv \<noteq> 0 \<and> p \<noteq> 0) (n_servers node))"

definition ns_inv :: "qrtr_ns \<Rightarrow> bool" where
  "ns_inv s =
     (xa_ok (ns_nodes s) \<and> list_all (\<lambda>(nid, node). node_ok nid node) (ns_nodes s) \<and>
      list_all (\<lambda>lk. sq_node (lk_sq lk) = ns_local_node s) (ns_lookups s))"

definition registry :: "qrtr_ns \<Rightarrow> nat \<times> nat \<rightharpoonup> nat \<times> nat" where
  "registry s = (\<lambda>(n, p).
     case xa_load (ns_nodes s) n of
       None \<Rightarrow> None
     | Some node \<Rightarrow> map_option (\<lambda>srv. (srv_service srv, srv_instance srv)) (xa_load (n_servers node) p))"

lemma xa_load_Nil: "xa_load [] k = None"
  by (simp add: xa_load_def)

lemma node_okI:
  assumes "n_id node = nid" "xa_ok (n_servers node)"
    "\<And>p srv. xa_load (n_servers node) p = Some srv \<Longrightarrow>
       srv_node srv = nid \<and> srv_port srv = p \<and> srv_service srv \<noteq> 0 \<and> p \<noteq> 0"
  shows "node_ok nid node"
  using assms xa.entries_load [OF assms(2)] by (auto simp: node_ok_def list_all_iff)

lemma node_okD:
  assumes "node_ok nid node"
  shows "n_id node = nid" "xa_ok (n_servers node)"
    "xa_load (n_servers node) p = Some srv \<Longrightarrow>
       srv_node srv = nid \<and> srv_port srv = p \<and> srv_service srv \<noteq> 0 \<and> p \<noteq> 0"
  using assms xa.entries_load [of "n_servers node" p srv] by (auto simp: node_ok_def list_all_iff)

lemma ns_invD:
  assumes "ns_inv s"
  shows "xa_ok (ns_nodes s)" "xa_load (ns_nodes s) nid = Some node \<Longrightarrow> node_ok nid node"
  using assms xa.entries_load [of "ns_nodes s" nid node] by (auto simp: ns_inv_def list_all_iff)

lemma ns_inv_store:
  assumes "ns_inv s" "node_ok nid node"
  shows "ns_inv (s\<lparr>ns_nodes := xa_store (ns_nodes s) nid node\<rparr>)"
proof -
  have ok: "xa_ok (ns_nodes s)" using assms(1) by (simp add: ns_inv_def)
  have entry: "(i, v) \<in> set (xa_store (ns_nodes s) nid node) \<longleftrightarrow>
      (if i = nid then v = node else (i, v) \<in> set (ns_nodes s))" for i v
    using xa.stor_entries [OF ok, of i v nid node] by simp
  have "list_all (\<lambda>(nid, node). node_ok nid node) (xa_store (ns_nodes s) nid node)"
    using assms by (auto simp: ns_inv_def list_all_iff entry split: if_splits)
  then show ?thesis using assms(1) xa.stor_ok [OF ok] by (simp add: ns_inv_def)
qed

lemma ns_inv_eq:
  "ns_nodes s' = ns_nodes s \<Longrightarrow> ns_lookups s' = ns_lookups s \<Longrightarrow> ns_local_node s' = ns_local_node s \<Longrightarrow>
     ns_inv s' = ns_inv s"
  by (simp add: ns_inv_def)

lemma registry_eq: "ns_nodes s' = ns_nodes s \<Longrightarrow> registry s' = registry s"
  by (simp add: registry_def)

lemma registry_store:
  "xa_ok (ns_nodes s) \<Longrightarrow> registry (s\<lparr>ns_nodes := xa_store (ns_nodes s) nid node\<rparr>) (n, p) =
     (if n = nid then map_option (\<lambda>srv. (srv_service srv, srv_instance srv)) (xa_load (n_servers node) p)
      else registry s (n, p))"
  by (simp add: registry_def xa.load_stor)

subsection \<open>Effect of the registry operations\<close>

lemma node_get_effect:
  assumes "ns_inv s" "node_get env nid s = (r, s')"
  shows "ns_inv s'" "registry s' = registry s" "ns_lookups s' = ns_lookups s" "ns_local_node s' = ns_local_node s"
    "ns_log s' = ns_log s" "r = Some node \<Longrightarrow> xa_load (ns_nodes s') nid = Some node"
    "(\<forall>n. env_mem env n) \<Longrightarrow> r \<noteq> None" "r = None \<Longrightarrow> ns_nodes s' = ns_nodes s"
proof -
  note ok = ns_invD(1) [OF assms(1)]
  have new: "node_ok nid \<lparr>n_id = nid, n_servers = []\<rparr>" by (simp add: node_ok_def)
  note [simp] = node_get_def take_mem_def Let_def
  show "ns_lookups s' = ns_lookups s" "ns_local_node s' = ns_local_node s" "ns_log s' = ns_log s"
    using assms(2) by (auto split: option.splits if_splits)
  show "ns_inv s'"
    using assms ns_inv_store [OF _ new, of "s\<lparr>ns_mem := Suc (Suc (ns_mem s))\<rparr>"]
    by (auto simp: ns_inv_def split: option.splits if_splits)
  show "registry s' = registry s"
  proof (cases "xa_load (ns_nodes s) nid")
    case None
    then have "registry s' (n, p) = registry s (n, p)" for n p
      using assms(2) ok by (auto simp: registry_def xa.load_stor xa_load_Nil split: if_splits option.splits)
    then show ?thesis by auto
  qed (use assms(2) in auto)
  show "r = Some node \<Longrightarrow> xa_load (ns_nodes s') nid = Some node"
    using assms(2) ok by (auto simp: xa.load_stor split: option.splits if_splits)
  show "(\<forall>n. env_mem env n) \<Longrightarrow> r \<noteq> None" "r = None \<Longrightarrow> ns_nodes s' = ns_nodes s"
    using assms(2) by (cases "xa_load (ns_nodes s) nid"; auto split: if_splits)+
qed


lemma server_add_effect:
  assumes "ns_inv s" "server_add env svc inst n p s = (r, s')"
  shows "ns_inv s'" "ns_lookups s' = ns_lookups s" "ns_local_node s' = ns_local_node s" "ns_log s' = ns_log s"
    "r = None \<Longrightarrow> registry s' = registry s"
    "r = Some srv \<Longrightarrow> registry s' = (registry s)((n, p) \<mapsto> (svc, inst)) \<and> svc \<noteq> 0 \<and> p \<noteq> 0 \<and>
       srv = \<lparr>srv_service = svc, srv_instance = inst, srv_node = n, srv_port = p\<rparr>"
    "(\<forall>n. env_mem env n) \<Longrightarrow> svc \<noteq> 0 \<Longrightarrow> p \<noteq> 0 \<Longrightarrow> r \<noteq> None"
proof -
  have "ns_inv s' \<and> ns_lookups s' = ns_lookups s \<and> ns_local_node s' = ns_local_node s \<and> ns_log s' = ns_log s \<and>
    (r = None \<longrightarrow> registry s' = registry s) \<and>
    (\<forall>srv. r = Some srv \<longrightarrow> registry s' = (registry s)((n, p) \<mapsto> (svc, inst)) \<and> svc \<noteq> 0 \<and> p \<noteq> 0 \<and>
       srv = \<lparr>srv_service = svc, srv_instance = inst, srv_node = n, srv_port = p\<rparr>) \<and>
    ((\<forall>n. env_mem env n) \<longrightarrow> svc \<noteq> 0 \<longrightarrow> p \<noteq> 0 \<longrightarrow> r \<noteq> None)"
  proof (cases "svc = 0 \<or> p = 0 \<or> \<not> env_mem env (ns_mem s)")
    case True
    then show ?thesis using assms
      by (auto simp: server_add_def take_mem_def ns_inv_def registry_def split: if_splits)
  next
    case False
    let ?s1 = "s\<lparr>ns_mem := Suc (ns_mem s)\<rparr>"
    let ?srv = "\<lparr>srv_service = svc, srv_instance = inst, srv_node = n, srv_port = p\<rparr>"
    obtain node s2 where g: "node_get env n ?s1 = (node, s2)" by (cases "node_get env n ?s1")
    have inv1: "ns_inv ?s1" using assms(1) by (simp add: ns_inv_def)
    note e = node_get_effect [OF inv1 g]
    have reg1: "registry ?s1 = registry s" by (rule registry_eq) simp
    show ?thesis
    proof (cases "node = None \<or> \<not> env_mem env (ns_mem s2)")
      case True
      then have "s' = s2 \<or> s' = s2\<lparr>ns_mem := Suc (ns_mem s2)\<rparr>" "r = None"
        using assms(2) False g by (auto simp: server_add_def take_mem_def Let_def split: option.splits if_splits)
      moreover have "\<not> (\<forall>n. env_mem env n)" using True e(7) by auto
      ultimately show ?thesis using e reg1 by (auto simp: ns_inv_def registry_def)
    next
      case ok: False
      then obtain nd where nd: "node = Some nd" by auto
      let ?nd' = "nd\<lparr>n_servers := xa_store (n_servers nd) p ?srv\<rparr>"
      have s': "s' = s2\<lparr>ns_mem := Suc (ns_mem s2), ns_nodes := xa_store (ns_nodes s2) n ?nd'\<rparr>" "r = Some ?srv"
        using assms(2) False g ok nd by (auto simp: server_add_def take_mem_def Let_def)
      have load: "xa_load (ns_nodes s2) n = Some nd" using e(6) nd by blast
      note nok = node_okD [OF ns_invD(2) [OF e(1) load]]
      have "node_ok n ?nd'"
        using nok False by (intro node_okI) (auto simp: xa.stor_ok xa.load_stor split: if_splits)
      then have inv: "ns_inv s'"
        using ns_inv_store [of "s2\<lparr>ns_mem := Suc (ns_mem s2)\<rparr>" n ?nd'] e(1) s'(1) by (simp add: ns_inv_def)
      have "registry s2 (n, b) = map_option (\<lambda>srv. (srv_service srv, srv_instance srv)) (xa_load (n_servers nd) b)" for b
        using load by (simp add: registry_def)
      then have "registry s' (a, b) = ((registry s2)((n, p) \<mapsto> (svc, inst))) (a, b)" for a b
        using ns_invD(1) [OF e(1)] nok(2) by (auto simp: s'(1) registry_def xa.load_stor)
      then have "registry s' = (registry s)((n, p) \<mapsto> (svc, inst))" using e(2) reg1 by auto
      then show ?thesis using inv e False s' by auto
    qed
  qed
  then show "ns_inv s'" "ns_lookups s' = ns_lookups s" "ns_local_node s' = ns_local_node s" "ns_log s' = ns_log s"
    "r = None \<Longrightarrow> registry s' = registry s"
    "r = Some srv \<Longrightarrow> registry s' = (registry s)((n, p) \<mapsto> (svc, inst)) \<and> svc \<noteq> 0 \<and> p \<noteq> 0 \<and>
       srv = \<lparr>srv_service = svc, srv_instance = inst, srv_node = n, srv_port = p\<rparr>"
    "(\<forall>n. env_mem env n) \<Longrightarrow> svc \<noteq> 0 \<Longrightarrow> p \<noteq> 0 \<Longrightarrow> r \<noteq> None"
    by auto
qed

lemma server_del_effect:
  assumes "ns_inv s"
  shows "ns_inv (server_del env n p b s)" "registry (server_del env n p b s) = (registry s)((n, p) := None)"
    "ns_lookups (server_del env n p b s) = ns_lookups s" "ns_local_node (server_del env n p b s) = ns_local_node s"
proof -
  have "ns_inv (server_del env n p b s) \<and> registry (server_del env n p b s) = (registry s)((n, p) := None) \<and>
    ns_lookups (server_del env n p b s) = ns_lookups s \<and> ns_local_node (server_del env n p b s) = ns_local_node s"
  proof (cases "\<exists>node srv. xa_load (ns_nodes s) n = Some node \<and> xa_load (n_servers node) p = Some srv")
    case True
    then obtain node srv where l: "xa_load (ns_nodes s) n = Some node" "xa_load (n_servers node) p = Some srv" by blast
    let ?node' = "node\<lparr>n_servers := xa_erase (n_servers node) p\<rparr>"
    let ?s1 = "s\<lparr>ns_nodes := xa_store (ns_nodes s) n ?node'\<rparr>"
    note nok = node_okD [OF ns_invD(2) [OF assms l(1)]]
    have "node_ok n ?node'"
      using nok by (intro node_okI) (auto simp: xa.erase_ok xa.load_erase split: if_splits)
    then have inv1: "ns_inv ?s1" using assms by (rule ns_inv_store [rotated])
    have eq: "ns_nodes (server_del env n p b s) = ns_nodes ?s1" "ns_lookups (server_del env n p b s) = ns_lookups s"
      "ns_local_node (server_del env n p b s) = ns_local_node s"
      using l by (auto simp: server_del_def Let_def ns_frame)
    have "registry s (n, b) = map_option (\<lambda>srv. (srv_service srv, srv_instance srv)) (xa_load (n_servers node) b)" for b
      using l by (simp add: registry_def)
    then have "registry ?s1 (a, c) = ((registry s)((n, p) := None)) (a, c)" for a c
      using registry_store [OF ns_invD(1) [OF assms], of n ?node' a c] nok(2) by (auto simp: xa.load_erase)
    then have "registry (server_del env n p b s) = (registry s)((n, p) := None)"
      using registry_eq [OF eq(1)] by auto
    moreover have "ns_inv (server_del env n p b s)" using inv1 eq by (simp add: ns_inv_def)
    ultimately show ?thesis using eq by blast
  next
    case False
    then have "server_del env n p b s = s" by (auto simp: server_del_def split: option.splits)
    moreover have "registry s (n, p) = None" using False by (auto simp: registry_def split: option.splits)
    ultimately show ?thesis using assms by auto
  qed
  then show "ns_inv (server_del env n p b s)" "registry (server_del env n p b s) = (registry s)((n, p) := None)"
    "ns_lookups (server_del env n p b s) = ns_lookups s" "ns_local_node (server_del env n p b s) = ns_local_node s"
    by blast+
qed

lemma bye_servers_effect:
  "ns_inv s \<Longrightarrow> ns_inv (bye_servers env n is s) \<and>
     registry (bye_servers env n is s) = (\<lambda>(a, p). if a = n \<and> p \<in> set is then None else registry s (a, p)) \<and>
     ns_lookups (bye_servers env n is s) = ns_lookups s \<and> ns_local_node (bye_servers env n is s) = ns_local_node s"
proof (induction "is" arbitrary: s)
  case (Cons i "is")
  let ?s' = "case xa_load (ns_nodes s) n of None \<Rightarrow> s
    | Some node \<Rightarrow> (case xa_load (n_servers node) i of None \<Rightarrow> s
                    | Some srv \<Rightarrow> server_del env n (srv_port srv) True s)"
  have "ns_inv ?s' \<and> registry ?s' = (registry s)((n, i) := None) \<and> ns_lookups ?s' = ns_lookups s \<and>
    ns_local_node ?s' = ns_local_node s"
  proof (cases "\<exists>node srv. xa_load (ns_nodes s) n = Some node \<and> xa_load (n_servers node) i = Some srv")
    case True
    then obtain node srv where l: "xa_load (ns_nodes s) n = Some node" "xa_load (n_servers node) i = Some srv" by blast
    have "srv_port srv = i" using node_okD(3) [OF ns_invD(2) [OF Cons.prems l(1)] l(2)] by simp
    then show ?thesis using l server_del_effect [OF Cons.prems] by simp
  next
    case False
    then have "?s' = s" "registry s (n, i) = None" by (auto simp: registry_def split: option.splits)
    then show ?thesis using Cons.prems by (auto simp: fun_eq_iff)
  qed
  then show ?case using Cons.IH [of ?s'] by (auto simp: fun_eq_iff)
qed auto

subsection \<open>The commands refine the registry\<close>

definition reg_target :: "nat \<Rightarrow> sockaddr_qrtr \<Rightarrow> nat \<Rightarrow> nat \<Rightarrow> nat \<times> nat" where
  "reg_target local from node port = (if sq_node from = local then (sq_node from, sq_port from) else (node, port))"

definition registry_spec ::
  "nat \<Rightarrow> sockaddr_qrtr \<Rightarrow> nat \<Rightarrow> nat \<Rightarrow> nat \<Rightarrow> nat \<Rightarrow> nat \<Rightarrow> (nat \<times> nat \<rightharpoonup> nat \<times> nat) \<Rightarrow> (nat \<times> nat \<rightharpoonup> nat \<times> nat)" where
  "registry_spec local from cmd w0 w1 w2 w3 R =
     (if cmd = QRTR_TYPE_BYE then (\<lambda>(n, p). if n = sq_node from then None else R (n, p))
      else if cmd = QRTR_TYPE_DEL_CLIENT then
        (if sq_node from \<noteq> w0 \<or> (sq_node from = local \<and> sq_port from \<noteq> w1) then R else R((w0, w1) := None))
      else if cmd = QRTR_TYPE_NEW_SERVER then
        (let (n, p) = reg_target local from w2 w3 in if w0 = 0 \<or> p = 0 then R else R((n, p) \<mapsto> (w0, w1)))
      else if cmd = QRTR_TYPE_DEL_SERVER then R(reg_target local from w2 w3 := None)
      else R)"

definition mem_available :: "ns_env \<Rightarrow> bool" where
  "mem_available env = (\<forall>n. env_mem env n)"

definition refines :: "bool \<Rightarrow> (nat \<times> nat \<rightharpoonup> nat \<times> nat) \<Rightarrow> (nat \<times> nat \<rightharpoonup> nat \<times> nat) \<Rightarrow> qrtr_ns \<Rightarrow> bool" where
  "refines mem R R' s' = (ns_inv s' \<and> (if mem then registry s' = R' else registry s' = R' \<or> registry s' = R))"

lemma bye_refines:
  assumes "ns_inv s"
  shows "refines (mem_available env) (registry s) (\<lambda>(n, p). if n = sq_node from then None else registry s (n, p))
    (snd (ctrl_cmd_bye env from s))" "ns_local_node (snd (ctrl_cmd_bye env from s)) = ns_local_node s"
proof -
  obtain r s1 where g: "node_get env (sq_node from) s = (r, s1)" by (cases "node_get env (sq_node from) s")
  note e1 = node_get_effect [OF assms g]
  have "refines (mem_available env) (registry s) (\<lambda>(n, p). if n = sq_node from then None else registry s (n, p))
    (snd (ctrl_cmd_bye env from s)) \<and> ns_local_node (snd (ctrl_cmd_bye env from s)) = ns_local_node s"
  proof (cases r)
    case None
    then show ?thesis using g e1 by (auto simp: ctrl_cmd_bye_def refines_def mem_available_def)
  next
    case (Some node)
    let ?s2 = "bye_servers env (sq_node from) (map fst (n_servers node)) s1"
    note e2 = bye_servers_effect [OF e1(1), of env "sq_node from" "map fst (n_servers node)"]
    have load: "xa_load (ns_nodes s1) (sq_node from) = Some node" using e1(6) Some by blast
    have "registry s1 (sq_node from, p) = None" if "p \<notin> fst ` set (n_servers node)" for p
      using that load by (auto simp: registry_def xa_load_def map_of_eq_None_iff)
    then have reg: "registry ?s2 = (\<lambda>(n, p). if n = sq_node from then None else registry s (n, p))"
      using e2 e1(2) by (auto simp: fun_eq_iff)
    obtain l s3 where g2: "node_get env (ns_local_node ?s2) ?s2 = (l, s3)" by (cases "node_get env (ns_local_node ?s2) ?s2")
    note e3 = node_get_effect [OF e2 [THEN conjunct1] g2]
    have "snd (ctrl_cmd_bye env from s) = s3 \<or>
      (\<exists>srvs. snd (ctrl_cmd_bye env from s) = tell_servers env (Pkt_Bye (sq_node from)) srvs s3)"
      using g Some g2 by (auto simp: ctrl_cmd_bye_def Let_def split: option.splits)
    then have "ns_nodes (snd (ctrl_cmd_bye env from s)) = ns_nodes s3" "ns_lookups (snd (ctrl_cmd_bye env from s)) = ns_lookups s3"
      "ns_local_node (snd (ctrl_cmd_bye env from s)) = ns_local_node s3" by (auto simp: ns_frame)
    then have "ns_inv (snd (ctrl_cmd_bye env from s))" "registry (snd (ctrl_cmd_bye env from s)) = registry ?s2"
      "ns_local_node (snd (ctrl_cmd_bye env from s)) = ns_local_node s"
      using e3 e2 e1 ns_inv_eq registry_eq by metis+
    then show ?thesis using reg by (simp add: refines_def)
  qed
  then show "refines (mem_available env) (registry s) (\<lambda>(n, p). if n = sq_node from then None else registry s (n, p))
    (snd (ctrl_cmd_bye env from s))" "ns_local_node (snd (ctrl_cmd_bye env from s)) = ns_local_node s" by auto
qed


lemma del_client_refines:
  assumes "ns_inv s" "sq_node from = n" "\<not> (sq_node from = ns_local_node s \<and> sq_port from \<noteq> p)"
  shows "refines (mem_available env) (registry s) ((registry s)((n, p) := None)) (snd (ctrl_cmd_del_client env from n p s)) \<and>
    ns_local_node (snd (ctrl_cmd_del_client env from n p s)) = ns_local_node s"
proof -
  let ?s1 = "s\<lparr>ns_lookups := filter (\<lambda>lk. sq_node (lk_sq lk) \<noteq> n \<or> sq_port (lk_sq lk) \<noteq> p) (ns_lookups s)\<rparr>"
  have inv1: "ns_inv ?s1" using assms(1) by (auto simp: ns_inv_def list_all_iff)
  have reg1: "registry ?s1 = registry s" by (rule registry_eq) simp
  obtain r s2 where g: "node_get env n ?s1 = (r, s2)" by (cases "node_get env n ?s1")
  note e2 = node_get_effect [OF inv1 g]
  let ?s3 = "case r of None \<Rightarrow> s2 | Some _ \<Rightarrow> server_del env n p False s2"
  have e3: "ns_inv ?s3" "ns_local_node ?s3 = ns_local_node s"
    "registry ?s3 = (if r = None then registry s else (registry s)((n, p) := None))"
    using e2 reg1 server_del_effect [OF e2(1), of env n p False] by (auto split: option.splits)
  obtain l s4 where g2: "node_get env (ns_local_node ?s3) ?s3 = (l, s4)" by (cases "node_get env (ns_local_node ?s3) ?s3")
  note e4 = node_get_effect [OF e3(1) g2]
  have "snd (ctrl_cmd_del_client env from n p s) = s4 \<or>
    (\<exists>srvs. snd (ctrl_cmd_del_client env from n p s) = tell_servers env (Pkt_Del_Client n p) srvs s4)"
    using g g2 assms(2,3) by (auto simp: ctrl_cmd_del_client_def Let_def split: option.splits)
  then have fr: "ns_nodes (snd (ctrl_cmd_del_client env from n p s)) = ns_nodes s4"
    "ns_lookups (snd (ctrl_cmd_del_client env from n p s)) = ns_lookups s4"
    "ns_local_node (snd (ctrl_cmd_del_client env from n p s)) = ns_local_node s4" by (auto simp: ns_frame)
  have "ns_inv (snd (ctrl_cmd_del_client env from n p s))" using ns_inv_eq [OF fr] e4(1) by simp
  moreover have "registry (snd (ctrl_cmd_del_client env from n p s)) = registry ?s3" using registry_eq [OF fr(1)] e4(2) by simp
  ultimately show ?thesis
    using e3 e4(4) fr(3) e2(7) by (auto simp: refines_def mem_available_def)
qed

lemma new_server_refines:
  assumes "ns_inv s" "reg_target (ns_local_node s) from w2 w3 = (n, p)"
  shows "refines (mem_available env) (registry s)
      (if w0 = 0 \<or> p = 0 then registry s else (registry s)((n, p) \<mapsto> (w0, w1)))
      (snd (ctrl_cmd_new_server env from w0 w1 w2 w3 s)) \<and>
    ns_local_node (snd (ctrl_cmd_new_server env from w0 w1 w2 w3 s)) = ns_local_node s"
proof -
  let ?res = "snd (ctrl_cmd_new_server env from w0 w1 w2 w3 s)"
  obtain r s1 where g: "server_add env w0 w1 n p s = (r, s1)" by (cases "server_add env w0 w1 n p s")
  note e = server_add_effect [OF assms(1) g]
  have tgt: "(if sq_node from = ns_local_node s then (sq_node from, sq_port from) else (w2, w3)) = (n, p)"
    using assms(2) by (simp add: reg_target_def)
  have fr: "ns_nodes ?res = ns_nodes s1" "ns_lookups ?res = ns_lookups s1" "ns_local_node ?res = ns_local_node s1"
    using g
    by (auto simp: ctrl_cmd_new_server_def tgt ns_frame service_announce_new_def kernel_sendmsg_def split: option.splits prod.splits result.splits if_splits)
  have "ns_inv ?res" using ns_inv_eq [OF fr] e(1) by simp
  moreover have "registry ?res = registry s1" using registry_eq [OF fr(1)] .
  ultimately show ?thesis
    using e(3,5,6,7) fr(3) by (cases r) (auto simp: refines_def mem_available_def)
qed

lemma del_server_refines:
  assumes "ns_inv s" "reg_target (ns_local_node s) from w2 w3 = (n, p)"
  shows "refines (mem_available env) (registry s) ((registry s)((n, p) := None))
      (snd (ctrl_cmd_del_server env from w0 w1 w2 w3 s)) \<and>
    ns_local_node (snd (ctrl_cmd_del_server env from w0 w1 w2 w3 s)) = ns_local_node s"
proof -
  obtain r s1 where g: "node_get env n s = (r, s1)" by (cases "node_get env n s")
  note e = node_get_effect [OF assms(1) g]
  have tgt: "(if sq_node from = ns_local_node s then (sq_node from, sq_port from) else (w2, w3)) = (n, p)"
    using assms(2) by (simp add: reg_target_def)
  have "\<not> (sq_node from = ns_local_node s \<and> sq_port from \<noteq> p)" using tgt by (auto split: if_splits)
  then have "snd (ctrl_cmd_del_server env from w0 w1 w2 w3 s) =
      (case r of None \<Rightarrow> s1 | Some _ \<Rightarrow> server_del env n p True s1)"
    using g by (auto simp: ctrl_cmd_del_server_def tgt split: option.splits)
  then show ?thesis
    using e server_del_effect [OF e(1), of env n p True]
    by (auto simp: refines_def mem_available_def split: option.splits)
qed

lemma lookup_cmds_refine:
  assumes "ns_inv s"
  shows "ns_inv (snd (ctrl_cmd_new_lookup env from w0 w1 s)) \<and> registry (snd (ctrl_cmd_new_lookup env from w0 w1 s)) = registry s \<and>
      ns_local_node (snd (ctrl_cmd_new_lookup env from w0 w1 s)) = ns_local_node s"
    "ns_inv (ctrl_cmd_del_lookup from w0 w1 s) \<and> registry (ctrl_cmd_del_lookup from w0 w1 s) = registry s \<and>
      ns_local_node (ctrl_cmd_del_lookup from w0 w1 s) = ns_local_node s"
  using assms
  by (auto simp: ctrl_cmd_new_lookup_def ctrl_cmd_del_lookup_def take_mem_def Let_def ns_inv_def ns_frame
      registry_def list_all_iff)

lemma dispatch_refines:
  assumes "ns_inv s"
  shows "refines (mem_available env) (registry s) (registry_spec (ns_local_node s) from cmd w0 w1 w2 w3 (registry s))
      (snd (ns_dispatch env from cmd w0 w1 w2 w3 s)) \<and>
    ns_local_node (snd (ns_dispatch env from cmd w0 w1 w2 w3 s)) = ns_local_node s"
proof -
  obtain n p where t: "reg_target (ns_local_node s) from w2 w3 = (n, p)" by (cases "reg_target (ns_local_node s) from w2 w3")
  have keep: "refines m (registry s) (registry s) s'" if "ns_inv s'" "registry s' = registry s" for m s'
    using that by (simp add: refines_def)
  have hello: "ns_inv (snd (ctrl_cmd_hello env from s))" "registry (snd (ctrl_cmd_hello env from s)) = registry s"
    using hello_frame [of env "from" s] assms by (auto simp: ns_inv_def registry_def)
  have dc: "snd (ctrl_cmd_del_client env from w0 w1 s) = s"
    if "sq_node from \<noteq> w0 \<or> (sq_node from = ns_local_node s \<and> sq_port from \<noteq> w1)"
    using that by (auto simp: ctrl_cmd_del_client_def)
  show ?thesis
    unfolding ns_dispatch_def registry_spec_def
    using bye_refines [OF assms] del_client_refines [OF assms, of "from" w0 w1 env] dc new_server_refines [OF assms t]
      del_server_refines [OF assms t] lookup_cmds_refine [OF assms] hello hello_frame [of env "from" s] assms t
    by (auto simp: keep qrtr_types)
qed

end
