(* ===== verification/Qrtr_Ns_View.thy ===== *)
theory Qrtr_Ns_View
  imports Qrtr_Ns_Inv
begin

text \<open>
  The worker of the name service: reachability from a successful initialisation, the
  refinement of the registry by a run over received packets, and the view a subscriber
  builds from the notifications it is sent.
\<close>

subsection \<open>The worker\<close>

text \<open>The \<open>i\<close>-th little-endian word of a packet, and what a packet asks of the registry.\<close>

definition pkt_word :: "bytes \<Rightarrow> nat \<Rightarrow> nat" where
  "pkt_word msg i = le_val (take 4 (drop (4 * i) msg))"

definition registry_step ::
  "nat \<Rightarrow> sockaddr_qrtr \<times> bytes \<Rightarrow> (nat \<times> nat \<rightharpoonup> nat \<times> nat) \<Rightarrow> (nat \<times> nat \<rightharpoonup> nat \<times> nat)" where
  "registry_step local m R =
     registry_spec local (fst m) (pkt_word (snd m) 0) (pkt_word (snd m) 1) (pkt_word (snd m) 2)
       (pkt_word (snd m) 3) (pkt_word (snd m) 4) R"

definition registry_u32 :: "(nat \<times> nat \<rightharpoonup> nat \<times> nat) \<Rightarrow> bool" where
  "registry_u32 R = (\<forall>a sv i. R a = Some (sv, i) \<longrightarrow> sv < 2 ^ 32 \<and> i < 2 ^ 32)"

lemma registry_spec_u32:
  "registry_u32 R \<Longrightarrow> w0 < 2 ^ 32 \<Longrightarrow> w1 < 2 ^ 32 \<Longrightarrow> registry_u32 (registry_spec l sq cmd w0 w1 w2 w3 R)"
  by (auto simp: registry_spec_def registry_u32_def split: prod.splits)

lemma kernel_recvmsg_length [simp]:
  "length buf = recv_buf_size \<Longrightarrow> length (kernel_recvmsg buf msg) = recv_buf_size"
  by (auto simp: kernel_recvmsg_def)

lemma kernel_recvmsg_num:
  assumes "length buf = recv_buf_size" "p + 4 \<le> length msg" "p + 4 \<le> recv_buf_size"
  shows "num (kernel_recvmsg buf msg) p 4 = Some (le_val (take 4 (drop p msg)))"
proof -
  have "take 4 (drop p (kernel_recvmsg buf msg)) = take 4 (drop p msg)"
    using assms by (auto simp: kernel_recvmsg_def min_def take_drop)
  then show ?thesis using assms by (simp add: num_def load_def)
qed

lemma dispatch_keeps:
  assumes "ns_inv s" "registry_u32 (registry s)" "w0 < 2 ^ 32" "w1 < 2 ^ 32"
    and s': "s' = snd (ns_dispatch env sq cmd w0 w1 w2 w3 s)"
  shows "ns_inv s'" "registry_u32 (registry s')" "ns_local_node s' = ns_local_node s"
    "mem_available env \<Longrightarrow> registry s' = registry_spec (ns_local_node s) sq cmd w0 w1 w2 w3 (registry s)"
  using dispatch_refines [OF assms(1), of env sq cmd w0 w1 w2 w3]
    registry_spec_u32 [OF assms(2,3,4), of "ns_local_node s" sq cmd w2 w3] assms(2)
  by (auto simp: s' refines_def split: if_splits)

lemma worker_refines:
  assumes "ns_inv s" "registry_u32 (registry s)" "length buf = recv_buf_size"
  shows "\<exists>s'. qrtr_ns_worker env buf msgs s = OK s' \<and> ns_inv s' \<and> registry_u32 (registry s') \<and>
    ns_local_node s' = ns_local_node s \<and>
    (mem_available env \<and> list_all (\<lambda>m. 20 \<le> length (snd m)) msgs \<longrightarrow>
       registry s' = fold (registry_step (ns_local_node s)) msgs (registry s))"
  using assms
proof (induction msgs arbitrary: s buf)
  case (Cons m msgs)
  obtain sq msg where m: "m = (sq, msg)" by (cases m)
  let ?buf = "kernel_recvmsg buf msg"
  have len: "length ?buf = recv_buf_size" using Cons.prems(3) by simp
  then have rd: "\<exists>v. num ?buf p 4 = Some v \<and> v < 2 ^ 32" if "p \<le> 16" for p
    using num_OK [of p 4 ?buf] that by (simp add: recv_buf_size_def)
  obtain cmd w0 w1 w2 w3 where w: "num ?buf 0 4 = Some cmd" "num ?buf 4 4 = Some w0"
    "num ?buf 8 4 = Some w1" "num ?buf 12 4 = Some w2" "num ?buf 16 4 = Some w3" "w0 < 2 ^ 32" "w1 < 2 ^ 32"
    using rd [of 0] rd [of 4] rd [of 8] rd [of 12] rd [of 16] by auto
  let ?s = "snd (ns_dispatch env sq cmd w0 w1 w2 w3 s)"
  note d = dispatch_keeps [OF Cons.prems(1,2) w(6,7) refl, of env sq cmd w2 w3]
  have step: "qrtr_ns_worker env buf (m # msgs) s = qrtr_ns_worker env ?buf msgs ?s"
    using w by (simp add: m Let_def)
  have "registry_step (ns_local_node s) m R = registry_spec (ns_local_node s) sq cmd w0 w1 w2 w3 R"
    if "20 \<le> length msg" for R
    using w kernel_recvmsg_num [OF Cons.prems(3), of _ msg] that
    by (simp add: registry_step_def pkt_word_def m recv_buf_size_def)
  then show ?case
    using Cons.IH [OF d(1,2) len] d(3,4) unfolding step by (auto simp: m)
qed auto

inductive ns_reach :: "qrtr_ns \<Rightarrow> bool" where
  ns_reach_init: "qrtr_ns_init env created name started bound = OK (Some s) \<Longrightarrow> ns_reach s"
| ns_reach_work: "ns_reach s \<Longrightarrow> qrtr_ns_work env alloc_ok msgs s = OK s' \<Longrightarrow> ns_reach s'"

lemma ns_init_state:
  "qrtr_ns_init env created name started bound = OK (Some s) \<Longrightarrow>
     ns_nodes s = [] \<and> ns_lookups s = [] \<and> name = OK (ns_local_node s)"
  by (auto simp: qrtr_ns_init_def say_hello_def kernel_sendmsg_def Let_def split: if_splits result.splits)

lemma work_refines:
  assumes "ns_inv s" "registry_u32 (registry s)"
  shows "\<exists>s'. qrtr_ns_work env alloc_ok msgs s = OK s' \<and> ns_inv s' \<and> registry_u32 (registry s') \<and>
    (alloc_ok \<and> mem_available env \<and> list_all (\<lambda>m. 20 \<le> length (snd m)) msgs \<longrightarrow>
       registry s' = fold (registry_step (ns_local_node s)) msgs (registry s))"
  using worker_refines [OF assms, of "replicate recv_buf_size 0" env msgs] assms
  by (auto simp: qrtr_ns_work_def)

lemma ns_reach_inv: "ns_reach s \<Longrightarrow> ns_inv s \<and> registry_u32 (registry s)"
proof (induction rule: ns_reach.induct)
  case (ns_reach_init env created name started bound s)
  then show ?case using ns_init_state
    by (fastforce simp: ns_inv_def registry_def registry_u32_def xa_load_Nil)
next
  case (ns_reach_work s env alloc_ok msgs s')
  then show ?case using work_refines [of s env alloc_ok msgs] by auto
qed

subsection \<open>What a subscriber sees\<close>

text \<open>
  A subscriber folds the packets sent to its address into a view of the registry. The
  all-zero packet that ends a listing changes nothing.
\<close>

fun notice :: "sockaddr_qrtr \<Rightarrow> sockaddr_qrtr \<times> pkt \<Rightarrow> (nat \<times> nat \<rightharpoonup> nat \<times> nat) \<Rightarrow> (nat \<times> nat \<rightharpoonup> nat \<times> nat)" where
  "notice sq (dest, Pkt_New_Server sv i n p) V = (if dest = sq \<and> sv \<noteq> 0 then V((n, p) \<mapsto> (sv, i)) else V)"
| "notice sq (dest, Pkt_Del_Server sv i n p) V = (if dest = sq then V((n, p) := None) else V)"
| "notice sq (dest, _) V = V"

definition tracks :: "sockaddr_qrtr \<Rightarrow> nat \<Rightarrow> (nat \<times> nat \<rightharpoonup> nat \<times> nat) \<Rightarrow> qrtr_ns \<Rightarrow> bool" where
  "tracks sq k V s = (k \<le> length (ns_log s) \<and> fold (notice sq) (drop k (ns_log s)) Map.empty = V)"

lemma tracks_log: "ns_log s' = ns_log s \<Longrightarrow> tracks sq k V s' = tracks sq k V s"
  by (simp add: tracks_def)

lemma tracks_send: "tracks sq k V s \<Longrightarrow> tracks sq k (notice sq (d, p) V) (snd (kernel_sendmsg env d p s))"
  by (auto simp: tracks_def kernel_sendmsg_def)

definition listed :: "(nat \<times> nat \<rightharpoonup> nat \<times> nat) \<Rightarrow> qrtr_server \<Rightarrow> bool" where
  "listed V srv = (V (srv_node srv, srv_port srv) = Some (srv_service srv, srv_instance srv))"

lemma note_new_listed: "listed V srv \<Longrightarrow> notice sq (d, new_server_pkt srv) V = V"
  by (auto simp: listed_def new_server_pkt_def)

lemma note_del_absent: "V (srv_node srv, srv_port srv) = None \<Longrightarrow> notice sq (d, del_server_pkt srv) V = V"
  by (auto simp: del_server_pkt_def)

lemma tracks_announce_new:
  "tracks sq k V s \<Longrightarrow> listed V srv \<Longrightarrow> tracks sq k V (snd (service_announce_new env d srv s))"
  using tracks_send [of sq k V s d "new_server_pkt srv" env] by (simp add: service_announce_new_def note_new_listed)

lemma tracks_tell:
  assumes "tracks sq k V s" "\<And>d W. notice sq (d, p) W = W"
  shows "tracks sq k V (tell_servers env p srvs s)"
  using assms(1)
proof (induction srvs arbitrary: s)
  case (Cons x srvs)
  obtain i srv where x: "x = (i, srv)" by (cases x)
  show ?case using tracks_send [OF Cons.prems, of _ p env] by (simp add: x assms(2) Cons.IH)
qed simp

lemma tracks_announce_node:
  "tracks sq k V s \<Longrightarrow> list_all (\<lambda>(_, srv). listed V srv) srvs \<Longrightarrow>
     tracks sq k V (snd (announce_node_servers env d srvs s))"
proof (induction env d srvs s rule: announce_node_servers.induct)
  case (2 env d i srv srvs s)
  have t: "tracks sq k V (snd (service_announce_new env d srv s))"
    using 2(3,4) by (intro tracks_announce_new) auto
  show ?case
    using 2 t by (cases "service_announce_new env d srv s"; cases "fst (service_announce_new env d srv s)") auto
qed simp

lemma tracks_announce_nodes:
  "tracks sq k V s \<Longrightarrow> list_all (\<lambda>(_, node). list_all (\<lambda>(_, srv). listed V srv) (n_servers node)) nodes \<Longrightarrow>
     tracks sq k V (snd (announce_nodes env d nodes s))"
proof (induction env d nodes s rule: announce_nodes.induct)
  case (2 env d i node nodes s)
  have t: "tracks sq k V (snd (announce_node_servers env d (n_servers node) s))"
    using 2(3,4) by (intro tracks_announce_node) auto
  show ?case
    using 2 t by (cases "announce_node_servers env d (n_servers node) s";
        cases "fst (announce_node_servers env d (n_servers node) s)") auto
qed simp

lemma inv_listed:
  assumes "ns_inv s" "xa_load (ns_nodes s) n = Some node" "xa_load (n_servers node) p = Some srv"
  shows "listed (registry s) srv"
  using assms node_okD(3) [OF ns_invD(2) [OF assms(1,2)] assms(3)] by (simp add: listed_def registry_def)

lemma inv_all_listed:
  assumes "ns_inv s"
  shows "list_all (\<lambda>(_, node). list_all (\<lambda>(_, srv). listed (registry s) srv) (n_servers node)) (ns_nodes s)"
  unfolding list_all_iff
proof (clarify)
  fix n node p srv
  assume "(n, node) \<in> set (ns_nodes s)" "(p, srv) \<in> set (n_servers node)"
  moreover from this have l: "xa_load (ns_nodes s) n = Some node"
    using xa.entries_load [OF ns_invD(1) [OF assms]] by simp
  ultimately have "xa_load (n_servers node) p = Some srv"
    using xa.entries_load [OF node_okD(2) [OF ns_invD(2) [OF assms l]]] by simp
  then show "listed (registry s) srv" using inv_listed [OF assms l] by blast
qed

lemma tracks_hello:
  assumes "ns_inv s" "tracks sq k (registry s) s"
  shows "tracks sq k (registry s) (snd (ctrl_cmd_hello env d s))"
proof -
  let ?h = "say_hello env d s"
  have t: "tracks sq k (registry s) (snd ?h)"
    using tracks_send [OF assms(2), of d Pkt_Hello env] by (simp add: say_hello_def)
  have "ns_nodes (snd ?h) = ns_nodes s" by (simp add: say_hello_def ns_frame)
  then show ?thesis
    using t tracks_announce_nodes [OF t, of "ns_nodes s" env d] inv_all_listed [OF assms(1)]
    by (cases ?h; cases "fst ?h") (auto simp: ctrl_cmd_hello_def announce_servers_def)
qed

text \<open>Notifying all lookups of one packet: a subscriber to everything applies it.\<close>

definition wildcard :: "sockaddr_qrtr \<Rightarrow> qrtr_lookup" where
  "wildcard sq = \<lparr>lk_service = 0, lk_instance = 0, lk_sq = sq\<rparr>"

lemma notify_lookups_either:
  assumes "tracks sq k V s" "\<And>d W. notice sq (d, p) W = (if d = sq then f W else W)" "\<And>W. f (f W) = f W"
    "p = (if is_new then new_server_pkt srv else del_server_pkt srv)"
  shows "\<exists>W. tracks sq k W (notify_lookups env srv sv i is_new lks s) \<and> (W = V \<or> W = f V) \<and>
    (wildcard sq \<in> set lks \<longrightarrow> W = f V)"
  using assms(1)
proof (induction lks arbitrary: s V)
  case (Cons lk lks)
  show ?case
  proof (cases "lookup_wants lk sv i")
    case True
    let ?s = "lookup_notify env (lk_sq lk) (Some srv) is_new s"
    have t: "tracks sq k (if lk_sq lk = sq then f V else V) ?s"
      using tracks_send [OF Cons.prems, of "lk_sq lk" p env] assms(2,4) by (simp add: lookup_notify_def)
    show ?thesis using Cons.IH [OF t] True assms(3) by (auto simp: wildcard_def split: if_splits)
  next
    case False
    then have "lk \<noteq> wildcard sq" by (auto simp: lookup_wants_def wildcard_def)
    then show ?thesis using Cons.IH [OF Cons.prems] False by auto
  qed
qed auto

lemma notify_new_view:
  assumes "tracks sq k V s" "srv_service srv \<noteq> 0" "wildcard sq \<in> set lks"
  shows "tracks sq k (V((srv_node srv, srv_port srv) \<mapsto> (srv_service srv, srv_instance srv)))
    (notify_lookups env srv sv i True lks s)"
  using notify_lookups_either [OF assms(1), of "new_server_pkt srv"
      "\<lambda>W. W((srv_node srv, srv_port srv) \<mapsto> (srv_service srv, srv_instance srv))" True srv env sv i lks] assms(2,3)
  by (auto simp: new_server_pkt_def)

lemma notify_del_view:
  assumes "tracks sq k V s" "wildcard sq \<in> set lks"
  shows "tracks sq k (V((srv_node srv, srv_port srv) := None)) (notify_lookups env srv sv i False lks s)"
  using notify_lookups_either [OF assms(1), of "del_server_pkt srv"
      "\<lambda>W. W((srv_node srv, srv_port srv) := None)" False srv env sv i lks] assms(2)
  by (auto simp: del_server_pkt_def)

text \<open>A subscriber to everything whose view since position \<open>k\<close> of the log is the registry.\<close>

definition in_view :: "sockaddr_qrtr \<Rightarrow> nat \<Rightarrow> qrtr_ns \<Rightarrow> bool" where
  "in_view sq k s = (ns_inv s \<and> wildcard sq \<in> set (ns_lookups s) \<and> tracks sq k (registry s) s)"

lemma in_view_node_get:
  assumes "in_view sq k s" "node_get env n s = (r, s')"
  shows "in_view sq k s'"
  using assms node_get_effect [of s env n r s'] tracks_log [of s' s] by (auto simp: in_view_def)

lemma in_view_server_del:
  assumes "in_view sq k s"
  shows "in_view sq k (server_del env n p b s)"
proof -
  have inv: "ns_inv s" and tr: "tracks sq k (registry s) s" and wl: "wildcard sq \<in> set (ns_lookups s)"
    using assms by (auto simp: in_view_def)
  note e = server_del_effect [OF inv, of env n p b]
  show ?thesis
  proof (cases "\<exists>node srv. xa_load (ns_nodes s) n = Some node \<and> xa_load (n_servers node) p = Some srv")
    case True
    then obtain node srv where l: "xa_load (ns_nodes s) n = Some node" "xa_load (n_servers node) p = Some srv" by blast
    have srv: "srv_node srv = n" "srv_port srv = p" using node_okD(3) [OF ns_invD(2) [OF inv l(1)] l(2)] by auto
    let ?s1 = "s\<lparr>ns_nodes := xa_store (ns_nodes s) n (node\<lparr>n_servers := xa_erase (n_servers node) p\<rparr>)\<rparr>"
    let ?s2 = "if srv_node srv = ns_local_node ?s1 \<and> b then service_announce_del env bcast_sq srv ?s1 else ?s1"
    have t1: "tracks sq k (registry s) ?s1" using tr tracks_log [of ?s1 s] by simp
    have t2: "\<exists>V. tracks sq k V ?s2 \<and> V((n, p) := None) = (registry s)((n, p) := None)"
      using t1 tracks_send [OF t1, of bcast_sq "del_server_pkt srv" env] srv
      by (cases "srv_node srv = ns_local_node ?s1 \<and> b"; cases "bcast_sq = sq")
        (auto simp: service_announce_del_def del_server_pkt_def)
    have "ns_lookups ?s2 = ns_lookups s" by (simp add: ns_frame)
    moreover have "server_del env n p b s =
        notify_lookups env srv (srv_service srv) (srv_instance srv) False (ns_lookups ?s2) ?s2"
      using l by (simp add: server_del_def Let_def)
    ultimately have "tracks sq k ((registry s)((n, p) := None)) (server_del env n p b s)"
      using t2 notify_del_view [of sq k _ ?s2 "ns_lookups ?s2" srv env] wl srv by metis
    then show ?thesis using e wl by (simp add: in_view_def)
  next
    case False
    then have "server_del env n p b s = s" by (auto simp: server_del_def split: option.splits)
    then show ?thesis using assms by simp
  qed
qed

lemma in_view_bye_servers: "in_view sq k s \<Longrightarrow> in_view sq k (bye_servers env n is s)"
  by (induction "is" arbitrary: s) (auto simp: in_view_server_del split: option.splits)

lemma in_view_tell:
  assumes "in_view sq k s" "\<And>d W. notice sq (d, p) W = W"
  shows "in_view sq k (tell_servers env p srvs s)"
proof -
  have "ns_nodes (tell_servers env p srvs s) = ns_nodes s" by (simp add: ns_frame)
  then show ?thesis using assms tracks_tell [OF _ assms(2), of k _ s env srvs] registry_eq [of "tell_servers env p srvs s" s]
    by (auto simp: in_view_def ns_frame ns_inv_def)
qed

lemma in_view_bye:
  assumes "in_view sq k s"
  shows "in_view sq k (snd (ctrl_cmd_bye env from s))"
proof -
  obtain r s1 where g: "node_get env (sq_node from) s = (r, s1)" by (cases "node_get env (sq_node from) s")
  note v1 = in_view_node_get [OF assms g]
  show ?thesis
  proof (cases r)
    case (Some node)
    let ?s2 = "bye_servers env (sq_node from) (map fst (n_servers node)) s1"
    obtain l s3 where g2: "node_get env (ns_local_node ?s2) ?s2 = (l, s3)" by (cases "node_get env (ns_local_node ?s2) ?s2")
    note v3 = in_view_node_get [OF in_view_bye_servers [OF v1] g2]
    then show ?thesis using g Some g2 in_view_tell [OF v3]
      by (auto simp: ctrl_cmd_bye_def Let_def split: option.splits)
  qed (use g v1 in \<open>simp add: ctrl_cmd_bye_def\<close>)
qed

lemma in_view_del_client:
  assumes "in_view sq k s" "from \<noteq> sq"
  shows "in_view sq k (snd (ctrl_cmd_del_client env from n p s))"
proof (cases "sq_node from \<noteq> n \<or> (sq_node from = ns_local_node s \<and> sq_port from \<noteq> p)")
  case False
  let ?s1 = "s\<lparr>ns_lookups := filter (\<lambda>lk. sq_node (lk_sq lk) \<noteq> n \<or> sq_port (lk_sq lk) \<noteq> p) (ns_lookups s)\<rparr>"
  have "sq_node sq = ns_local_node s" using assms(1) by (auto simp: in_view_def ns_inv_def list_all_iff wildcard_def)
  then have other: "sq_node sq \<noteq> n \<or> sq_port sq \<noteq> p" using False assms(2) by (cases "from"; cases sq) auto
  have "in_view sq k ?s1"
    using assms(1) other registry_eq [of ?s1 s]
    by (auto simp: in_view_def ns_inv_def list_all_iff tracks_def wildcard_def)
  moreover obtain r s2 where g: "node_get env n ?s1 = (r, s2)" by (cases "node_get env n ?s1")
  ultimately have v2: "in_view sq k s2" using in_view_node_get by blast
  let ?s3 = "case r of None \<Rightarrow> s2 | Some _ \<Rightarrow> server_del env n p False s2"
  have v3: "in_view sq k ?s3" using v2 in_view_server_del by (cases r) auto
  obtain l s4 where g2: "node_get env (ns_local_node ?s3) ?s3 = (l, s4)" by (cases "node_get env (ns_local_node ?s3) ?s3")
  note v4 = in_view_node_get [OF v3 g2]
  show ?thesis using False g g2 v4 in_view_tell [OF v4]
    by (auto simp: ctrl_cmd_del_client_def Let_def split: option.splits)
qed (use assms in \<open>auto simp: ctrl_cmd_del_client_def\<close>)

definition sends_ok :: "ns_env \<Rightarrow> bool" where
  "sends_ok env = (\<forall>n. env_send env n = OK ())"

lemma in_view_new_server:
  assumes "in_view sq k s" "sends_ok env"
  shows "in_view sq k (snd (ctrl_cmd_new_server env from w0 w1 w2 w3 s))"
proof -
  have inv: "ns_inv s" and tr: "tracks sq k (registry s) s" and wl: "wildcard sq \<in> set (ns_lookups s)"
    using assms by (auto simp: in_view_def)
  obtain n p where t: "reg_target (ns_local_node s) from w2 w3 = (n, p)" by (cases "reg_target (ns_local_node s) from w2 w3")
  then have tgt: "(if sq_node from = ns_local_node s then (sq_node from, sq_port from) else (w2, w3)) = (n, p)"
    by (simp add: reg_target_def)
  obtain r s1 where g: "server_add env w0 w1 n p s = (r, s1)" by (cases "server_add env w0 w1 n p s")
  note e = server_add_effect [OF inv g]
  have t1: "tracks sq k (registry s) s1" using tr tracks_log [OF e(4)] by simp
  show ?thesis
  proof (cases r)
    case None
    then show ?thesis using g e t1 wl by (auto simp: ctrl_cmd_new_server_def tgt in_view_def)
  next
    case (Some srv)
    note e6 = e(6) [OF Some]
    let ?R = "(registry s)((n, p) \<mapsto> (w0, w1))"
    let ?s2 = "if srv_node srv = ns_local_node s1 then snd (service_announce_new env bcast_sq srv s1) else s1"
    have t2: "\<exists>V. tracks sq k V ?s2 \<and> V((n, p) \<mapsto> (w0, w1)) = ?R"
      using t1 tracks_send [OF t1, of bcast_sq "new_server_pkt srv" env] e6
      by (cases "srv_node srv = ns_local_node s1"; cases "bcast_sq = sq")
        (auto simp: service_announce_new_def new_server_pkt_def)
    have eq: "snd (ctrl_cmd_new_server env from w0 w1 w2 w3 s) = notify_lookups env srv w0 w1 True (ns_lookups ?s2) ?s2"
      using g Some assms(2)
      by (auto simp: ctrl_cmd_new_server_def tgt service_announce_new_def kernel_sendmsg_def sends_ok_def)
    have lks: "ns_lookups ?s2 = ns_lookups s" using e(2) by (simp add: ns_frame)
    have "tracks sq k ?R (snd (ctrl_cmd_new_server env from w0 w1 w2 w3 s))"
      unfolding eq using t2 notify_new_view [of sq k _ ?s2 srv "ns_lookups ?s2" env w0 w1] wl e6 lks by fastforce
    moreover have "ns_nodes ?s2 = ns_nodes s1" "ns_local_node ?s2 = ns_local_node s1" by (simp_all add: ns_frame)
    ultimately show ?thesis
      using e(1,2) e6 wl lks registry_eq [of "snd (ctrl_cmd_new_server env from w0 w1 w2 w3 s)" s1] unfolding eq
      by (simp add: in_view_def ns_inv_def ns_frame)
  qed
qed

lemma in_view_del_server:
  assumes "in_view sq k s"
  shows "in_view sq k (snd (ctrl_cmd_del_server env from w0 w1 w2 w3 s))"
proof -
  obtain n p where t: "(if sq_node from = ns_local_node s then (sq_node from, sq_port from) else (w2, w3)) = (n, p)"
    by (cases "if sq_node from = ns_local_node s then (sq_node from, sq_port from) else (w2, w3)")
  obtain r s1 where g: "node_get env n s = (r, s1)" by (cases "node_get env n s")
  show ?thesis
    using in_view_node_get [OF assms g] in_view_server_del [of sq k s1 env n p True] assms g
    by (auto simp: ctrl_cmd_del_server_def t split: option.splits)
qed

lemma matching_view:
  assumes "tracks sq k V s" "\<And>srv. srv \<in> set srvs \<Longrightarrow> listed V srv"
  shows "tracks sq k V (notify_matching env from f srvs s)"
  using assms
proof (induction srvs arbitrary: s)
  case (Cons srv srvs)
  have "tracks sq k V (lookup_notify env from (Some srv) True s)"
    using tracks_send [OF Cons.prems(1), of "from" "new_server_pkt srv" env] Cons.prems(2) [of srv]
    by (simp add: lookup_notify_def note_new_listed)
  then show ?case using Cons by auto
qed simp

lemma all_servers_listed:
  assumes "ns_inv s" "srv \<in> set (all_servers s)"
  shows "listed (registry s) srv"
  using inv_all_listed [OF assms(1)] assms(2) by (fastforce simp: all_servers_def list_all_iff)

lemma in_view_new_lookup:
  assumes "ns_inv s" "tracks sq k (registry s) s" "from = sq \<and> w0 = 0 \<and> w1 = 0 \<or> wildcard sq \<in> set (ns_lookups s)"
    "fst (ctrl_cmd_new_lookup env from w0 w1 s) = OK () \<or> wildcard sq \<in> set (ns_lookups s)"
  shows "in_view sq k (snd (ctrl_cmd_new_lookup env from w0 w1 s))"
proof (cases "sq_node from = ns_local_node s \<and> env_mem env (ns_mem s)")
  case True
  let ?s2 = "s\<lparr>ns_mem := Suc (ns_mem s),
    ns_lookups := ns_lookups s @ [\<lparr>lk_service = w0, lk_instance = w1, lk_sq = from\<rparr>]\<rparr>"
  let ?f = "\<lparr>f_service = w0, f_instance = w1, f_ifilter = 0\<rparr>"
  let ?s3 = "notify_matching env from ?f (all_servers ?s2) ?s2"
  have eq: "ctrl_cmd_new_lookup env from w0 w1 s = (OK (), lookup_notify env from None True ?s3)"
    using True by (simp add: ctrl_cmd_new_lookup_def take_mem_def Let_def)
  have inv2: "ns_inv ?s2" using assms(1) True by (simp add: ns_inv_def)
  have reg2: "registry ?s2 = registry s" by (rule registry_eq) simp
  have "tracks sq k (registry s) ?s2" using assms(2) tracks_log [of ?s2 s] by simp
  then have t3: "tracks sq k (registry s) ?s3"
    using all_servers_listed [OF inv2] reg2 by (intro matching_view) auto
  have "tracks sq k (registry s) (lookup_notify env from None True ?s3)"
    using tracks_send [OF t3, of "from" "Pkt_New_Server 0 0 0 0" env] by (simp add: lookup_notify_def)
  then show ?thesis
    using inv2 assms(3) registry_eq [of "lookup_notify env from None True ?s3" s]
    by (auto simp: eq in_view_def ns_inv_def ns_frame wildcard_def)
next
  case False
  then show ?thesis
    using assms tracks_log [of "s\<lparr>ns_mem := Suc (ns_mem s)\<rparr>" s] registry_eq [of "s\<lparr>ns_mem := Suc (ns_mem s)\<rparr>" s]
    by (auto simp: ctrl_cmd_new_lookup_def take_mem_def in_view_def ns_inv_def)
qed

lemma in_view_del_lookup:
  assumes "in_view sq k s" "from \<noteq> sq"
  shows "in_view sq k (ctrl_cmd_del_lookup from w0 w1 s)"
  using assms registry_eq [of "ctrl_cmd_del_lookup from w0 w1 s" s]
  by (cases "from"; cases sq) (auto simp: ctrl_cmd_del_lookup_def in_view_def ns_inv_def list_all_iff tracks_def wildcard_def)

lemma in_view_dispatch:
  assumes "in_view sq k s" "from \<noteq> sq" "sends_ok env"
  shows "in_view sq k (snd (ns_dispatch env from cmd w0 w1 w2 w3 s))"
proof -
  have inv: "ns_inv s" "tracks sq k (registry s) s" "wildcard sq \<in> set (ns_lookups s)"
    using assms(1) by (auto simp: in_view_def)
  have hello: "in_view sq k (snd (ctrl_cmd_hello env from s))"
    using tracks_hello [OF inv(1,2), of env "from"] hello_frame [of env "from" s] inv
      registry_eq [of "snd (ctrl_cmd_hello env from s)" s]
    by (auto simp: in_view_def ns_inv_def)
  show ?thesis
    using assms hello in_view_bye in_view_del_client in_view_new_server in_view_del_server in_view_del_lookup
      in_view_new_lookup [OF inv(1,2), of "from" w0 w1 env] inv(3)
    by (auto simp: ns_dispatch_def)
qed

lemma in_view_worker:
  "in_view sq k s \<Longrightarrow> list_all (\<lambda>m. fst m \<noteq> sq) msgs \<Longrightarrow> sends_ok env \<Longrightarrow>
     qrtr_ns_worker env buf msgs s = OK s' \<Longrightarrow> in_view sq k s'"
proof (induction msgs arbitrary: s buf)
  case (Cons m msgs)
  then show ?case by (cases m) (auto simp: Let_def intro: in_view_dispatch)
qed auto

text \<open>The listing a wildcard lookup is answered with builds the registry from nothing.\<close>

lemma listed_mono: "listed V srv \<Longrightarrow> V \<subseteq>\<^sub>m W \<Longrightarrow> listed W srv"
  by (auto simp: listed_def map_le_def dom_def)

lemma listing_view:
  assumes "tracks sq k V s" "V \<subseteq>\<^sub>m R" "\<And>srv. srv \<in> set srvs \<Longrightarrow> listed R srv \<and> srv_service srv \<noteq> 0"
  shows "\<exists>W. tracks sq k W (notify_matching env sq \<lparr>f_service = 0, f_instance = 0, f_ifilter = 0\<rparr> srvs s) \<and>
    V \<subseteq>\<^sub>m W \<and> W \<subseteq>\<^sub>m R \<and> (\<forall>srv \<in> set srvs. listed W srv)"
  using assms
proof (induction srvs arbitrary: s V)
  case (Cons srv srvs)
  let ?V = "V((srv_node srv, srv_port srv) \<mapsto> (srv_service srv, srv_instance srv))"
  have "listed R srv" "srv_service srv \<noteq> 0" using Cons.prems(3) by auto
  then have le: "V \<subseteq>\<^sub>m ?V" "?V \<subseteq>\<^sub>m R" using Cons.prems(2) by (auto simp: listed_def map_le_def dom_def)
  have t: "tracks sq k ?V (lookup_notify env sq (Some srv) True s)"
    using tracks_send [OF Cons.prems(1), of sq "new_server_pkt srv" env] \<open>srv_service srv \<noteq> 0\<close>
    by (simp add: lookup_notify_def new_server_pkt_def)
  have "server_match srv \<lparr>f_service = 0, f_instance = 0, f_ifilter = 0\<rparr>" by (simp add: server_match_def)
  then have step: "notify_matching env sq \<lparr>f_service = 0, f_instance = 0, f_ifilter = 0\<rparr> (srv # srvs) s =
      notify_matching env sq \<lparr>f_service = 0, f_instance = 0, f_ifilter = 0\<rparr> srvs (lookup_notify env sq (Some srv) True s)"
    by simp
  from Cons.IH [OF t le(2)] Cons.prems(3)
  obtain W where W: "tracks sq k W (notify_matching env sq \<lparr>f_service = 0, f_instance = 0, f_ifilter = 0\<rparr> (srv # srvs) s)"
    "?V \<subseteq>\<^sub>m W" "W \<subseteq>\<^sub>m R" "\<forall>srv \<in> set srvs. listed W srv"
    unfolding step by (metis list.set_intros(2))
  moreover have "listed W srv" using W(2) by (auto simp: listed_def map_le_def)
  ultimately show ?case using map_le_trans [OF le(1) W(2)] by auto
qed auto

lemma registry_is_listed:
  assumes "ns_inv s" "registry s (n, p) = Some v"
  obtains srv where "srv \<in> set (all_servers s)" "srv_node srv = n" "srv_port srv = p"
    "v = (srv_service srv, srv_instance srv)"
proof -
  obtain node srv where l: "xa_load (ns_nodes s) n = Some node" "xa_load (n_servers node) p = Some srv"
    "v = (srv_service srv, srv_instance srv)"
    using assms(2) by (auto simp: registry_def split: option.splits)
  have "(n, node) \<in> set (ns_nodes s)" "(p, srv) \<in> set (n_servers node)"
    using l map_of_SomeD by (auto simp: xa_load_def)
  then have "srv \<in> set (all_servers s)" by (force simp: all_servers_def)
  then show thesis using that l(3) node_okD(3) [OF ns_invD(2) [OF assms(1) l(1)] l(2)] by blast
qed

lemma subscribe_view:
  assumes "ns_inv s" "ctrl_cmd_new_lookup env sq 0 0 s = (OK (), s1)"
  shows "in_view sq (length (ns_log s)) s1" "registry s1 = registry s"
proof -
  let ?f = "\<lparr>f_service = 0, f_instance = 0, f_ifilter = 0\<rparr>"
  let ?s2 = "s\<lparr>ns_mem := Suc (ns_mem s), ns_lookups := ns_lookups s @ [wildcard sq]\<rparr>"
  let ?s3 = "notify_matching env sq ?f (all_servers ?s2) ?s2"
  have loc: "sq_node sq = ns_local_node s" and s1: "s1 = lookup_notify env sq None True ?s3"
    using assms(2) by (auto simp: ctrl_cmd_new_lookup_def take_mem_def Let_def wildcard_def split: if_splits)
  have inv2: "ns_inv ?s2" using assms(1) loc by (simp add: ns_inv_def wildcard_def)
  have reg2: "registry ?s2 = registry s" by (rule registry_eq) simp
  have nz: "srv_service srv \<noteq> 0" if "srv \<in> set (all_servers ?s2)" for srv
    using that inv2 by (force simp: all_servers_def ns_inv_def node_ok_def list_all_iff)
  have "tracks sq (length (ns_log s)) Map.empty ?s2" by (simp add: tracks_def)
  then obtain W where W: "tracks sq (length (ns_log s)) W ?s3" "W \<subseteq>\<^sub>m registry s" "\<forall>srv \<in> set (all_servers ?s2). listed W srv"
    using listing_view [of sq "length (ns_log s)" Map.empty ?s2 "registry s" "all_servers ?s2" env] nz
      all_servers_listed [OF inv2] reg2 by auto
  have "registry s \<subseteq>\<^sub>m W"
  proof (clarsimp simp: map_le_def)
    fix n p sv i assume "registry s (n, p) = Some (sv, i)"
    then show "Some (sv, i) = W (n, p)"
      using registry_is_listed [OF inv2, of n p "(sv, i)"] reg2 W(3) by (metis listed_def)
  qed
  then have "W = registry s" using W(2) by (rule map_le_antisym [rotated])
  then have "tracks sq (length (ns_log s)) (registry s) s1"
    using tracks_send [OF W(1), of sq "Pkt_New_Server 0 0 0 0" env] by (simp add: s1 lookup_notify_def)
  moreover show "registry s1 = registry s" using reg2 registry_eq [of s1 ?s2] by (simp add: s1 ns_frame)
  ultimately show "in_view sq (length (ns_log s)) s1"
    using inv2 by (simp add: in_view_def s1 ns_inv_def ns_frame)
qed

text \<open>The search for a server by address finds the entry of the port.\<close>

lemma find_by_key:
  "list_all (\<lambda>(q, srv). srv_node srv = n \<and> srv_port srv = q) xs \<Longrightarrow>
     find (\<lambda>(_, srv). srv_node srv = n \<and> srv_port srv = p) xs = map_option (Pair p) (map_of xs p)"
  by (induction xs) auto

lemma find_server:
  assumes "node_ok n node"
  shows "find (\<lambda>(_, srv). srv_node srv = n \<and> srv_port srv = p) (n_servers node) =
    map_option (Pair p) (xa_load (n_servers node) p)"
proof -
  have "list_all (\<lambda>(q, srv). srv_node srv = n \<and> srv_port srv = q) (n_servers node)"
    using assms by (auto simp: node_ok_def list_all_iff)
  then show ?thesis unfolding xa_load_def by (rule find_by_key)
qed

lemma notify_lookups_log:
  "ns_log (notify_lookups env srv sv i is_new lks s) = ns_log s @
     map (\<lambda>lk. (lk_sq lk, if is_new then new_server_pkt srv else del_server_pkt srv)) (filter (\<lambda>lk. lookup_wants lk sv i) lks)"
  by (induction lks arbitrary: s) (auto simp: lookup_notify_def kernel_sendmsg_def)

end
