(* ===== verification/Qrtr_Ns_Props.thy ===== *)
theory Qrtr_Ns_Props
  imports Qrtr_Ns_View
begin

text \<open>
  The properties of the name service: reachable states, refinement of the abstract registry,
  completeness of notifications, the queries by address, and the weaknesses of the protocol
  handling.
\<close>

subsection \<open>Properties\<close>

definition view :: "sockaddr_qrtr \<Rightarrow> (sockaddr_qrtr \<times> pkt) list \<Rightarrow> (nat \<times> nat \<rightharpoonup> nat \<times> nat)" where
  "view sq msgs = fold (notice sq) msgs Map.empty"

text \<open>A concrete service on node 1, and a packet announcing service 7, instance 2 at port 5 of node 3.\<close>

definition good_env :: ns_env where
  "good_env = \<lparr>env_send = (\<lambda>_. OK ()), env_mem = (\<lambda>_. True)\<rparr>"

definition demo_ns :: qrtr_ns where
  "demo_ns = \<lparr>ns_nodes = [], ns_lookups = [], ns_local_node = 1, ns_log = [(bcast_sq, Pkt_Hello)], ns_mem = 0\<rparr>"

definition demo_pkt :: bytes where
  "demo_pkt = concat (map (le_bytes 4) [QRTR_TYPE_NEW_SERVER, 7, 2, 3, 5])"

definition demo_ns2 :: qrtr_ns where
  "demo_ns2 =
     \<lparr>ns_nodes = [(3, \<lparr>n_id = 3, n_servers = [(5, \<lparr>srv_service = 7, srv_instance = 2, srv_node = 3, srv_port = 5\<rparr>)]\<rparr>)],
      ns_lookups = [\<lparr>lk_service = 7, lk_instance = 0, lk_sq = \<lparr>sq_node = 1, sq_port = 6\<rparr>\<rparr>],
      ns_local_node = 1, ns_log = [], ns_mem = 0\<rparr>"

lemma demo_reach: "ns_reach demo_ns"
  by (rule ns_reach_init [of good_env "OK ()" "OK 1" True "OK ()"])
    (simp add: qrtr_ns_init_def say_hello_def kernel_sendmsg_def good_env_def demo_ns_def)

lemma demo_words:
  "pkt_word demo_pkt 0 = QRTR_TYPE_NEW_SERVER" "pkt_word demo_pkt (Suc 0) = 7" "pkt_word demo_pkt 2 = 2"
  "pkt_word demo_pkt 3 = 3" "pkt_word demo_pkt 4 = 5" "length demo_pkt = 20"
  by (simp_all add: pkt_word_def demo_pkt_def le_bytes_numeral qrtr_types)

lemma good_env_ok: "mem_available good_env" "sends_ok good_env"
  by (simp_all add: mem_available_def sends_ok_def good_env_def)

lemma demo_step:
  "registry_step 1 (\<lparr>sq_node = 3, sq_port = 9\<rparr>, demo_pkt) Map.empty = [(3, 5) \<mapsto> (7, 2)]"
  by (simp add: registry_step_def demo_words registry_spec_def qrtr_types reg_target_def)

lemma demo_registry: "registry demo_ns = Map.empty"
  by (auto simp: registry_def demo_ns_def xa_load_Nil)

text \<open>C25. In every state the name service reaches from a successful initialisation, servers are
  filed under their own node and port with a non-zero service and port, lookups come from the
  local node, all identifiers fit 32 bits, and the worker processes any further messages, of any
  length and content, without an out-of-range read.\<close>

theorem ns_reachable_inv:
  assumes "ns_reach s"
  shows "ns_inv s \<and> registry_u32 (registry s) \<and> (\<exists>s'. qrtr_ns_work env alloc_ok msgs s = OK s')"
  using ns_reach_inv [OF assms] work_refines [of s env alloc_ok msgs] by blast

theorem ns_reachable_inv_witness:
  "ns_reach demo_ns \<and> (\<exists>s'. qrtr_ns_work good_env True [(bcast_sq, []), (bcast_sq, demo_pkt)] demo_ns = OK s')"
  using ns_reachable_inv [OF demo_reach, of good_env True "[(bcast_sq, []), (bcast_sq, demo_pkt)]"] demo_reach by blast

text \<open>C11. The worker refines the abstract registry: with memory available, a sequence of complete
  packets changes the map from addresses to services exactly as the specification of each
  command says, in the order of arrival.\<close>

theorem ns_work_refines_registry:
  assumes "ns_reach s" "mem_available env" "list_all (\<lambda>m. 20 \<le> length (snd m)) msgs"
  shows "\<exists>s'. qrtr_ns_work env True msgs s = OK s' \<and>
    registry s' = fold (registry_step (ns_local_node s)) msgs (registry s)"
  using ns_reach_inv [OF assms(1)] work_refines [of s env True msgs] assms(2,3) by auto

theorem ns_work_refines_registry_witness:
  "\<exists>s'. qrtr_ns_work good_env True [(\<lparr>sq_node = 3, sq_port = 9\<rparr>, demo_pkt)] demo_ns = OK s' \<and>
     registry s' = [(3, 5) \<mapsto> (7, 2)]"
  using ns_work_refines_registry [OF demo_reach good_env_ok(1), of "[(\<lparr>sq_node = 3, sq_port = 9\<rparr>, demo_pkt)]"]
    demo_step demo_registry
  by (simp add: demo_words(6) demo_ns_def)

text \<open>C10. A client that looks up everything sees the registry: whatever messages others send
  afterwards, the notifications sent to it since its request, applied in order, give the registry
  of the final state. Nobody but the client itself can end the subscription.\<close>

theorem ns_subscriber_view:
  assumes "ns_reach s" "ctrl_cmd_new_lookup env sq 0 0 s = (OK (), s1)" "sends_ok env"
    "list_all (\<lambda>m. fst m \<noteq> sq) msgs"
  shows "\<exists>s2. qrtr_ns_work env True msgs s1 = OK s2 \<and> wildcard sq \<in> set (ns_lookups s2) \<and>
    view sq (drop (length (ns_log s)) (ns_log s2)) = registry s2"
proof -
  note inv = ns_reach_inv [OF assms(1)]
  note v = subscribe_view [OF _ assms(2)]
  have "in_view sq (length (ns_log s)) s1" "registry_u32 (registry s1)" using v inv by auto
  moreover from this obtain s2 where s2: "qrtr_ns_work env True msgs s1 = OK s2"
    using work_refines [of s1 env True msgs] by (auto simp: in_view_def)
  ultimately have "in_view sq (length (ns_log s)) s2"
    using in_view_worker assms(3,4) by (auto simp: qrtr_ns_work_def)
  then show ?thesis using s2 by (auto simp: in_view_def tracks_def view_def)
qed

theorem ns_subscriber_view_witness:
  "\<exists>s2. qrtr_ns_work good_env True [(\<lparr>sq_node = 3, sq_port = 9\<rparr>, demo_pkt)]
       (snd (ctrl_cmd_new_lookup good_env \<lparr>sq_node = 1, sq_port = 6\<rparr> 0 0 demo_ns)) = OK s2 \<and>
     view \<lparr>sq_node = 1, sq_port = 6\<rparr> (drop 1 (ns_log s2)) = registry s2"
proof -
  let ?sq = "\<lparr>sq_node = 1, sq_port = 6\<rparr>"
  have "ctrl_cmd_new_lookup good_env ?sq 0 0 demo_ns = (OK (), snd (ctrl_cmd_new_lookup good_env ?sq 0 0 demo_ns))"
    by (simp add: ctrl_cmd_new_lookup_def take_mem_def good_env_def demo_ns_def Let_def)
  from ns_subscriber_view [OF demo_reach this good_env_ok(2), of "[(\<lparr>sq_node = 3, sq_port = 9\<rparr>, demo_pkt)]"]
  show ?thesis by (auto simp: demo_ns_def)
qed

text \<open>C39. The filter applied to the servers already known and the test applied to later
  events select the same servers for a lookup.\<close>

theorem ns_filters_agree:
  assumes "srv_instance srv < 2 ^ 32"
  shows "server_match srv \<lparr>f_service = lk_service lk, f_instance = lk_instance lk, f_ifilter = 0\<rparr> =
    lookup_wants lk (srv_service srv) (srv_instance srv)"
proof -
  have "srv_instance srv AND (2 ^ 32 - 1) = srv_instance srv"
    using take_bit_nat_eq_self [OF assms] by (simp only: take_bit_eq_mask mask_eq_exp_minus_1)
  then show ?thesis by (auto simp: server_match_def lookup_wants_def)
qed

theorem ns_filters_agree_witness:
  "\<not> server_match \<lparr>srv_service = 7, srv_instance = 2, srv_node = 3, srv_port = 5\<rparr>
      \<lparr>f_service = 7, f_instance = 3, f_ifilter = 0\<rparr>"
  using ns_filters_agree [of "\<lparr>srv_service = 7, srv_instance = 2, srv_node = 3, srv_port = 5\<rparr>"
      "\<lparr>lk_service = 7, lk_instance = 3, lk_sq = bcast_sq\<rparr>"]
  by (simp add: lookup_wants_def)

text \<open>In a reachable state the two queries by address return the service and the instance
  the registry has for that address, converted to a signed 32-bit integer, and \<^verbatim>\<open>-EINVAL\<close>
  when no server is registered there.\<close>

theorem ns_get_service_id_registry:
  assumes "ns_reach s"
  shows "qrtr_get_service_id s n p = (case registry s (n, p) of None \<Rightarrow> neg_EINVAL | Some (sv, i) \<Rightarrow> as_int sv) \<and>
    qrtr_get_service_instance_id s n p = (case registry s (n, p) of None \<Rightarrow> neg_EINVAL | Some (sv, i) \<Rightarrow> as_int i)"
proof (cases "xa_load (ns_nodes s) n")
  case (Some node)
  then have "node_ok n node" using ns_invD(2) ns_reach_inv [OF assms] by blast
  from find_server [OF this, of p] show ?thesis
    by (auto simp: qrtr_get_service_id_def qrtr_get_service_instance_id_def registry_def Some split: option.splits)
qed (simp add: qrtr_get_service_id_def qrtr_get_service_instance_id_def registry_def)

theorem ns_get_service_id_registry_witness:
  "ns_reach demo_ns \<and> qrtr_get_service_id demo_ns 3 5 = - 22"
  using ns_get_service_id_registry [OF demo_reach, of 3 5] demo_reach
  by (simp add: demo_registry neg_EINVAL_def)

text \<open>A server that takes over the port of another one is announced to the subscribers of its
  own service only: a client that subscribed to the service of the replaced server is
  told nothing and keeps it in its view, although the registry no longer has it.\<close>

theorem ns_replacement_not_retracted:
  assumes "ns_inv s" "registry s (n, p) = Some (sv, i)" "sv' \<noteq> sv" "sv' \<noteq> 0" "sv \<noteq> 0" "p \<noteq> 0" "mem_available env"
    "sq_node from \<noteq> ns_local_node s" "n \<noteq> ns_local_node s"
    "list_all (\<lambda>lk. lk_sq lk = sq \<longrightarrow> lk_service lk = sv) (ns_lookups s)"
    "ctrl_cmd_new_server env from sv' i' n p s = (r, s')"
  shows "registry s' (n, p) = Some (sv', i') \<and>
    list_all (\<lambda>m. fst m \<noteq> sq) (drop (length (ns_log s)) (ns_log s'))"
proof -
  obtain a s1 where g: "server_add env sv' i' n p s = (a, s1)" by (cases "server_add env sv' i' n p s")
  note e = server_add_effect [OF assms(1) g]
  obtain srv where a: "a = Some srv" using e(7) assms(4,6,7) by (auto simp: mem_available_def)
  have srv: "srv_node srv = n" using e(6) [OF a] by auto
  have s': "s' = notify_lookups env srv sv' i' True (ns_lookups s1) s1"
    using assms(8,9,11) g a srv e(3) by (auto simp: ctrl_cmd_new_server_def)
  have "registry s' = registry s1" by (rule registry_eq) (simp add: s' ns_frame)
  then show ?thesis
    using assms(3,5,10) e(2,4) e(6) [OF a]
    by (auto simp: s' notify_lookups_log list_all_iff lookup_wants_def)
qed

theorem ns_replacement_not_retracted_witness:
  "\<exists>s'. ctrl_cmd_new_server good_env \<lparr>sq_node = 3, sq_port = 9\<rparr> 8 4 3 5 demo_ns2 = (OK (), s') \<and>
     registry demo_ns2 (3, 5) = Some (7, 2) \<and> registry s' (3, 5) = Some (8, 4) \<and>
     list_all (\<lambda>m. fst m \<noteq> \<lparr>sq_node = 1, sq_port = 6\<rparr>) (drop 0 (ns_log s'))"
proof -
  have ok: "ns_inv demo_ns2" by (simp add: ns_inv_def demo_ns2_def node_ok_def xa_ok_def)
  have old: "registry demo_ns2 (3, 5) = Some (7, 2)" by (simp add: registry_def demo_ns2_def xa_load_def)
  obtain s' where s': "ctrl_cmd_new_server good_env \<lparr>sq_node = 3, sq_port = 9\<rparr> 8 4 3 5 demo_ns2 = (OK (), s')"
    by (simp add: ctrl_cmd_new_server_def demo_ns2_def server_add_def take_mem_def node_get_def good_env_def xa_load_def Let_def)
  show ?thesis
    using ns_replacement_not_retracted [OF ok old, of 8 good_env "\<lparr>sq_node = 3, sq_port = 9\<rparr>" "\<lparr>sq_node = 1, sq_port = 6\<rparr>" 4 "OK ()" s']
      s' old good_env_ok(1)
    by (simp add: demo_ns2_def)
qed

text \<open>A message from another node can register a server for any address of the local
  node: only the node and port of local senders are overridden.\<close>

theorem ns_remote_registers_local:
  assumes "ns_inv s" "mem_available env" "sq_node from \<noteq> ns_local_node s" "service \<noteq> 0" "port \<noteq> 0"
  shows "registry (snd (ctrl_cmd_new_server env from service inst (ns_local_node s) port s))
    (ns_local_node s, port) = Some (service, inst)"
  using new_server_refines [OF assms(1), of "from" "ns_local_node s" port "ns_local_node s" port env service inst] assms(2-5)
  by (simp add: reg_target_def refines_def)

theorem ns_remote_registers_local_witness:
  "registry (snd (ctrl_cmd_new_server good_env \<lparr>sq_node = 3, sq_port = 9\<rparr> 7 2 1 5 demo_ns)) (1, 5) = Some (7, 2)"
  using ns_remote_registers_local [of demo_ns good_env "\<lparr>sq_node = 3, sq_port = 9\<rparr>" 7 5 2] ns_reach_inv [OF demo_reach]
    good_env_ok
  by (simp add: demo_ns_def)

text \<open>The length of a received message is not looked at: an empty datagram is handled as if
  its sender had sent the contents of the message before it.\<close>

theorem ns_empty_datagram_repeats:
  assumes "length buf = recv_buf_size" "length msg \<le> recv_buf_size"
  shows "qrtr_ns_worker env buf ((a, msg) # (b, []) # msgs) s = qrtr_ns_worker env buf ((a, msg) # (b, msg) # msgs) s"
proof -
  have "kernel_recvmsg (kernel_recvmsg buf msg) [] = kernel_recvmsg (kernel_recvmsg buf msg) msg"
    using assms by (simp add: kernel_recvmsg_def)
  then show ?thesis by (simp only: qrtr_ns_worker.simps Let_def)
qed

theorem ns_empty_datagram_repeats_witness:
  "qrtr_ns_worker good_env (replicate recv_buf_size 0) [(bcast_sq, demo_pkt), (\<lparr>sq_node = 3, sq_port = 9\<rparr>, [])] demo_ns =
   qrtr_ns_worker good_env (replicate recv_buf_size 0) [(bcast_sq, demo_pkt), (\<lparr>sq_node = 3, sq_port = 9\<rparr>, demo_pkt)] demo_ns"
  by (rule ns_empty_datagram_repeats) (simp_all add: demo_words(6) recv_buf_size_def)

end
