(* ===== verification/Cmd_Db.thy ===== *)
theory Cmd_Db
  imports Prelude
begin

text \<open>
  The command database of \<^verbatim>\<open>drivers/soc/qcom/cmd-db.c\<close>: a read-only table of resources that
  firmware leaves in reserved memory. The memory is a byte list, absent before the driver has
  mapped it; every access outside of it is \<open>UB\<close>.
\<close>

unbundle bit_operations_syntax

subsection \<open>Layout\<close>

definition MAX_SLV_ID :: nat where "MAX_SLV_ID = 8"
definition SLAVE_ID_MASK :: "32 word" where "SLAVE_ID_MASK = 0x7"
definition SLAVE_ID_SHIFT :: nat where "SLAVE_ID_SHIFT = 16"
definition CMD_DB_MAGIC :: bytes where "CMD_DB_MAGIC = [0xdb, 0x30, 0x03, 0x0c]"
definition CMD_DB_HW_INVALID :: "32 word" where "CMD_DB_HW_INVALID = 0"
definition CMD_DB_HW_VRM :: "32 word" where "CMD_DB_HW_VRM = 4"

text \<open>\<^verbatim>\<open>struct cmd_db_header\<close>: version, magic, eight resource headers of 16 bytes, checksum, reserved, data.\<close>

definition rsc_hdr_at :: "nat \<Rightarrow> nat" where "rsc_hdr_at i = 8 + 16 * i"
definition hdr_reserved_at :: nat where "hdr_reserved_at = 140"
definition db_data_at :: nat where "db_data_at = 144"

text \<open>\<^verbatim>\<open>struct rsc_hdr\<close> and \<^verbatim>\<open>struct entry_header\<close>: the fields at their offsets.\<close>

definition rsc_slv_id :: "bytes \<Rightarrow> nat \<Rightarrow> nat result" where "rsc_slv_id m r = of_opt (num m r 2)"
definition rsc_header_offset :: "bytes \<Rightarrow> nat \<Rightarrow> nat result" where "rsc_header_offset m r = of_opt (num m (r + 2) 2)"
definition rsc_data_offset :: "bytes \<Rightarrow> nat \<Rightarrow> nat result" where "rsc_data_offset m r = of_opt (num m (r + 4) 2)"
definition rsc_cnt :: "bytes \<Rightarrow> nat \<Rightarrow> nat result" where "rsc_cnt m r = of_opt (num m (r + 6) 2)"

definition ENTRY_HEADER_SIZE :: nat where "ENTRY_HEADER_SIZE = 24"
definition ent_id :: "bytes \<Rightarrow> nat \<Rightarrow> bytes result" where "ent_id m e = of_opt (load m e 8)"
definition ent_addr :: "bytes \<Rightarrow> nat \<Rightarrow> nat result" where "ent_addr m e = of_opt (num m (e + 16) 4)"
definition ent_len :: "bytes \<Rightarrow> nat \<Rightarrow> nat result" where "ent_len m e = of_opt (num m (e + 20) 2)"
definition ent_offset :: "bytes \<Rightarrow> nat \<Rightarrow> nat result" where "ent_offset m e = of_opt (num m (e + 22) 2)"

subsection \<open>Queries\<close>

definition cmd_db_magic_matches :: "bytes \<Rightarrow> bool result" where
  "cmd_db_magic_matches m = rbind (of_opt (load m 4 4)) (\<lambda>magic. OK (magic = CMD_DB_MAGIC))"

definition rsc_to_entry_header :: "bytes \<Rightarrow> nat \<Rightarrow> nat result" where
  "rsc_to_entry_header m r = rbind (rsc_header_offset m r) (\<lambda>off. OK (db_data_at + off))"

definition rsc_offset :: "bytes \<Rightarrow> nat \<Rightarrow> nat \<Rightarrow> nat result" where
  "rsc_offset m r e =
     rbind (rsc_data_offset m r) (\<lambda>off. rbind (ent_offset m e) (\<lambda>loff. OK (db_data_at + off + loff)))"

definition cmd_db_ready :: "bytes option \<Rightarrow> unit result" where
  "cmd_db_ready db =
     (case db of
        None \<Rightarrow> Err EPROBE_DEFER
      | Some m \<Rightarrow> rbind (cmd_db_magic_matches m) (\<lambda>ok. if \<not> ok then Err EINVAL else OK ()))"

text \<open>\<^verbatim>\<open>strtomem_pad\<close>: the first eight characters, padded with zero bytes.\<close>

definition query_of :: "bytes \<Rightarrow> bytes" where
  "query_of name = take 8 (name @ replicate 8 0)"

text \<open>The inner loop over the entries of one resource header; \<open>None\<close> when none matches.\<close>

fun scan_entries :: "bytes \<Rightarrow> bytes \<Rightarrow> nat \<Rightarrow> nat \<Rightarrow> nat option result" where
  "scan_entries m query e 0 = OK None"
| "scan_entries m query e (Suc n) =
     rbind (ent_id m e) (\<lambda>i.
       if i = query then OK (Some e) else scan_entries m query (e + ENTRY_HEADER_SIZE) n)"

fun scan_slaves :: "bytes \<Rightarrow> bytes \<Rightarrow> nat list \<Rightarrow> (nat \<times> nat) result" where
  "scan_slaves m query [] = Err ENODEV"
| "scan_slaves m query (i # is) =
     rbind (rsc_slv_id m (rsc_hdr_at i)) (\<lambda>slv.
       if slv = 0 then Err ENODEV
       else
         rbind (rsc_to_entry_header m (rsc_hdr_at i)) (\<lambda>e.
         rbind (rsc_cnt m (rsc_hdr_at i)) (\<lambda>cnt.
         rbind (scan_entries m query e cnt) (\<lambda>hit.
           case hit of Some e' \<Rightarrow> OK (e', rsc_hdr_at i) | None \<Rightarrow> scan_slaves m query is))))"

text \<open>The result is the position of the entry and of its resource header.\<close>

definition cmd_db_get_header :: "bytes option \<Rightarrow> bytes \<Rightarrow> (nat \<times> nat) result" where
  "cmd_db_get_header db name =
     rbind (cmd_db_ready db) (\<lambda>_. scan_slaves (the db) (query_of name) [0..<MAX_SLV_ID])"

definition cmd_db_read_addr :: "bytes option \<Rightarrow> bytes \<Rightarrow> nat result" where
  "cmd_db_read_addr db name =
     (case cmd_db_get_header db name of Err _ \<Rightarrow> OK 0 | UB \<Rightarrow> UB | OK (e, _) \<Rightarrow> ent_addr (the db) e)"

definition cmd_db_read_aux_data :: "bytes option \<Rightarrow> bytes \<Rightarrow> (nat \<times> nat) result" where
  "cmd_db_read_aux_data db name =
     rbind (cmd_db_get_header db name) (\<lambda>(e, r).
     rbind (ent_len (the db) e) (\<lambda>len. rbind (rsc_offset (the db) r e) (\<lambda>p. OK (p, len))))"

definition SLAVE_ID :: "32 word \<Rightarrow> 32 word" where "SLAVE_ID addr = drop_bit 16 addr AND 0xf"
definition VRM_ADDR :: "32 word \<Rightarrow> 32 word" where "VRM_ADDR addr = drop_bit 4 addr AND 0xffff"

definition cmd_db_match_resource_addr :: "32 word \<Rightarrow> 32 word \<Rightarrow> bool" where
  "cmd_db_match_resource_addr addr1 addr2 =
     (if addr1 = addr2 then True
      else if SLAVE_ID addr1 = CMD_DB_HW_VRM \<and> VRM_ADDR addr1 = VRM_ADDR addr2 then True
      else False)"

definition cmd_db_read_slave_id :: "bytes option \<Rightarrow> bytes \<Rightarrow> 32 word result" where
  "cmd_db_read_slave_id db name =
     (case cmd_db_get_header db name of
        Err _ \<Rightarrow> OK CMD_DB_HW_INVALID
      | UB \<Rightarrow> UB
      | OK (e, _) \<Rightarrow>
          rbind (ent_addr (the db) e) (\<lambda>addr. OK (drop_bit SLAVE_ID_SHIFT (of_nat addr) AND SLAVE_ID_MASK)))"

text \<open>The header is read whether or not the database is ready.\<close>

definition cmd_db_is_standalone :: "bytes option \<Rightarrow> bool result" where
  "cmd_db_is_standalone db =
     (case db of
        None \<Rightarrow> UB
      | Some m \<Rightarrow>
          rbind (of_opt (num m hdr_reserved_at 4)) (\<lambda>v.
            (case cmd_db_ready db of OK _ \<Rightarrow> OK (odd v) | Err _ \<Rightarrow> OK False | UB \<Rightarrow> UB)))"

text \<open>The state after \<^verbatim>\<open>cmd_db_dev_probe\<close>, given the reserved memory and its mapping.\<close>

definition cmd_db_dev_probe :: "bool \<Rightarrow> bytes option \<Rightarrow> unit result \<times> bytes option" where
  "cmd_db_dev_probe rmem_found mapping =
     (if \<not> rmem_found then (Err EINVAL, None)
      else
        case mapping of
          None \<Rightarrow> (Err ENOMEM, None)
        | Some m \<Rightarrow>
            (case cmd_db_magic_matches m of
               UB \<Rightarrow> (UB, mapping)
             | Err e \<Rightarrow> (Err e, mapping)
             | OK ok \<Rightarrow>
                 if \<not> ok then (Err EINVAL, mapping)
                 else (rbind (cmd_db_is_standalone mapping) (\<lambda>_. OK ()), mapping)))"

subsection \<open>The abstract table\<close>

text \<open>
  A database is well formed when its header fits and the entries of every used resource header lie
  in the memory. Its abstraction is the list of (id, address) pairs in search order.
\<close>

fun slave_entries :: "bytes \<Rightarrow> nat \<Rightarrow> nat \<Rightarrow> (bytes \<times> nat) list" where
  "slave_entries m e 0 = []"
| "slave_entries m e (Suc n) =
     (take 8 (drop e m), le_val (take 4 (drop (e + 16) m))) # slave_entries m (e + ENTRY_HEADER_SIZE) n"

definition field16 :: "bytes \<Rightarrow> nat \<Rightarrow> nat" where
  "field16 m p = le_val (take 2 (drop p m))"

fun db_table :: "bytes \<Rightarrow> nat list \<Rightarrow> (bytes \<times> nat) list" where
  "db_table m [] = []"
| "db_table m (i # is) =
     (if field16 m (rsc_hdr_at i) = 0 then []
      else slave_entries m (db_data_at + field16 m (rsc_hdr_at i + 2)) (field16 m (rsc_hdr_at i + 6)) @ db_table m is)"

definition db_ok :: "bytes \<Rightarrow> bool" where
  "db_ok m =
     (db_data_at \<le> length m \<and> take 4 (drop 4 m) = CMD_DB_MAGIC \<and>
      list_all (\<lambda>i. field16 m (rsc_hdr_at i) = 0 \<or>
          db_data_at + field16 m (rsc_hdr_at i + 2) + ENTRY_HEADER_SIZE * field16 m (rsc_hdr_at i + 6) \<le> length m)
        [0..<MAX_SLV_ID])"

lemma num_field16: "p + 2 \<le> length m \<Longrightarrow> num m p 2 = Some (field16 m p)"
  by (simp add: num_def load_def field16_def)

lemma scan_entries_table:
  assumes "e + ENTRY_HEADER_SIZE * n \<le> length m"
  shows "\<exists>hit. scan_entries m query e n = OK hit \<and>
    map_option (\<lambda>e'. le_val (take 4 (drop (e' + 16) m))) hit = map_of (slave_entries m e n) query \<and>
    (\<forall>e'. hit = Some e' \<longrightarrow> e' + ENTRY_HEADER_SIZE \<le> length m)"
  using assms
proof (induction m query e n rule: scan_entries.induct)
  case (2 m query e n)
  then show ?case by (auto simp: ent_id_def load_def ENTRY_HEADER_SIZE_def)
qed simp

lemma scan_slaves_table:
  assumes "db_data_at \<le> length m"
    "list_all (\<lambda>i. i < MAX_SLV_ID \<and> (field16 m (rsc_hdr_at i) = 0 \<or>
       db_data_at + field16 m (rsc_hdr_at i + 2) + ENTRY_HEADER_SIZE * field16 m (rsc_hdr_at i + 6) \<le> length m)) is"
  shows "case map_of (db_table m is) query of
      None \<Rightarrow> scan_slaves m query is = Err ENODEV
    | Some a \<Rightarrow> (\<exists>e r. scan_slaves m query is = OK (e, r) \<and> ent_addr m e = OK a)"
  using assms(2)
proof (induction "is")
  case (Cons i "is")
  let ?r = "rsc_hdr_at i"
  have fits: "?r + 16 \<le> length m" using Cons.prems assms(1) by (auto simp: rsc_hdr_at_def MAX_SLV_ID_def db_data_at_def)
  then have slv: "rsc_slv_id m ?r = OK (field16 m ?r)" "rsc_cnt m ?r = OK (field16 m (?r + 6))"
    "rsc_to_entry_header m ?r = OK (db_data_at + field16 m (?r + 2))"
    by (simp_all add: rsc_slv_id_def rsc_cnt_def rsc_to_entry_header_def rsc_header_offset_def num_field16)
  show ?case
  proof (cases "field16 m ?r = 0")
    case False
    let ?e = "db_data_at + field16 m (?r + 2)"
    obtain hit where h: "scan_entries m query ?e (field16 m (?r + 6)) = OK hit"
      "map_option (\<lambda>e'. le_val (take 4 (drop (e' + 16) m))) hit = map_of (slave_entries m ?e (field16 m (?r + 6))) query"
      "\<forall>e'. hit = Some e' \<longrightarrow> e' + ENTRY_HEADER_SIZE \<le> length m"
      using scan_entries_table [of ?e "field16 m (?r + 6)" m query] Cons.prems False by auto
    show ?thesis
    proof (cases hit)
      case None
      then show ?thesis using Cons h slv False
        by (auto simp: map_add_def split: option.splits)
    next
      case (Some e')
      then have "ent_addr m e' = OK (le_val (take 4 (drop (e' + 16) m)))"
        using h(3) by (simp add: ent_addr_def num_def load_def ENTRY_HEADER_SIZE_def)
      moreover have "map_of (slave_entries m ?e (field16 m (?r + 6))) query = Some (le_val (take 4 (drop (e' + 16) m)))"
        using h(2) Some by simp
      ultimately show ?thesis using h(1) slv False Some by (simp add: map_add_Some_iff map_add_def)
    qed
  qed (use slv in simp)
qed simp

lemma cmd_db_ready_ok: "db_ok m \<Longrightarrow> cmd_db_ready (Some m) = OK ()"
  by (simp add: cmd_db_ready_def cmd_db_magic_matches_def db_ok_def load_def db_data_at_def)

text \<open>The slave field is the top of the voltage-regulator address, so equal addresses have equal slaves.\<close>

lemma slave_of_vrm: "SLAVE_ID a = drop_bit 12 (VRM_ADDR a)"
proof -
  have m: "(0xf :: 32 word) = mask 4" "(0xffff :: 32 word) = mask 16" by (simp_all add: mask_eq_exp_minus_1)
  show ?thesis unfolding SLAVE_ID_def VRM_ADDR_def m
    by (rule bit_word_eqI) (auto simp: bit_simps)
qed

subsection \<open>Properties\<close>

definition demo_db :: bytes where
  "demo_db =
     le_bytes 4 1 @ CMD_DB_MAGIC @
     le_bytes 2 4 @ le_bytes 2 0 @ le_bytes 2 24 @ le_bytes 2 1 @ replicate 8 0 @ replicate 112 0 @
     replicate 8 0 @
     [0x73, 0x6d, 0x70, 0x61, 0x31, 0, 0, 0] @ replicate 8 0 @ le_bytes 4 0x41000 @ le_bytes 2 0 @ le_bytes 2 0"

lemma demo_db_fields:
  "field16 demo_db (rsc_hdr_at 0) = 4" "field16 demo_db (rsc_hdr_at 0 + 2) = 0" "field16 demo_db (rsc_hdr_at 0 + 6) = 1"
  "field16 demo_db (rsc_hdr_at (Suc 0)) = 0" "length demo_db = 168" "take 4 (drop 4 demo_db) = CMD_DB_MAGIC"
  by (simp_all add: demo_db_def field16_def rsc_hdr_at_def le_bytes_numeral CMD_DB_MAGIC_def replicate_numeral)

lemma demo_db_unused: "i < 7 \<Longrightarrow> field16 demo_db (rsc_hdr_at (Suc i)) = 0"
proof -
  assume i: "i < 7"
  have d: "drop 24 demo_db = replicate 120 0 @ drop 144 demo_db"
    by (simp add: demo_db_def le_bytes_numeral CMD_DB_MAGIC_def replicate_numeral)
  have "drop (24 + 16 * i) demo_db = drop (16 * i) (drop 24 demo_db)" by (simp add: add.commute)
  then have "take 2 (drop (24 + 16 * i) demo_db) = take 2 (replicate (120 - 16 * i) 0 @ drop (16 * i - 120) (drop 144 demo_db))"
    unfolding d by simp
  moreover have "2 \<le> 120 - 16 * i" using i by simp
  ultimately have "take 2 (drop (24 + 16 * i) demo_db) = [0, 0]" by (simp add: take_replicate min_absorb1 replicate_numeral)
  then show ?thesis by (simp add: field16_def rsc_hdr_at_def)
qed

lemma demo_db_ok: "db_ok demo_db"
proof -
  have "i < 8 \<Longrightarrow> field16 demo_db (rsc_hdr_at i) = 0 \<or>
      db_data_at + field16 demo_db (rsc_hdr_at i + 2) + ENTRY_HEADER_SIZE * field16 demo_db (rsc_hdr_at i + 6) \<le> length demo_db" for i
    using demo_db_unused [of "i - 1"] demo_db_fields by (cases i) (auto simp: db_data_at_def ENTRY_HEADER_SIZE_def)
  then show ?thesis
    using demo_db_fields(5,6) unfolding db_ok_def list_all_iff by (auto simp: MAX_SLV_ID_def db_data_at_def)
qed

lemma demo_db_table: "db_table demo_db [0..<MAX_SLV_ID] = [([0x73, 0x6d, 0x70, 0x61, 0x31, 0, 0, 0], 0x41000)]"
proof -
  have "[0..<MAX_SLV_ID] = 0 # Suc 0 # [2..<8]" by (simp add: MAX_SLV_ID_def upt_conv_Cons)
  moreover have "slave_entries demo_db 144 1 = [([0x73, 0x6d, 0x70, 0x61, 0x31, 0, 0, 0], 0x41000)]"
    by (simp add: demo_db_def le_bytes_numeral CMD_DB_MAGIC_def replicate_numeral)
  ultimately show ?thesis using demo_db_fields by (simp add: db_data_at_def)
qed

text \<open>C33. On a well-formed database the address query stays in the mapped memory and returns the
  address of the first entry, in the order of the resource headers, whose identifier is the
  padded name, and 0 when there is none.\<close>

theorem cmd_db_read_addr_table:
  assumes "db_ok m"
  shows "cmd_db_read_addr (Some m) name =
    OK (case map_of (db_table m [0..<MAX_SLV_ID]) (query_of name) of None \<Rightarrow> 0 | Some a \<Rightarrow> a)"
proof -
  have "db_data_at \<le> length m" using assms by (simp add: db_ok_def)
  moreover have "list_all (\<lambda>i. i < MAX_SLV_ID \<and> (field16 m (rsc_hdr_at i) = 0 \<or>
       db_data_at + field16 m (rsc_hdr_at i + 2) + ENTRY_HEADER_SIZE * field16 m (rsc_hdr_at i + 6) \<le> length m)) [0..<MAX_SLV_ID]"
    using assms unfolding db_ok_def list_all_iff by simp
  ultimately show ?thesis
    using scan_slaves_table [of m "[0..<MAX_SLV_ID]" "query_of name"]
    by (auto simp: cmd_db_read_addr_def cmd_db_get_header_def cmd_db_ready_ok [OF assms] split: option.splits)
qed

theorem cmd_db_read_addr_table_witness:
  "db_ok demo_db \<and> cmd_db_read_addr (Some demo_db) [0x73, 0x6d, 0x70, 0x61, 0x31] = OK 0x41000 \<and>
   cmd_db_read_addr (Some demo_db) [0x73] = OK 0"
  using cmd_db_read_addr_table [OF demo_db_ok] demo_db_ok by (simp add: demo_db_table query_of_def replicate_numeral)

text \<open>Referring to the same resource is an equivalence relation on addresses, although the code
  tests only the slave of its first argument.\<close>

theorem cmd_db_match_equivp: "equivp cmd_db_match_resource_addr"
  by (intro equivpI reflpI sympI transpI) (auto simp: cmd_db_match_resource_addr_def slave_of_vrm split: if_splits)

end
