(* ===== verification/Mdt_Loader.thy ===== *)
theory Mdt_Loader
  imports Prelude
begin

text \<open>
  The loader of peripheral images (\<^verbatim>\<open>drivers/soc/qcom/mdt_loader.c\<close>). An image is a 32-bit ELF file,
  whole or with its segments split out into files of their own; it is read byte by byte, so that a read
  past its end is \<open>UB\<close>. Loading a split-out file and the calls to the secure firmware are arguments.
\<close>

subsection \<open>The image\<close>

text \<open>The layout of the ELF format: sizes of the two headers and the offsets of the fields in use.\<close>

definition EHDR_SIZE :: nat where "EHDR_SIZE = 52"
definition ELF_PHDR_SIZE :: nat where "ELF_PHDR_SIZE = 32"
definition PT_LOAD :: nat where "PT_LOAD = 1"
definition PN_XNUM :: nat where "PN_XNUM = 0xffff"
definition PHYS_ADDR_MAX :: nat where "PHYS_ADDR_MAX = 2 ^ 64 - 1"

definition QCOM_MDT_TYPE_MASK :: nat where "QCOM_MDT_TYPE_MASK = 0x7000000"
definition QCOM_MDT_TYPE_HASH :: nat where "QCOM_MDT_TYPE_HASH = 0x2000000"
definition QCOM_MDT_RELOCATABLE :: nat where "QCOM_MDT_RELOCATABLE = 0x8000000"

definition e_phnum :: "bytes \<Rightarrow> nat result" where "e_phnum fw = of_opt (num fw 44 2)"

definition phdr_field :: "nat \<Rightarrow> bytes \<Rightarrow> nat \<Rightarrow> nat result" where
  "phdr_field d fw i = of_opt (num fw (EHDR_SIZE + ELF_PHDR_SIZE * i + d) 4)"

abbreviation p_type :: "bytes \<Rightarrow> nat \<Rightarrow> nat result" where "p_type \<equiv> phdr_field 0"
abbreviation p_offset :: "bytes \<Rightarrow> nat \<Rightarrow> nat result" where "p_offset \<equiv> phdr_field 4"
abbreviation p_paddr :: "bytes \<Rightarrow> nat \<Rightarrow> nat result" where "p_paddr \<equiv> phdr_field 12"
abbreviation p_filesz :: "bytes \<Rightarrow> nat \<Rightarrow> nat result" where "p_filesz \<equiv> phdr_field 16"
abbreviation p_memsz :: "bytes \<Rightarrow> nat \<Rightarrow> nat result" where "p_memsz \<equiv> phdr_field 20"
abbreviation p_flags :: "bytes \<Rightarrow> nat \<Rightarrow> nat result" where "p_flags \<equiv> phdr_field 24"

definition mdt_phdr_valid :: "bytes \<Rightarrow> nat \<Rightarrow> bool result" where
  "mdt_phdr_valid fw i =
     rbind (p_type fw i) (\<lambda>type.
       if type \<noteq> PT_LOAD then OK False
       else rbind (p_flags fw i) (\<lambda>flags.
         if flags AND QCOM_MDT_TYPE_MASK = QCOM_MDT_TYPE_HASH then OK False
         else rbind (p_memsz fw i) (\<lambda>memsz. OK (memsz \<noteq> 0))))"

text \<open>\<^verbatim>\<open>ALIGN\<close> of a 32-bit number.\<close>

definition ALIGN_u32 :: "nat \<Rightarrow> nat \<Rightarrow> nat" where
  "ALIGN_u32 x a = unat ((of_nat x + (of_nat a - 1)) AND NOT (of_nat a - 1) :: 32 word)"

subsection \<open>Size of an image\<close>

text \<open>
  The range of physical addresses of the loadable segments, and whether one of them is relocatable.
  The end of a segment is computed in 32 bits.
\<close>

fun addr_range :: "bytes \<Rightarrow> nat list \<Rightarrow> nat \<times> nat \<times> bool \<Rightarrow> (nat \<times> nat \<times> bool) result" where
  "addr_range fw [] acc = OK acc"
| "addr_range fw (i # is) (min_addr, max_addr, relocate) =
     rbind (mdt_phdr_valid fw i) (\<lambda>valid.
       if \<not> valid then addr_range fw is (min_addr, max_addr, relocate)
       else
         rbind (p_flags fw i) (\<lambda>flags.
         rbind (p_paddr fw i) (\<lambda>paddr.
         rbind (p_memsz fw i) (\<lambda>memsz.
           addr_range fw is
             (if paddr < min_addr then paddr else min_addr,
              if u32 (paddr + memsz) > max_addr then ALIGN_u32 (u32 (paddr + memsz)) 4096 else max_addr,
              relocate \<or> flags AND QCOM_MDT_RELOCATABLE \<noteq> 0)))))"

definition image_range :: "bytes \<Rightarrow> (nat \<times> nat \<times> bool) result" where
  "image_range fw = rbind (e_phnum fw) (\<lambda>n. addr_range fw [0..<n] (PHYS_ADDR_MAX, 0, False))"

definition qcom_mdt_get_size :: "bytes \<Rightarrow> nat result" where
  "qcom_mdt_get_size fw =
     rbind (image_range fw) (\<lambda>(min_addr, max_addr, _).
       if min_addr < max_addr then OK (max_addr - min_addr) else Err EINVAL)"

subsection \<open>Split-out segments\<close>

text \<open>
  \<open>request name size\<close> stands for \<^verbatim>\<open>request_firmware_into_buf\<close>: the bytes it puts at the start of the
  buffer, and the size of the file or the error. The name is built in place of the last three
  characters, in a copy that has no room for more than two digits. \<open>kstrdup\<close> tells for which segments
  the copy can be made.
\<close>

type_synonym fw_request = "string \<Rightarrow> nat \<Rightarrow> bytes \<times> nat result"

definition digit_char :: "nat \<Rightarrow> char" where "digit_char d = char_of (48 + d)"

definition seg_name :: "string \<Rightarrow> nat \<Rightarrow> string result" where
  "seg_name fw_name segment =
     (if segment < 100
      then OK (take (length fw_name - 3) fw_name @ ''b'' @ [digit_char (segment div 10), digit_char (segment mod 10)])
      else UB)"

definition mdt_load_split_segment ::
  "fw_request \<Rightarrow> (nat \<Rightarrow> bool) \<Rightarrow> bytes \<Rightarrow> nat \<Rightarrow> bytes \<Rightarrow> nat \<Rightarrow> string \<Rightarrow> unit result \<times> bytes" where
  "mdt_load_split_segment request kstrdup mem ptr fw segment fw_name =
     (if length fw_name < 4 then (Err EINVAL, mem)
      else if \<not> kstrdup segment then (Err ENOMEM, mem)
      else
        case rbind (seg_name fw_name segment) (\<lambda>name. rbind (p_filesz fw segment) (\<lambda>filesz. OK (name, filesz))) of
          UB \<Rightarrow> (UB, mem)
        | Err e \<Rightarrow> (Err e, mem)
        | OK (name, filesz) \<Rightarrow>
            (case request name filesz of
               (d, r) \<Rightarrow>
                 (case store mem ptr d of
                    None \<Rightarrow> (UB, mem)
                  | Some mem' \<Rightarrow>
                      (case r of
                         OK sz \<Rightarrow> (if sz \<noteq> filesz then Err EINVAL else OK (), mem')
                       | Err e \<Rightarrow> (Err e, mem')
                       | UB \<Rightarrow> (UB, mem')))))"

subsection \<open>Metadata\<close>

fun find_hash :: "bytes \<Rightarrow> nat list \<Rightarrow> nat result" where
  "find_hash fw [] = OK 0"
| "find_hash fw (i # is) =
     rbind (p_flags fw i) (\<lambda>flags.
       if flags AND QCOM_MDT_TYPE_MASK = QCOM_MDT_TYPE_HASH then OK i else find_hash fw is)"

text \<open>The hashes behind a copy of the headers: in the file, or in a file of their own.\<close>

definition read_hash :: "fw_request \<Rightarrow> (nat \<Rightarrow> bool) \<Rightarrow> string \<Rightarrow> bytes \<Rightarrow> nat \<Rightarrow> nat \<Rightarrow> nat \<Rightarrow> bytes result" where
  "read_hash request kstrdup fw_name fw hash_segment ehdr_size hash_size =
     (if ehdr_size + hash_size = length fw then of_opt (load fw ehdr_size hash_size)
      else
        rbind (p_offset fw hash_segment) (\<lambda>offset.
          if offset + hash_size \<le> length fw then of_opt (load fw offset hash_size)
          else
            case mdt_load_split_segment request kstrdup (replicate hash_size 0) 0 fw hash_segment fw_name of
              (OK _, data) \<Rightarrow> OK data
            | (Err e, _) \<Rightarrow> Err e
            | (UB, _) \<Rightarrow> UB))"

definition qcom_mdt_read_metadata :: "fw_request \<Rightarrow> bool \<Rightarrow> (nat \<Rightarrow> bool) \<Rightarrow> string \<Rightarrow> bytes \<Rightarrow> bytes result" where
  "qcom_mdt_read_metadata request kmalloc kstrdup fw_name fw =
     rbind (e_phnum fw) (\<lambda>phnum.
       if phnum < 2 \<or> phnum > PN_XNUM then Err EINVAL
       else rbind (p_type fw 0) (\<lambda>type0.
         if type0 = PT_LOAD then Err EINVAL
         else if EHDR_SIZE + ELF_PHDR_SIZE * phnum > length fw then Err EINVAL
         else rbind (find_hash fw [1..<phnum]) (\<lambda>hash_segment.
           if hash_segment = 0 then Err EINVAL
           else
             rbind (p_filesz fw 0) (\<lambda>ehdr_size.
             rbind (p_filesz fw hash_segment) (\<lambda>hash_size.
               if \<not> kmalloc then Err ENOMEM
               else
                 rbind (of_opt (load fw 0 ehdr_size)) (\<lambda>hdr.
                 rbind (read_hash request kstrdup fw_name fw hash_segment ehdr_size hash_size) (\<lambda>hash.
                   OK (hdr @ hash))))))))"

subsection \<open>Authentication\<close>

datatype scm_call = PasInitImage nat bytes | PasMemSetup nat nat nat | PasShutdown nat | PasMetadataRelease

text \<open>\<open>scm\<close> answers the calls of the secure firmware; the calls made are the second result.\<close>

definition qcom_mdt_pas_init ::
  "(scm_call \<Rightarrow> unit result) \<Rightarrow> fw_request \<Rightarrow> bool \<Rightarrow> (nat \<Rightarrow> bool) \<Rightarrow> bytes \<Rightarrow> string \<Rightarrow> nat \<Rightarrow> nat \<Rightarrow> bool \<Rightarrow>
   unit result \<times> scm_call list" where
  "qcom_mdt_pas_init scm request kmalloc kstrdup fw fw_name pas_id mem_phys dma_phys_below_32b =
     (case rbind (image_range fw) (\<lambda>range.
             rbind (qcom_mdt_read_metadata request kmalloc kstrdup fw_name fw) (\<lambda>metadata. OK (range, metadata))) of
        UB \<Rightarrow> (UB, [])
      | Err e \<Rightarrow> (Err e, [])
      | OK ((min_addr, max_addr, relocate), metadata) \<Rightarrow>
          let c1 = PasInitImage pas_id metadata in
          (case scm c1 of
             OK _ \<Rightarrow>
               if relocate then
                 let c2 = PasMemSetup pas_id mem_phys (u64 (max_addr + 2 ^ 64 - min_addr)) in
                 (case scm c2 of
                    OK _ \<Rightarrow> (OK (), [c1, c2])
                  | r \<Rightarrow> (r, [c1, c2] @ (if dma_phys_below_32b then [PasShutdown pas_id] else []) @ [PasMetadataRelease]))
               else (OK (), [c1])
           | r \<Rightarrow> (r, [c1])))"

subsection \<open>Loading\<close>

fun bins_split :: "bytes \<Rightarrow> nat list \<Rightarrow> bool result" where
  "bins_split fw [] = OK False"
| "bins_split fw (i # is) =
     rbind (p_filesz fw i) (\<lambda>filesz.
       if filesz = 0 then bins_split fw is
       else rbind (p_offset fw i) (\<lambda>offset.
         if offset > length fw \<or> u32 (offset + filesz) > length fw then OK True else bins_split fw is))"

definition qcom_mdt_bins_are_split :: "bytes \<Rightarrow> bool result" where
  "qcom_mdt_bins_are_split fw = rbind (e_phnum fw) (\<lambda>n. bins_split fw [0..<n])"

text \<open>The difference of two addresses as a signed number of 64 bits.\<close>

definition s64_diff :: "nat \<Rightarrow> nat \<Rightarrow> int" where
  "s64_diff a b = sint (of_nat a - of_nat b :: 64 word)"

record segment =
  sg_paddr :: nat
  sg_offset :: nat
  sg_filesz :: nat
  sg_memsz :: nat

definition read_segment :: "bytes \<Rightarrow> nat \<Rightarrow> segment result" where
  "read_segment fw i =
     rbind (p_paddr fw i) (\<lambda>paddr. rbind (p_offset fw i) (\<lambda>offset.
     rbind (p_filesz fw i) (\<lambda>filesz. rbind (p_memsz fw i) (\<lambda>memsz.
       OK \<lparr>sg_paddr = paddr, sg_offset = offset, sg_filesz = filesz, sg_memsz = memsz\<rparr>))))"

text \<open>Copying the bytes of a segment from the image or from its file, before the rest is cleared.\<close>

definition copy_segment ::
  "fw_request \<Rightarrow> (nat \<Rightarrow> bool) \<Rightarrow> bytes \<Rightarrow> string \<Rightarrow> bool \<Rightarrow> nat \<Rightarrow> segment \<Rightarrow> nat \<Rightarrow> bytes \<Rightarrow> unit result \<times> bytes" where
  "copy_segment request kstrdup fw fw_name is_split i sg ptr mem =
     (if sg_filesz sg \<noteq> 0 \<and> \<not> is_split then
        if u32 (sg_offset sg + sg_filesz sg) > length fw then (Err EINVAL, mem)
        else
          (case load fw (sg_offset sg) (sg_filesz sg) of
             None \<Rightarrow> (UB, mem)
           | Some d \<Rightarrow> (case store mem ptr d of None \<Rightarrow> (UB, mem) | Some mem' \<Rightarrow> (OK (), mem')))
      else if sg_filesz sg \<noteq> 0 then mdt_load_split_segment request kstrdup mem ptr fw i fw_name
      else (OK (), mem))"

definition load_segment ::
  "fw_request \<Rightarrow> (nat \<Rightarrow> bool) \<Rightarrow> bytes \<Rightarrow> string \<Rightarrow> bool \<Rightarrow> nat \<Rightarrow> nat \<Rightarrow> nat \<Rightarrow> segment \<Rightarrow> bytes \<Rightarrow> unit result \<times> bytes" where
  "load_segment request kstrdup fw fw_name is_split mem_reloc mem_size i sg mem =
     (let offset = s64_diff (sg_paddr sg) mem_reloc in
      if offset < 0 \<or> nat offset + sg_memsz sg > mem_size then (Err EINVAL, mem)
      else if sg_filesz sg > sg_memsz sg then (Err EINVAL, mem)
      else
        case copy_segment request kstrdup fw fw_name is_split i sg (nat offset) mem of
          (OK _, mem') \<Rightarrow>
            if sg_memsz sg > sg_filesz sg then
              (case store mem' (nat offset + sg_filesz sg) (replicate (sg_memsz sg - sg_filesz sg) 0) of
                 None \<Rightarrow> (UB, mem')
               | Some mem'' \<Rightarrow> (OK (), mem''))
            else (OK (), mem')
        | r \<Rightarrow> r)"

fun load_segments ::
  "fw_request \<Rightarrow> (nat \<Rightarrow> bool) \<Rightarrow> bytes \<Rightarrow> string \<Rightarrow> bool \<Rightarrow> nat \<Rightarrow> nat \<Rightarrow> nat list \<Rightarrow> bytes \<Rightarrow> unit result \<times> bytes" where
  "load_segments request kstrdup fw fw_name is_split mem_reloc mem_size [] mem = (OK (), mem)"
| "load_segments request kstrdup fw fw_name is_split mem_reloc mem_size (i # is) mem =
     (case rbind (mdt_phdr_valid fw i) (\<lambda>valid. if valid then rbind (read_segment fw i) (\<lambda>sg. OK (Some sg)) else OK None) of
        UB \<Rightarrow> (UB, mem)
      | Err e \<Rightarrow> (Err e, mem)
      | OK None \<Rightarrow> load_segments request kstrdup fw fw_name is_split mem_reloc mem_size is mem
      | OK (Some sg) \<Rightarrow>
          (case load_segment request kstrdup fw fw_name is_split mem_reloc mem_size i sg mem of
             (OK _, mem') \<Rightarrow> load_segments request kstrdup fw fw_name is_split mem_reloc mem_size is mem'
           | r \<Rightarrow> r))"

text \<open>
  The region is the memory given to the loader, or none; the results are the return value, the region
  and the base the segments were placed by.
\<close>

definition do_qcom_mdt_load ::
  "fw_request \<Rightarrow> (nat \<Rightarrow> bool) \<Rightarrow> bytes option \<Rightarrow> string \<Rightarrow> bytes option \<Rightarrow> nat \<Rightarrow> nat \<Rightarrow> unit result \<times> bytes option \<times> nat option" where
  "do_qcom_mdt_load request kstrdup fw fw_name mem_region mem_phys mem_size =
     (case (fw, mem_region) of
        (Some f, Some mem) \<Rightarrow>
          if mem_phys = 0 \<or> mem_size = 0 then (Err EINVAL, mem_region, None)
          else
            (case rbind (qcom_mdt_bins_are_split f) (\<lambda>split. rbind (image_range f) (\<lambda>range.
                    rbind (e_phnum f) (\<lambda>n. OK (split, range, n)))) of
               UB \<Rightarrow> (UB, mem_region, None)
             | Err e \<Rightarrow> (Err e, mem_region, None)
             | OK (is_split, (min_addr, _, relocate), n) \<Rightarrow>
                 let mem_reloc = (if relocate then min_addr else mem_phys) in
                 (case load_segments request kstrdup f fw_name is_split mem_reloc mem_size [0..<n] mem of
                    (r, mem') \<Rightarrow> (r, Some mem', Some mem_reloc)))
      | _ \<Rightarrow> (Err EINVAL, mem_region, None))"

definition qcom_mdt_load ::
  "(scm_call \<Rightarrow> unit result) \<Rightarrow> fw_request \<Rightarrow> bool \<Rightarrow> (nat \<Rightarrow> bool) \<Rightarrow> bytes \<Rightarrow> string \<Rightarrow> nat \<Rightarrow> bytes option \<Rightarrow> nat \<Rightarrow> nat \<Rightarrow>
   (unit result \<times> bytes option \<times> nat option) \<times> scm_call list" where
  "qcom_mdt_load scm request kmalloc kstrdup fw fw_name pas_id mem_region mem_phys mem_size =
     (case qcom_mdt_pas_init scm request kmalloc kstrdup fw fw_name pas_id mem_phys False of
        (OK _, calls) \<Rightarrow> (do_qcom_mdt_load request kstrdup (Some fw) fw_name mem_region mem_phys mem_size, calls)
      | (r, calls) \<Rightarrow> ((r, mem_region, None), calls))"

definition qcom_mdt_load_no_init ::
  "fw_request \<Rightarrow> (nat \<Rightarrow> bool) \<Rightarrow> bytes option \<Rightarrow> string \<Rightarrow> bytes option \<Rightarrow> nat \<Rightarrow> nat \<Rightarrow> unit result \<times> bytes option \<times> nat option" where
  "qcom_mdt_load_no_init = do_qcom_mdt_load"

end
