(* ===== verification/Mdt_Load.thy ===== *)
theory Mdt_Load
  imports Mdt_Loader
begin

text \<open>
  Memory safety of the image loader and what it leaves in memory: every loadable segment at its place,
  filled up with zeros, when the segments do not overlap.
\<close>

subsection \<open>Reading the headers\<close>

definition hdr_ok :: "bytes \<Rightarrow> nat \<Rightarrow> bool" where
  "hdr_ok fw n \<longleftrightarrow> e_phnum fw = OK n \<and> EHDR_SIZE + ELF_PHDR_SIZE * n \<le> length fw"

lemma field_OK:
  assumes "hdr_ok fw n" "i < n" "d \<le> 28"
  shows "\<exists>v. phdr_field d fw i = OK v"
proof -
  have "EHDR_SIZE + ELF_PHDR_SIZE * i + d + 4 \<le> length fw"
    using assms by (simp add: hdr_ok_def EHDR_SIZE_def ELF_PHDR_SIZE_def)
  from num_OK [OF this] show ?thesis by (auto simp: phdr_field_def)
qed

lemma fields_OK:
  assumes "hdr_ok fw n" "i < n"
  obtains a b c d e f where "p_type fw i = OK a" "p_offset fw i = OK b" "p_paddr fw i = OK c" "p_filesz fw i = OK d"
    "p_memsz fw i = OK e" "p_flags fw i = OK f"
  using field_OK [OF assms, of 0] field_OK [OF assms, of 4] field_OK [OF assms, of 12] field_OK [OF assms, of 16]
    field_OK [OF assms, of 20] field_OK [OF assms, of 24] by auto

lemma field_less: "phdr_field d fw i = OK v \<Longrightarrow> v < 2 ^ 32"
  using num_OK [of "EHDR_SIZE + ELF_PHDR_SIZE * i + d" 4 fw] num_None_iff [of fw "EHDR_SIZE + ELF_PHDR_SIZE * i + d" 4]
  by (auto simp: phdr_field_def not_less [symmetric])

lemma valid_OK:
  assumes "hdr_ok fw n" "i < n"
  obtains b where "mdt_phdr_valid fw i = OK b"
proof -
  have "\<exists>b. mdt_phdr_valid fw i = OK b"
    by (rule fields_OK [OF assms]) (auto simp: mdt_phdr_valid_def)
  with that show ?thesis by blast
qed

definition seg_at :: "bytes \<Rightarrow> nat \<Rightarrow> segment \<Rightarrow> bool" where
  "seg_at fw i sg \<longleftrightarrow> mdt_phdr_valid fw i = OK True \<and> read_segment fw i = OK sg"

lemma read_segment_OK:
  assumes "hdr_ok fw n" "i < n"
  obtains sg where "read_segment fw i = OK sg"
proof -
  show ?thesis
    by (rule fields_OK [OF assms]) (use that in \<open>simp add: read_segment_def\<close>)
qed

lemma read_segment_fields:
  assumes "read_segment fw i = OK sg"
  shows "p_paddr fw i = OK (sg_paddr sg)" "p_offset fw i = OK (sg_offset sg)" "p_filesz fw i = OK (sg_filesz sg)"
    "p_memsz fw i = OK (sg_memsz sg)" "sg_paddr sg < 2 ^ 32" "sg_offset sg < 2 ^ 32" "sg_filesz sg < 2 ^ 32" "sg_memsz sg < 2 ^ 32"
  using assms by (auto simp: read_segment_def dest: field_less)

lemma addr_range_OK:
  assumes "hdr_ok fw n" "\<forall>i \<in> set is. i < n"
  shows "\<exists>r. addr_range fw is acc = OK r"
  using assms(2)
proof (induction "is" arbitrary: acc)
  case (Cons i "is")
  obtain a b c where acc: "acc = (a, b, c)" by (rule prod_cases3)
  obtain v where v: "mdt_phdr_valid fw i = OK v" using valid_OK [OF assms(1)] Cons.prems by auto
  have i: "i < n" using Cons.prems by simp
  obtain x y z where "p_flags fw i = OK x" "p_paddr fw i = OK y" "p_memsz fw i = OK z"
    by (rule fields_OK [OF assms(1) i])
  with v acc Cons show ?case by simp
next
  case Nil
  show ?case by (cases acc) simp
qed

lemma image_range_OK: "hdr_ok fw n \<Longrightarrow> \<exists>r. image_range fw = OK r"
  using addr_range_OK [of fw n "[0..<n]"] by (simp add: image_range_def hdr_ok_def)

definition whole :: "bytes \<Rightarrow> nat \<Rightarrow> nat \<Rightarrow> bool" where
  "whole fw offset filesz \<longleftrightarrow> filesz = 0 \<or> offset \<le> length fw \<and> u32 (offset + filesz) \<le> length fw"

lemma bins_split_OK:
  assumes "hdr_ok fw n" "\<forall>i \<in> set is. i < n"
  shows "\<exists>b. bins_split fw is = OK b \<and>
    (\<not> b \<longleftrightarrow> (\<forall>i \<in> set is. \<forall>offset filesz. p_offset fw i = OK offset \<longrightarrow> p_filesz fw i = OK filesz \<longrightarrow> whole fw offset filesz))"
  using assms(2)
proof (induction "is")
  case (Cons i "is")
  have i: "i < n" using Cons.prems by simp
  obtain x y where "p_filesz fw i = OK x" "p_offset fw i = OK y"
    by (rule fields_OK [OF assms(1) i])
  with Cons show ?case by (auto simp: whole_def not_less)
qed auto

subsection \<open>Memory safety\<close>

text \<open>
  What is documented of \<^verbatim>\<open>request_firmware_into_buf\<close>: it stays inside the buffer it is given, and on
  success has put the whole file there.
\<close>

definition request_ok :: "fw_request \<Rightarrow> bool" where
  "request_ok request \<longleftrightarrow> (\<forall>name n. length (fst (request name n)) \<le> n \<and> snd (request name n) \<noteq> UB \<and>
     (\<forall>sz. snd (request name n) = OK sz \<longrightarrow> length (fst (request name n)) = sz))"

lemma split_segment_safe:
  assumes "request_ok request" "segment < 100" "p_filesz fw segment = OK filesz" "ptr + filesz \<le> length mem"
    "mdt_load_split_segment request kstrdup mem ptr fw segment fw_name = (r, mem')"
  shows "r \<noteq> UB \<and> length mem' = length mem"
proof (cases "length fw_name < 4 \<or> \<not> kstrdup segment")
  case True
  then have "mem' = mem \<and> (r = Err EINVAL \<or> r = Err ENOMEM)"
    using assms(5) by (auto simp: mdt_load_split_segment_def split: if_splits)
  then show ?thesis by auto
next
  case False
  obtain name where nm: "seg_name fw_name segment = OK name" using assms(2) by (simp add: seg_name_def)
  obtain d q where dq: "request name filesz = (d, q)" by fastforce
  have q: "length d \<le> filesz" "q \<noteq> UB" using assms(1) dq unfolding request_ok_def by (metis fst_conv, metis snd_conv)
  then obtain m where m: "store mem ptr d = Some m" "length m = length mem"
    using assms(4) by (cases "store mem ptr d") (auto simp: store_None_iff dest: store_length)
  show ?thesis
    using assms(3,5) False nm dq m q by (cases q) (auto simp: mdt_load_split_segment_def split: if_splits)
qed

lemma copy_segment_safe:
  assumes "request_ok request" "i < 100" "p_filesz fw i = OK (sg_filesz sg)" "\<not> is_split \<longrightarrow> whole fw (sg_offset sg) (sg_filesz sg)"
    "ptr + sg_filesz sg \<le> length mem" "length fw + length mem < 2 ^ 32" "sg_offset sg < 2 ^ 32"
    "copy_segment request kstrdup fw fw_name is_split i sg ptr mem = (r, mem')"
  shows "r \<noteq> UB \<and> length mem' = length mem"
proof (cases "sg_filesz sg \<noteq> 0 \<and> \<not> is_split")
  case True
  then have le: "sg_offset sg \<le> length fw" "u32 (sg_offset sg + sg_filesz sg) \<le> length fw"
    using assms(4) by (auto simp: whole_def)
  have "sg_offset sg + sg_filesz sg < 2 ^ 32" using le(1) assms(5,6) by simp
  then have "sg_offset sg + sg_filesz sg \<le> length fw" using le(2) by simp
  then obtain d where d: "load fw (sg_offset sg) (sg_filesz sg) = Some d" "length d = sg_filesz sg"
    by (cases "load fw (sg_offset sg) (sg_filesz sg)") (auto simp: load_None_iff load_nth)
  then obtain m where "store mem ptr d = Some m" "length m = length mem"
    using assms(5) by (cases "store mem ptr d") (auto simp: store_None_iff dest: store_length)
  then show ?thesis using True d le assms(8) by (auto simp: copy_segment_def)
next
  case False
  then show ?thesis
    using assms(5,8) split_segment_safe [OF assms(1,2,3), of ptr mem kstrdup fw_name r mem']
    by (auto simp: copy_segment_def split: if_splits)
qed

lemma load_segment_safe:
  assumes "request_ok request" "i < 100" "read_segment fw i = OK sg" "\<not> is_split \<longrightarrow> whole fw (sg_offset sg) (sg_filesz sg)"
    "mem_size = length mem" "length fw + length mem < 2 ^ 32"
    "load_segment request kstrdup fw fw_name is_split mem_reloc mem_size i sg mem = (r, mem')"
  shows "r \<noteq> UB \<and> length mem' = length mem"
proof (cases "s64_diff (sg_paddr sg) mem_reloc < 0 \<or> nat (s64_diff (sg_paddr sg) mem_reloc) + sg_memsz sg > mem_size \<or> sg_filesz sg > sg_memsz sg")
  case True
  then have "r = Err EINVAL \<and> mem' = mem"
    using assms(7) by (auto simp: load_segment_def Let_def split: if_splits)
  then show ?thesis by simp
next
  case False
  let ?p = "nat (s64_diff (sg_paddr sg) mem_reloc)"
  have le: "?p + sg_memsz sg \<le> length mem" "sg_filesz sg \<le> sg_memsz sg" using False assms(5) by auto
  obtain q m where qm: "copy_segment request kstrdup fw fw_name is_split i sg ?p mem = (q, m)" by fastforce
  have c: "q \<noteq> UB \<and> length m = length mem"
    using copy_segment_safe [OF assms(1,2) read_segment_fields(3) [OF assms(3)] assms(4) _ assms(6) read_segment_fields(6) [OF assms(3)] qm] le by simp
  have "store m (?p + sg_filesz sg) (replicate (sg_memsz sg - sg_filesz sg) 0) \<noteq> None"
    using le c by (simp add: store_None_iff)
  then show ?thesis
    using assms(7) False qm c by (cases q) (auto simp: load_segment_def Let_def split: option.splits if_splits dest: store_length)
qed

lemma load_segments_safe:
  assumes "request_ok request" "hdr_ok fw n" "\<forall>i \<in> set is. i < n \<and> i < 100"
    "\<not> is_split \<longrightarrow> (\<forall>i \<in> set is. \<forall>sg. read_segment fw i = OK sg \<longrightarrow> whole fw (sg_offset sg) (sg_filesz sg))"
    "mem_size = length mem" "length fw + length mem < 2 ^ 32"
    "load_segments request kstrdup fw fw_name is_split mem_reloc mem_size is mem = (r, mem')"
  shows "r \<noteq> UB \<and> length mem' = length mem"
  using assms(3-)
proof (induction "is" arbitrary: mem)
  case (Cons i "is")
  obtain v where v: "mdt_phdr_valid fw i = OK v" using valid_OK [OF assms(2)] Cons.prems(1) by auto
  obtain sg where sg: "read_segment fw i = OK sg" using read_segment_OK [OF assms(2)] Cons.prems(1) by auto
  show ?case
  proof (cases v)
    case True
    obtain q m where qm: "load_segment request kstrdup fw fw_name is_split mem_reloc mem_size i sg mem = (q, m)" by fastforce
    have s: "q \<noteq> UB \<and> length m = length mem"
      using load_segment_safe [OF assms(1) _ sg _ Cons.prems(3,4) qm] Cons.prems(1,2) sg by auto
    show ?thesis
      using Cons.IH [of m] Cons.prems s qm v sg True by (cases q) auto
  next
    case False
    then show ?thesis using Cons v by auto
  qed
qed auto

subsection \<open>What is loaded\<close>

text \<open>The bytes of a segment, from the image or from its file, and the memory it fills.\<close>

definition seg_source :: "fw_request \<Rightarrow> bytes \<Rightarrow> string \<Rightarrow> bool \<Rightarrow> nat \<Rightarrow> segment \<Rightarrow> bytes" where
  "seg_source request fw fw_name is_split i sg =
     (if sg_filesz sg = 0 then []
      else if \<not> is_split then take (sg_filesz sg) (drop (sg_offset sg) fw)
      else case seg_name fw_name i of OK name \<Rightarrow> fst (request name (sg_filesz sg)) | _ \<Rightarrow> [])"

definition seg_image :: "fw_request \<Rightarrow> bytes \<Rightarrow> string \<Rightarrow> bool \<Rightarrow> nat \<Rightarrow> segment \<Rightarrow> bytes" where
  "seg_image request fw fw_name is_split i sg =
     seg_source request fw fw_name is_split i sg @ replicate (sg_memsz sg - sg_filesz sg) 0"

definition seg_place :: "nat \<Rightarrow> segment \<Rightarrow> nat" where
  "seg_place mem_reloc sg = nat (s64_diff (sg_paddr sg) mem_reloc)"

lemma store_append:
  "store m p a = Some m1 \<Longrightarrow> store m1 (p + length a) b = Some m2 \<Longrightarrow> store m p (a @ b) = Some m2"
proof -
  assume s: "store m p a = Some m1" "store m1 (p + length a) b = Some m2"
  have l: "p + (length a + length b) \<le> length m"
    using s(2) store_length [OF s(1)] by (auto simp: store_def split: if_splits)
  then obtain m3 where m3: "store m p (a @ b) = Some m3"
    by (cases "store m p (a @ b)") (auto simp: store_None_iff)
  have "m3 = m2"
    using store_length [OF m3] store_length [OF s(1)] store_length [OF s(2)]
    by (intro nth_equalityI) (auto simp: store_nth [OF m3] store_nth [OF s(1)] store_nth [OF s(2)] nth_append)
  with m3 show ?thesis by simp
qed

lemma store_Nil [simp]: "p \<le> length m \<Longrightarrow> store m p [] = Some m"
  by (simp add: store_def)

lemma split_segment_stores:
  assumes "request_ok request" "p_filesz fw segment = OK filesz"
    "mdt_load_split_segment request kstrdup mem ptr fw segment fw_name = (OK (), mem')"
  shows "\<exists>name. seg_name fw_name segment = OK name \<and> length (fst (request name filesz)) = filesz \<and>
    store mem ptr (fst (request name filesz)) = Some mem'"
proof -
  obtain name where nm: "seg_name fw_name segment = OK name"
    using assms(3) by (cases "seg_name fw_name segment") (auto simp: mdt_load_split_segment_def split: if_splits)
  obtain d q where dq: "request name filesz = (d, q)" by fastforce
  have "q = OK filesz \<and> store mem ptr d = Some mem'"
    using assms(2,3) nm dq
    by (cases q; cases "store mem ptr d") (auto simp: mdt_load_split_segment_def split: if_splits)
  with nm dq assms(1) show ?thesis unfolding request_ok_def by (metis fst_conv snd_conv)
qed

lemma copy_segment_stores:
  assumes "request_ok request" "p_filesz fw i = OK (sg_filesz sg)" "ptr + sg_filesz sg \<le> length mem"
    "copy_segment request kstrdup fw fw_name is_split i sg ptr mem = (OK (), mem')"
  shows "length (seg_source request fw fw_name is_split i sg) = sg_filesz sg \<and>
    store mem ptr (seg_source request fw fw_name is_split i sg) = Some mem'"
proof (cases "sg_filesz sg \<noteq> 0 \<and> is_split")
  case True
  then show ?thesis
    using split_segment_stores [OF assms(1,2), of kstrdup mem ptr fw_name mem'] assms(4)
    by (auto simp: copy_segment_def seg_source_def)
next
  case False
  show ?thesis
  proof (cases "sg_filesz sg = 0")
    case True
    then show ?thesis using assms(3,4) by (simp add: copy_segment_def seg_source_def)
  next
    case nz: False
    with False assms(4) obtain d where "load fw (sg_offset sg) (sg_filesz sg) = Some d" "store mem ptr d = Some mem'"
      by (auto simp: copy_segment_def split: if_splits option.splits)
    with nz False show ?thesis by (auto simp: seg_source_def load_def split: if_splits)
  qed
qed

lemma load_segment_stores:
  assumes "request_ok request" "read_segment fw i = OK sg" "mem_size = length mem"
    "load_segment request kstrdup fw fw_name is_split mem_reloc mem_size i sg mem = (OK (), mem')"
  shows "length (seg_image request fw fw_name is_split i sg) = sg_memsz sg \<and>
    store mem (seg_place mem_reloc sg) (seg_image request fw fw_name is_split i sg) = Some mem'"
proof -
  let ?p = "seg_place mem_reloc sg" and ?z = "replicate (sg_memsz sg - sg_filesz sg) 0"
  have g: "?p + sg_memsz sg \<le> length mem" "sg_filesz sg \<le> sg_memsz sg"
    using assms(3,4) by (auto simp: load_segment_def seg_place_def Let_def split: if_splits)
  obtain m where m: "copy_segment request kstrdup fw fw_name is_split i sg ?p mem = (OK (), m)"
      and z: "store m (?p + sg_filesz sg) ?z = Some mem' \<or> sg_memsz sg = sg_filesz sg \<and> m = mem'"
    using assms(4) g
    by (cases "copy_segment request kstrdup fw fw_name is_split i sg ?p mem"; cases "fst (copy_segment request kstrdup fw fw_name is_split i sg ?p mem)")
      (auto simp: load_segment_def seg_place_def Let_def split: if_splits option.splits)
  have c: "length (seg_source request fw fw_name is_split i sg) = sg_filesz sg"
      "store mem ?p (seg_source request fw fw_name is_split i sg) = Some m"
    using copy_segment_stores [OF assms(1) read_segment_fields(3) [OF assms(2)] _ m] g by auto
  have "store m (?p + sg_filesz sg) ?z = Some mem'"
    using z store_length [OF c(2)] g by auto
  then show ?thesis
    using store_append [OF c(2), of ?z mem'] c(1) g by (simp add: seg_image_def)
qed

lemma load_segments_frame:
  assumes "request_ok request" "mem_size = length mem"
    "load_segments request kstrdup fw fw_name is_split mem_reloc mem_size is mem = (OK (), mem')"
    "\<forall>i \<in> set is. \<forall>sg. seg_at fw i sg \<longrightarrow> q + k \<le> seg_place mem_reloc sg \<or> seg_place mem_reloc sg + sg_memsz sg \<le> q"
  shows "load mem' q k = load mem q k \<and> length mem' = length mem"
  using assms(2-)
proof (induction "is" arbitrary: mem)
  case (Cons i "is")
  show ?case
  proof (cases "\<exists>sg. seg_at fw i sg")
    case True
    then obtain sg where sg: "mdt_phdr_valid fw i = OK True" "read_segment fw i = OK sg" by (auto simp: seg_at_def)
    then obtain m where m: "load_segment request kstrdup fw fw_name is_split mem_reloc mem_size i sg mem = (OK (), m)"
        and r: "load_segments request kstrdup fw fw_name is_split mem_reloc mem_size is m = (OK (), mem')"
      using Cons.prems(2)
      by (cases "load_segment request kstrdup fw fw_name is_split mem_reloc mem_size i sg mem"; cases "fst (load_segment request kstrdup fw fw_name is_split mem_reloc mem_size i sg mem)") auto
    note s = load_segment_stores [OF assms(1) sg(2) Cons.prems(1) m]
    have "load m q k = load mem q k"
      using load_store_other [OF conjunct2 [OF s], of q k] conjunct1 [OF s] Cons.prems(3) sg by (auto simp: seg_at_def)
    with Cons.IH [OF _ r] Cons.prems(1,3) store_length [OF conjunct2 [OF s]] show ?thesis by simp
  next
    case False
    then have "load_segments request kstrdup fw fw_name is_split mem_reloc mem_size is mem = (OK (), mem')"
      using Cons.prems(2) by (cases "mdt_phdr_valid fw i"; cases "read_segment fw i") (auto simp: seg_at_def split: if_splits)
    with Cons show ?thesis by simp
  qed
qed simp

definition segs_apart :: "bytes \<Rightarrow> nat \<Rightarrow> nat list \<Rightarrow> bool" where
  "segs_apart fw mem_reloc is \<longleftrightarrow>
     (\<forall>i \<in> set is. \<forall>j \<in> set is. \<forall>sg sg'. i \<noteq> j \<longrightarrow> seg_at fw i sg \<longrightarrow> seg_at fw j sg' \<longrightarrow>
        seg_place mem_reloc sg + sg_memsz sg \<le> seg_place mem_reloc sg' \<or> seg_place mem_reloc sg' + sg_memsz sg' \<le> seg_place mem_reloc sg)"

lemma load_segments_places:
  assumes "request_ok request" "mem_size = length mem" "distinct is" "segs_apart fw mem_reloc is"
    "load_segments request kstrdup fw fw_name is_split mem_reloc mem_size is mem = (OK (), mem')"
    "i \<in> set is" "seg_at fw i sg"
  shows "load mem' (seg_place mem_reloc sg) (sg_memsz sg) = Some (seg_image request fw fw_name is_split i sg)"
  using assms(2-6)
proof (induction "is" arbitrary: mem)
  case (Cons j "is")
  have apart: "segs_apart fw mem_reloc is" using Cons.prems(3) by (auto simp: segs_apart_def)
  obtain m where r: "load_segments request kstrdup fw fw_name is_split mem_reloc mem_size is m = (OK (), mem')" "length m = length mem"
      and m: "\<forall>sg. seg_at fw j sg \<longrightarrow> load_segment request kstrdup fw fw_name is_split mem_reloc mem_size j sg mem = (OK (), m)"
  proof (cases "\<exists>sg. seg_at fw j sg")
    case True
    then obtain sj where sj: "mdt_phdr_valid fw j = OK True" "read_segment fw j = OK sj" by (auto simp: seg_at_def)
    then obtain m where m: "load_segment request kstrdup fw fw_name is_split mem_reloc mem_size j sj mem = (OK (), m)"
        and r: "load_segments request kstrdup fw fw_name is_split mem_reloc mem_size is m = (OK (), mem')"
      using Cons.prems(4)
      by (cases "load_segment request kstrdup fw fw_name is_split mem_reloc mem_size j sj mem"; cases "fst (load_segment request kstrdup fw fw_name is_split mem_reloc mem_size j sj mem)") auto
    with that sj store_length [OF conjunct2 [OF load_segment_stores [OF assms(1) sj(2) Cons.prems(1) m]]] show ?thesis
      by (auto simp: seg_at_def)
  next
    case False
    then have "load_segments request kstrdup fw fw_name is_split mem_reloc mem_size is mem = (OK (), mem')"
      using Cons.prems(4) by (cases "mdt_phdr_valid fw j"; cases "read_segment fw j") (auto simp: seg_at_def split: if_splits)
    with that False show ?thesis by blast
  qed
  show ?case
  proof (cases "i = j")
    case True
    note s = load_segment_stores [OF assms(1) _ Cons.prems(1), of fw j sg kstrdup fw_name is_split mem_reloc m]
    have st: "length (seg_image request fw fw_name is_split i sg) = sg_memsz sg"
        "store mem (seg_place mem_reloc sg) (seg_image request fw fw_name is_split i sg) = Some m"
      using s m True assms(7) by (auto simp: seg_at_def)
    have "load mem' (seg_place mem_reloc sg) (sg_memsz sg) = load m (seg_place mem_reloc sg) (sg_memsz sg)"
    proof -
      have "\<forall>a \<in> set is. \<forall>sg'. seg_at fw a sg' \<longrightarrow>
          seg_place mem_reloc sg + sg_memsz sg \<le> seg_place mem_reloc sg' \<or> seg_place mem_reloc sg' + sg_memsz sg' \<le> seg_place mem_reloc sg"
      proof (intro ballI allI impI)
        fix a sg' assume a: "a \<in> set is" "seg_at fw a sg'"
        then have "j \<noteq> a" using Cons.prems(2) by auto
        with a Cons.prems(3) True assms(7) show "seg_place mem_reloc sg + sg_memsz sg \<le> seg_place mem_reloc sg' \<or> seg_place mem_reloc sg' + sg_memsz sg' \<le> seg_place mem_reloc sg"
          unfolding segs_apart_def by (meson list.set_intros)
      qed
      from load_segments_frame [OF assms(1) _ r(1) this] r(2) Cons.prems(1) show ?thesis by simp
    qed
    with bm.ld_st_same [OF st(2)] st(1) show ?thesis by simp
  next
    case False
    with Cons.IH [OF _ _ apart r(1)] r(2) Cons.prems show ?thesis by simp
  qed
qed simp

end
