(* ===== verification/Mdt_Props.thy ===== *)
theory Mdt_Props
  imports Mdt_Load
begin

text \<open>
  The properties of the image loader: safe on any headers, segments at their places, a computed size
  that is enough, and a copy past the end of the file when reading the metadata.
\<close>

subsection \<open>The size of an image\<close>

lemma round_4096: "x \<le> (x + 4095) div 4096 * (4096 :: nat)"
  using div_mult_mod_eq [of "x + 4095" 4096] mod_less_divisor [of 4096 "x + 4095"] by linarith

lemma ALIGN_u32_4096:
  assumes "x + 4095 < 2 ^ 32" shows "x \<le> ALIGN_u32 x 4096"
proof -
  define y where "y = x + 4095"
  let ?w = "of_nat y :: 32 word"
  have y: "y < 2 ^ 32" using assms by (simp add: y_def)
  have w: "of_nat x + (of_nat 4096 - 1) = ?w" by (simp add: y_def)
  have k: "(of_nat 4096 - 1 :: 32 word) = mask 12" by (simp add: mask_eq_exp_minus_1)
  have a: "?w AND NOT (mask 12) = push_bit 12 (drop_bit 12 ?w)"
    by (rule bit_word_eqI) (auto simp: bit_simps)
  have tb: "take_bit 32 y = y" using y by (rule take_bit_nat_eq_self)
  have u: "unat ?w = y" using y by (simp add: unat_of_nat)
  have "unat (push_bit 12 (drop_bit 12 ?w)) = take_bit 32 (push_bit 12 (drop_bit 12 (unat ?w)))"
    by (simp only: unsigned_push_bit_eq unsigned_drop_bit_eq) (simp add: u tb)
  also have "\<dots> = y div 4096 * 4096"
    unfolding u push_bit_eq_mult drop_bit_eq_div
    using le_less_trans [OF div_times_less_eq_dividend y, of 4096] by (simp add: take_bit_nat_eq_self)
  finally have "ALIGN_u32 x 4096 = y div 4096 * 4096"
    unfolding ALIGN_u32_def w unfolding k a .
  then show ?thesis using round_4096 [of x] by (simp add: y_def)
qed

lemma s64_diff_le:
  assumes "b \<le> a" "a < 2 ^ 32" shows "s64_diff a b = int (a - b)"
proof -
  have "(of_nat a - of_nat b :: 64 word) = of_nat (a - b)" using assms(1) by (simp add: of_nat_diff)
  moreover have "sint (of_nat (a - b) :: 64 word) = int (a - b)"
    using assms(2) by (simp add: signed_of_nat signed_take_bit_int_eq_self)
  ultimately show ?thesis by (simp add: s64_diff_def)
qed

definition no_wrap :: "bytes \<Rightarrow> nat \<Rightarrow> bool" where
  "no_wrap fw i \<longleftrightarrow> (\<forall>sg. seg_at fw i sg \<longrightarrow> sg_paddr sg + sg_memsz sg + 4095 < 2 ^ 32)"

lemma addr_range_bounds:
  assumes "hdr_ok fw n"
    "addr_range fw is (mn, mx, rl) = OK (mn', mx', rl')" "\<forall>i \<in> set is. i < n \<and> no_wrap fw i"
  shows "mn' \<le> mn \<and> mx \<le> mx' \<and>
    (\<forall>i \<in> set is. \<forall>sg. seg_at fw i sg \<longrightarrow> mn' \<le> sg_paddr sg \<and> sg_paddr sg + sg_memsz sg \<le> mx')"
  using assms(2-)
proof (induction "is" arbitrary: mn mx rl)
  case (Cons i "is")
  obtain v where v: "mdt_phdr_valid fw i = OK v" using Cons.prems(1) by auto
  show ?case
  proof (cases v)
    case False
    with v Cons show ?thesis by (auto simp: seg_at_def)
  next
    case True
    obtain sg where sg: "read_segment fw i = OK sg" using read_segment_OK [OF assms(1)] Cons.prems(2) by auto
    then have at: "seg_at fw i sg'  \<longleftrightarrow> sg' = sg" for sg' using v True by (auto simp: seg_at_def)
    let ?e = "sg_paddr sg + sg_memsz sg"
    have w: "?e + 4095 < 2 ^ 32" using Cons.prems(2) at by (auto simp: no_wrap_def)
    then have e: "u32 ?e = ?e" by simp
    obtain f where r: "addr_range fw is (if sg_paddr sg < mn then sg_paddr sg else mn, if u32 ?e > mx then ALIGN_u32 (u32 ?e) 4096 else mx, f) = OK (mn', mx', rl')"
      using v True Cons.prems(1) read_segment_fields(1,4) [OF sg] by auto
    show ?thesis
      using Cons.IH [OF r [unfolded e]] Cons.prems(2) ALIGN_u32_4096 [OF w] at by (auto split: if_splits)
  qed
qed simp

lemma load_segment_fits:
  assumes "read_segment fw i = OK sg" "whole fw (sg_offset sg) (sg_filesz sg)" "sg_filesz sg \<le> sg_memsz sg"
    "mem_reloc \<le> sg_paddr sg" "sg_paddr sg + sg_memsz sg \<le> mem_reloc + mem_size" "mem_size = length mem" "length fw + length mem < 2 ^ 32"
  shows "\<exists>mem'. load_segment request kstrdup fw fw_name False mem_reloc mem_size i sg mem = (OK (), mem') \<and> length mem' = length mem"
proof -
  have d: "s64_diff (sg_paddr sg) mem_reloc = int (sg_paddr sg - mem_reloc)"
    using s64_diff_le [OF assms(4)] read_segment_fields(5) [OF assms(1)] by simp
  have fit: "sg_paddr sg - mem_reloc + sg_memsz sg \<le> length mem" using assms(4-6) by simp
  obtain q m where qm: "copy_segment request kstrdup fw fw_name False i sg (sg_paddr sg - mem_reloc) mem = (q, m)" by fastforce
  have "q = OK () \<and> length m = length mem"
  proof (cases "sg_filesz sg = 0")
    case False
    then have le: "sg_offset sg \<le> length fw" "u32 (sg_offset sg + sg_filesz sg) \<le> length fw" using assms(2) by (auto simp: whole_def)
    have "sg_offset sg + sg_filesz sg < 2 ^ 32" using le(1) assms(3,7) fit by simp
    then have "sg_offset sg + sg_filesz sg \<le> length fw" using le(2) by simp
    then obtain d where d: "load fw (sg_offset sg) (sg_filesz sg) = Some d" "length d = sg_filesz sg"
      by (cases "load fw (sg_offset sg) (sg_filesz sg)") (auto simp: load_None_iff load_nth)
    then obtain m' where "store mem (sg_paddr sg - mem_reloc) d = Some m'" "length m' = length mem"
      using fit assms(3) by (cases "store mem (sg_paddr sg - mem_reloc) d") (auto simp: store_None_iff dest: store_length)
    with d le False qm show ?thesis by (auto simp: copy_segment_def)
  qed (use qm in \<open>auto simp: copy_segment_def\<close>)
  then show ?thesis
    using qm d fit assms(3,6)
    by (cases "store m (sg_paddr sg - mem_reloc + sg_filesz sg) (replicate (sg_memsz sg - sg_filesz sg) 0)")
      (auto simp: load_segment_def Let_def store_None_iff dest: store_length)
qed

lemma load_segments_fit:
  assumes "hdr_ok fw n" "\<forall>i \<in> set is. i < n"
    "\<forall>i \<in> set is. \<forall>sg. seg_at fw i sg \<longrightarrow> whole fw (sg_offset sg) (sg_filesz sg) \<and> sg_filesz sg \<le> sg_memsz sg \<and>
       mem_reloc \<le> sg_paddr sg \<and> sg_paddr sg + sg_memsz sg \<le> mem_reloc + mem_size"
    "mem_size = length mem" "length fw + length mem < 2 ^ 32"
  shows "\<exists>mem'. load_segments request kstrdup fw fw_name False mem_reloc mem_size is mem = (OK (), mem') \<and> length mem' = length mem"
  using assms(2-)
proof (induction "is" arbitrary: mem)
  case (Cons i "is")
  obtain v where v: "mdt_phdr_valid fw i = OK v" using valid_OK [OF assms(1)] Cons.prems(1) by auto
  obtain sg where sg: "read_segment fw i = OK sg" using read_segment_OK [OF assms(1)] Cons.prems(1) by auto
  show ?case
  proof (cases v)
    case True
    then have "seg_at fw i sg" using v sg by (simp add: seg_at_def)
    then obtain m where m: "load_segment request kstrdup fw fw_name False mem_reloc mem_size i sg mem = (OK (), m)" "length m = length mem"
      using load_segment_fits [OF sg _ _ _ _ Cons.prems(3,4), of mem_reloc request kstrdup fw_name] Cons.prems(2) by auto
    with Cons.IH [of m] Cons.prems v sg True show ?thesis by auto
  qed (use Cons v in auto)
qed simp

subsection \<open>Properties\<close>

definition demo_image :: bytes where
  "demo_image = replicate 44 0 @ [1, 0] @ replicate 6 0 @
     le_bytes 4 1 @ le_bytes 4 84 @ le_bytes 4 0 @ le_bytes 4 0x8000 @ le_bytes 4 2 @ le_bytes 4 4 @ le_bytes 4 0x8000000 @ le_bytes 4 0 @
     [7, 9]"

definition demo_request :: fw_request where
  "demo_request name n = ([], Err ENOENT)"

definition demo_segment :: segment where
  "demo_segment = \<lparr>sg_paddr = 0x8000, sg_offset = 84, sg_filesz = 2, sg_memsz = 4\<rparr>"

lemma demo_fields:
  "e_phnum demo_image = OK 1" "p_type demo_image 0 = OK 1" "p_offset demo_image 0 = OK 84" "p_paddr demo_image 0 = OK 0x8000"
  "p_filesz demo_image 0 = OK 2" "p_memsz demo_image 0 = OK 4" "p_flags demo_image 0 = OK 0x8000000" "length demo_image = 86"
  by (simp_all add: demo_image_def e_phnum_def phdr_field_def EHDR_SIZE_def num_def load_def)

lemma demo_valid: "mdt_phdr_valid demo_image 0 = OK True"
  by (simp add: mdt_phdr_valid_def demo_fields PT_LOAD_def QCOM_MDT_TYPE_MASK_def QCOM_MDT_TYPE_HASH_def)

lemma demo_image_facts:
  "hdr_ok demo_image 1" "length demo_image = 86" "request_ok demo_request" "image_range demo_image = OK (0x8000, 0x9000, True)"
  "qcom_mdt_bins_are_split demo_image = OK False" "qcom_mdt_get_size demo_image = OK 4096" "e_phnum demo_image = OK 1"
  "seg_at demo_image 0 demo_segment"
proof -
  show "e_phnum demo_image = OK 1" "length demo_image = 86" by (simp_all add: demo_fields)
  show "hdr_ok demo_image 1" by (simp add: hdr_ok_def demo_fields EHDR_SIZE_def ELF_PHDR_SIZE_def)
  show "request_ok demo_request" by (simp add: request_ok_def demo_request_def)
  have "ALIGN_u32 32772 4096 = 36864" by (simp add: ALIGN_u32_def)
  then show i: "image_range demo_image = OK (0x8000, 0x9000, True)"
    by (simp add: image_range_def demo_fields demo_valid PHYS_ADDR_MAX_def QCOM_MDT_RELOCATABLE_def)
  show "qcom_mdt_bins_are_split demo_image = OK False" by (simp add: qcom_mdt_bins_are_split_def demo_fields)
  show "qcom_mdt_get_size demo_image = OK 4096" by (simp add: qcom_mdt_get_size_def i)
  show "seg_at demo_image 0 demo_segment" by (simp add: seg_at_def demo_valid read_segment_def demo_fields demo_segment_def)
qed

lemma demo_segs: "seg_at demo_image 0 sg \<Longrightarrow> sg = demo_segment"
  using demo_image_facts(8) by (simp add: seg_at_def)

text \<open>
  C7. Loading is memory safe whatever the program headers say: for an image that has room for the
  headers it announces, at most 100 of them, and a region that together with the image is below 4 GiB,
  nothing is read outside the image or written outside the region, split or not.
\<close>

theorem mdt_load_safe:
  assumes "request_ok request" "hdr_ok fw n" "n \<le> 100" "length fw + length mem < 2 ^ 32"
    "do_qcom_mdt_load request kstrdup (Some fw) fw_name (Some mem) mem_phys (length mem) = (r, m, base)"
  shows "r \<noteq> UB \<and> (\<exists>mem'. m = Some mem' \<and> length mem' = length mem)"
proof (cases "mem_phys = 0 \<or> length mem = 0")
  case False
  obtain mn mx rl where rng: "image_range fw = OK (mn, mx, rl)" using image_range_OK [OF assms(2)] by (metis prod_cases3)
  have n: "e_phnum fw = OK n" using assms(2) by (simp add: hdr_ok_def)
  obtain b where b: "bins_split fw [0..<n] = OK b"
      and w: "\<not> b \<longleftrightarrow> (\<forall>i \<in> set [0..<n]. \<forall>offset filesz. p_offset fw i = OK offset \<longrightarrow> p_filesz fw i = OK filesz \<longrightarrow> whole fw offset filesz)"
    using bins_split_OK [OF assms(2), of "[0..<n]"] by auto
  obtain q m' where qm: "load_segments request kstrdup fw fw_name b (if rl then mn else mem_phys) (length mem) [0..<n] mem = (q, m')" by fastforce
  have "q \<noteq> UB \<and> length m' = length mem"
    by (rule load_segments_safe [OF assms(1,2) _ _ refl assms(4) qm]) (use assms(3) w read_segment_fields(2,3) in auto)
  with assms(5) False rng n b qm show ?thesis
    by (auto simp: do_qcom_mdt_load_def qcom_mdt_bins_are_split_def Let_def)
qed (use assms(5) in \<open>auto simp: do_qcom_mdt_load_def\<close>)

theorem mdt_load_safe_witness:
  "fst (do_qcom_mdt_load demo_request (\<lambda>_. True) (Some demo_image) ''adsp.mdt'' (Some (replicate 4096 0)) 0x80000000 4096) \<noteq> UB"
proof -
  obtain r m base where d: "do_qcom_mdt_load demo_request (\<lambda>_. True) (Some demo_image) ''adsp.mdt'' (Some (replicate 4096 0)) 0x80000000 4096 = (r, m, base)"
    by (rule prod_cases3)
  show ?thesis
    using mdt_load_safe [OF demo_image_facts(3,1), where mem = "replicate 4096 0" and kstrdup = "\<lambda>_. True" and fw_name = "''adsp.mdt''" and mem_phys = "0x80000000" and r = r and m = m and base = base] d demo_image_facts(2) by simp
qed

text \<open>
  C18. When loading succeeds and the segments do not overlap, the memory of every loadable segment holds
  its bytes, from the image or from its own file, followed by zeros.
\<close>

theorem mdt_load_places:
  assumes "request_ok request" "e_phnum fw = OK n" "qcom_mdt_bins_are_split fw = OK is_split"
    "do_qcom_mdt_load request kstrdup (Some fw) fw_name (Some mem) mem_phys (length mem) = (OK (), Some mem', Some base)"
    "segs_apart fw base [0..<n]" "i < n" "seg_at fw i sg"
  shows "load mem' (seg_place base sg) (sg_memsz sg) = Some (seg_image request fw fw_name is_split i sg)"
proof -
  have "load_segments request kstrdup fw fw_name is_split base (length mem) [0..<n] mem = (OK (), mem')"
    using assms(2,3,4)
    by (cases "image_range fw") (auto simp: do_qcom_mdt_load_def Let_def split: if_splits prod.splits)
  from load_segments_places [OF assms(1) refl _ assms(5) this _ assms(7)] assms(6) show ?thesis by simp
qed

text \<open>
  C27. A region of the computed size is enough: a relocatable image that is not split, whose segments
  end below 4 GiB and have no more bytes in the file than in memory, is loaded without error into any
  region of the size that \<^verbatim>\<open>qcom_mdt_get_size\<close> returns.
\<close>

theorem mdt_size_suffices:
  assumes "hdr_ok fw n" "image_range fw = OK (mn, mx, True)" "qcom_mdt_get_size fw = OK (length mem)"
    "qcom_mdt_bins_are_split fw = OK False" "\<forall>i < n. no_wrap fw i" "\<forall>i < n. \<forall>sg. seg_at fw i sg \<longrightarrow> sg_filesz sg \<le> sg_memsz sg"
    "length fw + length mem < 2 ^ 32" "mem_phys \<noteq> 0"
  shows "\<exists>mem'. do_qcom_mdt_load request kstrdup (Some fw) fw_name (Some mem) mem_phys (length mem) = (OK (), Some mem', Some mn)"
proof -
  have n: "e_phnum fw = OK n" using assms(1) by (simp add: hdr_ok_def)
  have sz: "mn < mx" "length mem = mx - mn" using assms(2,3) by (auto simp: qcom_mdt_get_size_def split: if_splits)
  have bnd: "mn \<le> sg_paddr sg \<and> sg_paddr sg + sg_memsz sg \<le> mx" if "i < n" "seg_at fw i sg" for i sg
    using addr_range_bounds [OF assms(1), of "[0..<n]"] assms(2,5) n that by (auto simp: image_range_def)
  have wh: "whole fw (sg_offset sg) (sg_filesz sg)" if "i < n" "seg_at fw i sg" for i sg
    using bins_split_OK [OF assms(1), of "[0..<n]"] assms(4) n that read_segment_fields(2,3) [of fw i sg]
    by (auto simp: qcom_mdt_bins_are_split_def seg_at_def)
  obtain mem' where "load_segments request kstrdup fw fw_name False mn (length mem) [0..<n] mem = (OK (), mem')"
    using load_segments_fit [OF assms(1), of "[0..<n]" mn "length mem" mem request kstrdup fw_name] bnd wh assms(6,7) sz by auto
  with assms(2,4,8) n sz show ?thesis by (auto simp: do_qcom_mdt_load_def Let_def)
qed

lemma demo_fits: "\<forall>i < 1. no_wrap demo_image i" "\<forall>i < 1. \<forall>sg. seg_at demo_image i sg \<longrightarrow> sg_filesz sg \<le> sg_memsz sg"
  by (auto simp: no_wrap_def dest!: demo_segs) (simp_all add: demo_segment_def)

theorem mdt_size_suffices_witness:
  "\<exists>mem'. do_qcom_mdt_load demo_request (\<lambda>_. True) (Some demo_image) ''adsp.mdt'' (Some (replicate 4096 1)) 0x80000000 4096 = (OK (), Some mem', Some 0x8000)"
  using mdt_size_suffices [OF demo_image_facts(1,4), where mem = "replicate 4096 1" and mem_phys = "0x80000000" and request = demo_request and kstrdup = "\<lambda>_. True" and fw_name = "''adsp.mdt''"]
    demo_image_facts demo_fits by simp

lemma demo_loaded:
  obtains mem' where "do_qcom_mdt_load demo_request (\<lambda>_. True) (Some demo_image) ''adsp.mdt'' (Some (replicate 4096 1)) 0x80000000 (length (replicate 4096 (1 :: byte))) = (OK (), Some mem', Some 0x8000)"
proof -
  have s: "\<forall>i \<in> set [0..<1]. \<forall>sg. seg_at demo_image i sg \<longrightarrow> whole demo_image (sg_offset sg) (sg_filesz sg) \<and> sg_filesz sg \<le> sg_memsz sg \<and>
      0x8000 \<le> sg_paddr sg \<and> sg_paddr sg + sg_memsz sg \<le> 0x8000 + 4096"
    by (auto dest!: demo_segs) (simp_all add: demo_segment_def whole_def demo_image_facts(2))
  obtain m where "load_segments demo_request (\<lambda>_. True) demo_image ''adsp.mdt'' False 0x8000 4096 [0..<1] (replicate 4096 1) = (OK (), m)"
    using load_segments_fit [OF demo_image_facts(1) _ s, of "replicate 4096 1" demo_request "\<lambda>_. True" "''adsp.mdt''"]
    unfolding demo_image_facts(2) by (auto simp del: upt_Suc load_segments.simps)
  with that demo_image_facts show ?thesis by (simp add: do_qcom_mdt_load_def)
qed

theorem mdt_load_places_witness:
  "\<exists>mem'. load mem' 0 4 = Some [7, 9, 0, 0] \<and>
     do_qcom_mdt_load demo_request (\<lambda>_. True) (Some demo_image) ''adsp.mdt'' (Some (replicate 4096 1)) 0x80000000 4096 = (OK (), Some mem', Some 0x8000)"
proof -
  obtain mem' where d: "do_qcom_mdt_load demo_request (\<lambda>_. True) (Some demo_image) ''adsp.mdt'' (Some (replicate 4096 1)) 0x80000000 (length (replicate 4096 (1 :: byte))) = (OK (), Some mem', Some 0x8000)"
    by (rule demo_loaded)
  have "segs_apart demo_image 0x8000 [0..<1]" by (simp add: segs_apart_def)
  from mdt_load_places [OF demo_image_facts(3,7,5) d this _ demo_image_facts(8)]
  have "load mem' (seg_place 0x8000 demo_segment) (sg_memsz demo_segment) = Some (seg_image demo_request demo_image ''adsp.mdt'' False 0 demo_segment)" by simp
  moreover have "seg_place 0x8000 demo_segment = 0" by (simp add: seg_place_def demo_segment_def s64_diff_le)
  moreover have "seg_image demo_request demo_image ''adsp.mdt'' False 0 demo_segment = [7, 9, 0, 0]"
    by (simp add: seg_image_def seg_source_def demo_segment_def demo_image_def replicate_numeral)
  moreover have "sg_memsz demo_segment = 4" by (simp add: demo_segment_def)
  ultimately show ?thesis using d by auto
qed

text \<open>
  C40. The size of the headers is not compared with the size of the file: when the first program header
  claims more bytes than the image has, reading the metadata copies from beyond its end.
\<close>

theorem mdt_metadata_overread:
  assumes "hdr_ok fw n" "2 \<le> n" "p_type fw 0 = OK t" "t \<noteq> PT_LOAD" "find_hash fw [1..<n] = OK k" "k \<noteq> 0" "k < n"
    "p_filesz fw 0 = OK sz" "length fw < sz"
  shows "qcom_mdt_read_metadata request True kstrdup fw_name fw = UB"
proof -
  have n: "e_phnum fw = OK n" "EHDR_SIZE + ELF_PHDR_SIZE * n \<le> length fw" using assms(1) by (auto simp: hdr_ok_def)
  have "n \<le> PN_XNUM" using n(1) num_OK [of 44 2 fw] num_None_iff [of fw 44 2] by (auto simp: e_phnum_def PN_XNUM_def not_less [symmetric])
  moreover obtain h where "p_filesz fw k = OK h" by (rule fields_OK [OF assms(1,7)])
  moreover have "load fw 0 sz = None" using assms(9) by (simp add: load_None_iff)
  ultimately show ?thesis
    using assms n by (simp add: qcom_mdt_read_metadata_def)
qed

definition demo_overread :: bytes where
  "demo_overread = replicate 44 0 @ [2, 0] @ replicate 6 0 @
     replicate 16 0 @ le_bytes 4 1000 @ replicate 12 0 @ replicate 24 0 @ le_bytes 4 0x2000000 @ replicate 4 0"

theorem mdt_metadata_overread_witness:
  "qcom_mdt_read_metadata demo_request True (\<lambda>_. True) ''adsp.mdt'' demo_overread = UB"
proof -
  have l: "length demo_overread = 116" by (simp add: demo_overread_def)
  have f: "p_type demo_overread 0 = OK 0" "find_hash demo_overread [1..<2] = OK 1" "p_filesz demo_overread 0 = OK 1000"
    "e_phnum demo_overread = OK 2" by (simp_all add: demo_overread_def e_phnum_def phdr_field_def EHDR_SIZE_def ELF_PHDR_SIZE_def num_def load_def
        QCOM_MDT_TYPE_MASK_def QCOM_MDT_TYPE_HASH_def upt_rec replicate_numeral)
  have h: "hdr_ok demo_overread 2" by (simp add: hdr_ok_def f l EHDR_SIZE_def ELF_PHDR_SIZE_def)
  show ?thesis
    using mdt_metadata_overread [OF h _ f(1) _ f(2) _ _ f(3), where request = demo_request and kstrdup = "\<lambda>_. True" and fw_name = "''adsp.mdt''"] l by (simp add: PT_LOAD_def)
qed

end
