(* ===== verification/Rpmh_Data.thy ===== *)
theory Rpmh_Data
  imports Cmd_Db
begin

text \<open>
  The data of the RPMh driver (\<^verbatim>\<open>rpmh-internal.h\<close> and the register tables of
  \<^verbatim>\<open>rpmh-rsc.c\<close>). Registers are 32-bit words; the two register windows of a controller are
  functions from offsets to words. Arrays indexed by an enumeration are functions.
\<close>

subsection \<open>Outcomes of blocking calls\<close>

text \<open>A call returns, stops the kernel with \<^verbatim>\<open>BUG_ON\<close>, or is still waiting.\<close>

datatype 'a outcome = Returns 'a | Bug | Waits

fun obind :: "'a outcome \<Rightarrow> ('a \<Rightarrow> 'b outcome) \<Rightarrow> 'b outcome" where
  "obind (Returns x) f = f x"
| "obind Bug f = Bug"
| "obind Waits f = Waits"

lemma obind_Returns_iff [simp]: "obind m f = Returns y \<longleftrightarrow> (\<exists>x. m = Returns x \<and> f x = Returns y)"
  by (cases m) auto

subsection \<open>Requests\<close>

datatype rpmh_state = RPMH_SLEEP_STATE | RPMH_WAKE_ONLY_STATE | RPMH_ACTIVE_ONLY_STATE

datatype tcs_type = SLEEP_TCS | WAKE_TCS | ACTIVE_TCS | CONTROL_TCS | FAST_PATH_TCS

record tcs_cmd =
  cmd_addr :: u32w
  cmd_data :: u32w
  cmd_wait :: u32w

text \<open>A request; \<open>rq_compl\<close> names the completion of the enclosing \<^verbatim>\<open>struct rpmh_request\<close>.\<close>

record tcs_request =
  rq_state :: rpmh_state
  rq_wait_for_compl :: bool
  rq_cmds :: "tcs_cmd list"
  rq_compl :: "nat option"

definition zero_request :: tcs_request where
  "zero_request = \<lparr>rq_state = RPMH_SLEEP_STATE, rq_wait_for_compl = False, rq_cmds = [], rq_compl = None\<rparr>"

subsection \<open>Controllers\<close>

definition MAX_CHANNEL :: nat where "MAX_CHANNEL = 2"
definition MAX_TCS_PER_TYPE :: nat where "MAX_TCS_PER_TYPE = 3"
definition SOLVER_PRESENT :: u32w where "SOLVER_PRESENT = 1"
definition HW_CHANNEL_PRESENT :: u32w where "HW_CHANNEL_PRESENT = 2"
definition CMD_DB_MAX_RESOURCES :: nat where "CMD_DB_MAX_RESOURCES = 250"

record cache_req =
  cr_addr :: u32w
  cr_sleep :: u32w
  cr_wake :: u32w

record tcs_group =
  tg_present :: bool
  tg_type :: tcs_type
  tg_mask :: u32w
  tg_offset :: nat
  tg_num_tcs :: nat
  tg_ncpt :: nat
  tg_req :: "nat \<Rightarrow> tcs_request option"
  tg_slots :: "nat \<Rightarrow> bool"

record drv_channel =
  ch_tcs :: "tcs_type \<Rightarrow> tcs_group"
  ch_initialized :: bool

text \<open>The cache keeps the entries below \<^verbatim>\<open>non_batch_cache_idx\<close>.\<close>

record rpmh_ctrlr =
  ct_dirty :: bool
  ct_in_solver_mode :: bool
  ct_flags :: u32w
  ct_batch :: "rpmh_state \<Rightarrow> tcs_request"
  ct_cache :: "cache_req list"

datatype rsc_reg =
    RSC_DRV_TCS_OFFSET | RSC_DRV_CMD_OFFSET | DRV_SOLVER_CONFIG | DRV_PRNT_CHLD_CONFIG
  | RSC_DRV_IRQ_ENABLE | RSC_DRV_IRQ_STATUS | RSC_DRV_IRQ_CLEAR | RSC_DRV_CMD_WAIT_FOR_CMPL
  | RSC_DRV_CONTROL | RSC_DRV_STATUS | RSC_DRV_CMD_ENABLE | RSC_DRV_CMD_MSGID | RSC_DRV_CMD_ADDR
  | RSC_DRV_CMD_DATA | RSC_DRV_CMD_STATUS | RSC_DRV_CMD_RESP_DATA | RSC_DRV_CHN_TCS_TRIGGER
  | RSC_DRV_CHN_TCS_COMPLETE | RSC_DRV_CHN_SEQ_BUSY | RSC_DRV_CHN_SEQ_PC | RSC_DRV_CHN_UPDATE
  | RSC_DRV_CHN_BUSY | RSC_DRV_CHN_EN

record rsc_drv =
  drv_tcs_distance :: nat
  drv_id :: nat
  drv_num_tcs :: nat
  drv_num_channels :: nat
  drv_in_solver_mode :: bool
  drv_cpus_in_pm :: int
  drv_control_tcs :: nat
  drv_ch :: "nat \<Rightarrow> drv_channel"
  drv_in_use :: "nat \<Rightarrow> bool"
  drv_regs :: "rsc_reg \<Rightarrow> nat"
  drv_hw :: "nat \<Rightarrow> u32w"
  drv_base :: "nat \<Rightarrow> u32w"
  drv_client :: rpmh_ctrlr
  drv_done :: "nat list"

subsection \<open>Register tables\<close>

fun rpmh_rsc_reg_offset_ver_2_7 :: "rsc_reg \<Rightarrow> nat" where
  "rpmh_rsc_reg_offset_ver_2_7 RSC_DRV_TCS_OFFSET = 672"
| "rpmh_rsc_reg_offset_ver_2_7 RSC_DRV_CMD_OFFSET = 20"
| "rpmh_rsc_reg_offset_ver_2_7 DRV_SOLVER_CONFIG = 0x04"
| "rpmh_rsc_reg_offset_ver_2_7 DRV_PRNT_CHLD_CONFIG = 0x0C"
| "rpmh_rsc_reg_offset_ver_2_7 RSC_DRV_IRQ_ENABLE = 0x00"
| "rpmh_rsc_reg_offset_ver_2_7 RSC_DRV_IRQ_STATUS = 0x04"
| "rpmh_rsc_reg_offset_ver_2_7 RSC_DRV_IRQ_CLEAR = 0x08"
| "rpmh_rsc_reg_offset_ver_2_7 RSC_DRV_CMD_WAIT_FOR_CMPL = 0x10"
| "rpmh_rsc_reg_offset_ver_2_7 RSC_DRV_CONTROL = 0x14"
| "rpmh_rsc_reg_offset_ver_2_7 RSC_DRV_STATUS = 0x18"
| "rpmh_rsc_reg_offset_ver_2_7 RSC_DRV_CMD_ENABLE = 0x1C"
| "rpmh_rsc_reg_offset_ver_2_7 RSC_DRV_CMD_MSGID = 0x30"
| "rpmh_rsc_reg_offset_ver_2_7 RSC_DRV_CMD_ADDR = 0x34"
| "rpmh_rsc_reg_offset_ver_2_7 RSC_DRV_CMD_DATA = 0x38"
| "rpmh_rsc_reg_offset_ver_2_7 RSC_DRV_CMD_STATUS = 0x3C"
| "rpmh_rsc_reg_offset_ver_2_7 RSC_DRV_CMD_RESP_DATA = 0x40"
| "rpmh_rsc_reg_offset_ver_2_7 _ = 0x0"

fun rpmh_rsc_reg_offset_ver_3_0 :: "rsc_reg \<Rightarrow> nat" where
  "rpmh_rsc_reg_offset_ver_3_0 RSC_DRV_TCS_OFFSET = 672"
| "rpmh_rsc_reg_offset_ver_3_0 RSC_DRV_CMD_OFFSET = 24"
| "rpmh_rsc_reg_offset_ver_3_0 DRV_SOLVER_CONFIG = 0x04"
| "rpmh_rsc_reg_offset_ver_3_0 DRV_PRNT_CHLD_CONFIG = 0x0C"
| "rpmh_rsc_reg_offset_ver_3_0 RSC_DRV_IRQ_ENABLE = 0x00"
| "rpmh_rsc_reg_offset_ver_3_0 RSC_DRV_IRQ_STATUS = 0x04"
| "rpmh_rsc_reg_offset_ver_3_0 RSC_DRV_IRQ_CLEAR = 0x08"
| "rpmh_rsc_reg_offset_ver_3_0 RSC_DRV_CMD_WAIT_FOR_CMPL = 0x20"
| "rpmh_rsc_reg_offset_ver_3_0 RSC_DRV_CONTROL = 0x24"
| "rpmh_rsc_reg_offset_ver_3_0 RSC_DRV_STATUS = 0x28"
| "rpmh_rsc_reg_offset_ver_3_0 RSC_DRV_CMD_ENABLE = 0x2C"
| "rpmh_rsc_reg_offset_ver_3_0 RSC_DRV_CMD_MSGID = 0x34"
| "rpmh_rsc_reg_offset_ver_3_0 RSC_DRV_CMD_ADDR = 0x38"
| "rpmh_rsc_reg_offset_ver_3_0 RSC_DRV_CMD_DATA = 0x3C"
| "rpmh_rsc_reg_offset_ver_3_0 RSC_DRV_CMD_STATUS = 0x40"
| "rpmh_rsc_reg_offset_ver_3_0 RSC_DRV_CMD_RESP_DATA = 0x44"
| "rpmh_rsc_reg_offset_ver_3_0 RSC_DRV_CHN_SEQ_BUSY = 0x464"
| "rpmh_rsc_reg_offset_ver_3_0 RSC_DRV_CHN_SEQ_PC = 0x468"
| "rpmh_rsc_reg_offset_ver_3_0 RSC_DRV_CHN_TCS_TRIGGER = 0x490"
| "rpmh_rsc_reg_offset_ver_3_0 RSC_DRV_CHN_TCS_COMPLETE = 0x494"
| "rpmh_rsc_reg_offset_ver_3_0 RSC_DRV_CHN_UPDATE = 0x498"
| "rpmh_rsc_reg_offset_ver_3_0 RSC_DRV_CHN_BUSY = 0x49C"
| "rpmh_rsc_reg_offset_ver_3_0 RSC_DRV_CHN_EN = 0x4A0"

text \<open>The third table differs from the second in the distance of the command sets only.\<close>

definition rpmh_rsc_reg_offset_ver_3_0_hw_channel :: "rsc_reg \<Rightarrow> nat" where
  "rpmh_rsc_reg_offset_ver_3_0_hw_channel r =
     (if r = RSC_DRV_TCS_OFFSET then 336 else rpmh_rsc_reg_offset_ver_3_0 r)"

subsection \<open>Register access\<close>

definition tcs_stride :: "rsc_drv \<Rightarrow> nat" where
  "tcs_stride drv = (if drv_tcs_distance drv = 0 then drv_regs drv RSC_DRV_TCS_OFFSET else drv_tcs_distance drv)"

definition tcs_reg_addr :: "rsc_drv \<Rightarrow> rsc_reg \<Rightarrow> nat \<Rightarrow> nat" where
  "tcs_reg_addr drv reg tcs_id = tcs_stride drv * tcs_id + drv_regs drv reg"

definition tcs_cmd_addr :: "rsc_drv \<Rightarrow> rsc_reg \<Rightarrow> nat \<Rightarrow> nat \<Rightarrow> nat" where
  "tcs_cmd_addr drv reg tcs_id cmd_id =
     tcs_reg_addr drv reg tcs_id + drv_regs drv RSC_DRV_CMD_OFFSET * cmd_id"

definition read_tcs_cmd :: "rsc_drv \<Rightarrow> rsc_reg \<Rightarrow> nat \<Rightarrow> nat \<Rightarrow> u32w" where
  "read_tcs_cmd drv reg tcs_id cmd_id = drv_hw drv (tcs_cmd_addr drv reg tcs_id cmd_id)"

definition read_tcs_reg :: "rsc_drv \<Rightarrow> rsc_reg \<Rightarrow> nat \<Rightarrow> u32w" where
  "read_tcs_reg drv reg tcs_id = drv_hw drv (tcs_reg_addr drv reg tcs_id)"

definition write_tcs_cmd :: "rsc_drv \<Rightarrow> rsc_reg \<Rightarrow> nat \<Rightarrow> nat \<Rightarrow> u32w \<Rightarrow> rsc_drv" where
  "write_tcs_cmd drv reg tcs_id cmd_id data =
     drv\<lparr>drv_hw := (drv_hw drv)(tcs_cmd_addr drv reg tcs_id cmd_id := data)\<rparr>"

text \<open>
  \<^verbatim>\<open>write_tcs_reg_sync\<close> writes and then polls until the value reads back; the polling
  changes nothing, so both writes are the same function here.
\<close>

definition write_tcs_reg :: "rsc_drv \<Rightarrow> rsc_reg \<Rightarrow> nat \<Rightarrow> u32w \<Rightarrow> rsc_drv" where
  "write_tcs_reg drv reg tcs_id data =
     drv\<lparr>drv_hw := (drv_hw drv)(tcs_reg_addr drv reg tcs_id := data)\<rparr>"

definition write_tcs_reg_sync :: "rsc_drv \<Rightarrow> rsc_reg \<Rightarrow> nat \<Rightarrow> u32w \<Rightarrow> rsc_drv" where
  "write_tcs_reg_sync drv reg tcs_id data = write_tcs_reg drv reg tcs_id data"

definition write_base :: "rsc_drv \<Rightarrow> rsc_reg \<Rightarrow> u32w \<Rightarrow> rsc_drv" where
  "write_base drv reg data = drv\<lparr>drv_base := (drv_base drv)(drv_regs drv reg := data)\<rparr>"

abbreviation group :: "rsc_drv \<Rightarrow> nat \<Rightarrow> tcs_type \<Rightarrow> tcs_group" where
  "group drv ch ty \<equiv> ch_tcs (drv_ch drv ch) ty"

definition set_group :: "rsc_drv \<Rightarrow> nat \<Rightarrow> tcs_type \<Rightarrow> tcs_group \<Rightarrow> rsc_drv" where
  "set_group drv ch ty g =
     drv\<lparr>drv_ch := (drv_ch drv)(ch := (drv_ch drv ch)\<lparr>ch_tcs := (ch_tcs (drv_ch drv ch))(ty := g)\<rparr>)\<rparr>"

end
