(* ===== verification/Rpmh_Rsc.thy ===== *)
theory Rpmh_Rsc
  imports Rpmh_Data
begin

text \<open>
  The controller half of the RPMh driver (\<^verbatim>\<open>drivers/soc/qcom/rpmh-rsc.c\<close>): groups of trigger
  command sets (TCS), the search for free command slots, active transfers with their
  interrupt, and the set-up of the groups from the device tree. What the hardware answers when
  a volatile register is polled is an argument.
\<close>

subsection \<open>Bitmaps\<close>

definition bitmap_empty :: "(nat \<Rightarrow> bool) \<Rightarrow> nat \<Rightarrow> bool" where
  "bitmap_empty bits n = list_all (\<lambda>i. \<not> bits i) [0..<n]"

definition bitmap_zero :: "(nat \<Rightarrow> bool) \<Rightarrow> nat \<Rightarrow> nat \<Rightarrow> bool" where
  "bitmap_zero bits n = (\<lambda>i. if i < n then False else bits i)"

definition bitmap_set :: "(nat \<Rightarrow> bool) \<Rightarrow> nat \<Rightarrow> nat \<Rightarrow> nat \<Rightarrow> bool" where
  "bitmap_set bits start n = (\<lambda>i. if start \<le> i \<and> i < start + n then True else bits i)"

definition find_next_zero_bit :: "(nat \<Rightarrow> bool) \<Rightarrow> nat \<Rightarrow> nat \<Rightarrow> nat" where
  "find_next_zero_bit bits n start = (case find (\<lambda>i. \<not> bits i) [start..<n] of Some i \<Rightarrow> i | None \<Rightarrow> n)"

definition find_next_bit :: "(nat \<Rightarrow> bool) \<Rightarrow> nat \<Rightarrow> nat \<Rightarrow> nat" where
  "find_next_bit bits n start = (case find (\<lambda>i. bits i) [start..<n] of Some i \<Rightarrow> i | None \<Rightarrow> n)"

definition area_free :: "(nat \<Rightarrow> bool) \<Rightarrow> nat \<Rightarrow> nat \<Rightarrow> bool" where
  "area_free bits i n = list_all (\<lambda>k. \<not> bits k) [i..<i + n]"

text \<open>The first free area of \<open>nr\<close> bits at or after \<open>start\<close>; a value beyond the size if there is none.\<close>

definition bitmap_find_next_zero_area :: "(nat \<Rightarrow> bool) \<Rightarrow> nat \<Rightarrow> nat \<Rightarrow> nat \<Rightarrow> nat" where
  "bitmap_find_next_zero_area bits n start nr =
     (case find (\<lambda>i. area_free bits i nr) [start..<Suc n - nr] of Some i \<Rightarrow> i | None \<Rightarrow> Suc n)"

definition BIT :: "nat \<Rightarrow> u32w" where "BIT i = push_bit i 1"

definition TCS_AMC_MODE_ENABLE :: u32w where "TCS_AMC_MODE_ENABLE = BIT 16"
definition TCS_AMC_MODE_TRIGGER :: u32w where "TCS_AMC_MODE_TRIGGER = BIT 24"
definition CMD_MSGID_LEN :: u32w where "CMD_MSGID_LEN = 8"
definition CMD_MSGID_RESP_REQ :: u32w where "CMD_MSGID_RESP_REQ = BIT 8"
definition CMD_MSGID_WRITE :: u32w where "CMD_MSGID_WRITE = BIT 16"

subsection \<open>Invalidation and channels\<close>

definition disable_tcs :: "nat \<Rightarrow> rsc_drv \<Rightarrow> rsc_drv" where
  "disable_tcs m drv =
     write_tcs_reg_sync (write_tcs_reg_sync drv RSC_DRV_CMD_ENABLE m 0) RSC_DRV_CMD_WAIT_FOR_CMPL m 0"

definition tcs_invalidate :: "rsc_drv \<Rightarrow> tcs_type \<Rightarrow> nat \<Rightarrow> rsc_drv" where
  "tcs_invalidate drv ty ch =
     (let tcs = group drv ch ty in
      if bitmap_empty (tg_slots tcs) (tg_ncpt tcs * tg_num_tcs tcs) then drv
      else
        let drv' = fold disable_tcs [tg_offset tcs..<tg_offset tcs + tg_num_tcs tcs] drv in
        set_group drv' ch ty (tcs\<lparr>tg_slots := bitmap_zero (tg_slots tcs) (tg_ncpt tcs * tg_num_tcs tcs)\<rparr>))"

text \<open>
  Selecting the unused channel: the loop reads the update and busy registers until they agree.
  \<open>chn k\<close> is what the \<open>k\<close>-th pair of reads returns.
\<close>

partial_function (option) chn_settle :: "(nat \<Rightarrow> u32w \<times> u32w) \<Rightarrow> nat \<Rightarrow> u32w option" where
  "chn_settle chn k =
     (if snd (chn k) \<noteq> fst (chn k) then chn_settle chn (Suc k) else Some (snd (chn k)))"

definition rpmh_rsc_get_channel :: "rsc_drv \<Rightarrow> (nat \<Rightarrow> u32w \<times> u32w) \<Rightarrow> nat result outcome" where
  "rpmh_rsc_get_channel drv chn =
     (if drv_num_channels drv = 1 then Returns (OK 0)
      else
        case chn_settle chn 0 of
          None \<Rightarrow> Waits
        | Some chn_busy \<Rightarrow>
            Returns (if bit chn_busy 0 then OK 1 else if bit chn_busy 1 then OK 0 else Err EBUSY))"

definition rpmh_rsc_invalidate :: "rsc_drv \<Rightarrow> nat \<Rightarrow> rsc_drv" where
  "rpmh_rsc_invalidate drv ch = tcs_invalidate (tcs_invalidate drv SLEEP_TCS ch) WAKE_TCS ch"

definition get_tcs_for_msg :: "rsc_drv \<Rightarrow> rpmh_state \<Rightarrow> nat \<Rightarrow> tcs_type" where
  "get_tcs_for_msg drv state ch =
     (let ty = (case state of
                  RPMH_ACTIVE_ONLY_STATE \<Rightarrow> ACTIVE_TCS
                | RPMH_WAKE_ONLY_STATE \<Rightarrow> WAKE_TCS
                | RPMH_SLEEP_STATE \<Rightarrow> SLEEP_TCS)
      in if state = RPMH_ACTIVE_ONLY_STATE \<and> tg_num_tcs (group drv ch ty) = 0 then WAKE_TCS else ty)"

text \<open>The stashed request and the channel; the channel stays unset when no group has the TCS.\<close>

fun get_req_from_tcs :: "rsc_drv \<Rightarrow> nat \<Rightarrow> nat list \<Rightarrow> tcs_request option \<times> nat option" where
  "get_req_from_tcs drv tcs_id [] = (None, None)"
| "get_req_from_tcs drv tcs_id (i # is) =
     (if \<not> ch_initialized (drv_ch drv i) then get_req_from_tcs drv tcs_id is
      else
        let tcs = group drv i (get_tcs_for_msg drv RPMH_ACTIVE_ONLY_STATE i) in
        if bit (tg_mask tcs) tcs_id then (tg_req tcs (tcs_id - tg_offset tcs), Some i)
        else get_req_from_tcs drv tcs_id is)"

subsection \<open>Triggers, interrupts and command buffers\<close>

definition tcs_set_trigger :: "rsc_drv \<Rightarrow> nat \<Rightarrow> bool \<Rightarrow> rsc_drv" where
  "tcs_set_trigger drv tcs_id trigger =
     (let e0 = read_tcs_reg drv RSC_DRV_CONTROL tcs_id;
          e1 = e0 AND NOT TCS_AMC_MODE_TRIGGER;
          d1 = write_tcs_reg_sync drv RSC_DRV_CONTROL tcs_id e1;
          e2 = e1 AND NOT TCS_AMC_MODE_ENABLE;
          d2 = write_tcs_reg_sync d1 RSC_DRV_CONTROL tcs_id e2
      in if trigger then
           let d3 = write_tcs_reg_sync d2 RSC_DRV_CONTROL tcs_id TCS_AMC_MODE_ENABLE
           in write_tcs_reg d3 RSC_DRV_CONTROL tcs_id (TCS_AMC_MODE_ENABLE OR TCS_AMC_MODE_TRIGGER)
         else d2)"

text \<open>The interrupt registers are at the start of the command-set window.\<close>

definition enable_tcs_irq :: "rsc_drv \<Rightarrow> nat \<Rightarrow> bool \<Rightarrow> rsc_drv" where
  "enable_tcs_irq drv tcs_id enable =
     (let reg = drv_regs drv RSC_DRV_IRQ_ENABLE; data = drv_hw drv reg;
          data' = (if enable then data OR BIT tcs_id else data AND NOT (BIT tcs_id))
      in drv\<lparr>drv_hw := (drv_hw drv)(reg := data')\<rparr>)"

definition rpmh_tx_done :: "tcs_request \<Rightarrow> rsc_drv \<Rightarrow> rsc_drv" where
  "rpmh_tx_done msg drv =
     (case rq_compl msg of None \<Rightarrow> drv | Some c \<Rightarrow> drv\<lparr>drv_done := drv_done drv @ [c]\<rparr>)"

text \<open>
  One TCS of the interrupt handler. The channel is a variable of the whole handler: when no group has
  the TCS it keeps the value of the TCS before, and it is unset when there was none.
\<close>

definition tx_done_one :: "nat option \<Rightarrow> nat \<Rightarrow> rsc_drv \<Rightarrow> (nat option \<times> rsc_drv) result" where
  "tx_done_one prev i drv =
     (case get_req_from_tcs drv i [0..<MAX_CHANNEL] of (req, found) \<Rightarrow>
        let ch = (case found of Some c \<Rightarrow> Some c | None \<Rightarrow> prev);
            borrowed = map_option (\<lambda>c. tg_num_tcs (group drv c ACTIVE_TCS) = 0) ch;
            d1 = (if req \<noteq> None \<and> borrowed = Some True then tcs_set_trigger drv i False else drv);
            d2 = write_tcs_reg d1 RSC_DRV_CMD_ENABLE i 0;
            d3 = write_tcs_reg d2 RSC_DRV_CMD_WAIT_FOR_CMPL i 0;
            d4 = d3\<lparr>drv_hw := (drv_hw d3)(drv_regs d3 RSC_DRV_IRQ_CLEAR := BIT i)\<rparr>;
            d5 = d4\<lparr>drv_in_use := (drv_in_use d4)(i := False)\<rparr>
        in case borrowed of
             None \<Rightarrow> UB
           | Some b \<Rightarrow>
               let d6 = (if b then enable_tcs_irq d5 i False else d5)
               in OK (ch, case req of None \<Rightarrow> d6 | Some r \<Rightarrow> rpmh_tx_done r d6))"

fun tx_done_all :: "nat option \<Rightarrow> nat list \<Rightarrow> rsc_drv \<Rightarrow> rsc_drv result" where
  "tx_done_all prev [] drv = OK drv"
| "tx_done_all prev (i # is) drv = rbind (tx_done_one prev i drv) (\<lambda>(ch, d). tx_done_all ch is d)"

definition tcs_tx_done :: "u32w \<Rightarrow> rsc_drv \<Rightarrow> rsc_drv result" where
  "tcs_tx_done irq_status drv = tx_done_all None (filter (bit irq_status) [0..<32]) drv"

fun tcs_write_cmds ::
  "nat \<Rightarrow> nat \<Rightarrow> u32w \<Rightarrow> tcs_cmd list \<Rightarrow> u32w \<Rightarrow> u32w \<Rightarrow> rsc_drv \<Rightarrow> rsc_drv \<times> u32w \<times> u32w" where
  "tcs_write_cmds tcs_id j cmd_msgid [] cmd_enable cmd_complete drv = (drv, cmd_enable, cmd_complete)"
| "tcs_write_cmds tcs_id j cmd_msgid (c # cs) cmd_enable cmd_complete drv =
     (let msgid = cmd_msgid OR (if cmd_wait c \<noteq> 0 then CMD_MSGID_RESP_REQ else 0);
          d1 = write_tcs_cmd drv RSC_DRV_CMD_MSGID tcs_id j msgid;
          d2 = write_tcs_cmd d1 RSC_DRV_CMD_ADDR tcs_id j (cmd_addr c);
          d3 = write_tcs_cmd d2 RSC_DRV_CMD_DATA tcs_id j (cmd_data c)
      in tcs_write_cmds tcs_id (Suc j) cmd_msgid cs (cmd_enable OR BIT j)
           (cmd_complete OR push_bit j (cmd_wait c)) d3)"

definition tcs_buffer_write :: "rsc_drv \<Rightarrow> nat \<Rightarrow> nat \<Rightarrow> tcs_request \<Rightarrow> rsc_drv" where
  "tcs_buffer_write drv tcs_id cmd_id msg =
     (let cmd_msgid = (CMD_MSGID_LEN OR CMD_MSGID_WRITE) OR (if rq_wait_for_compl msg then CMD_MSGID_RESP_REQ else 0);
          complete0 = read_tcs_reg drv RSC_DRV_CMD_WAIT_FOR_CMPL tcs_id;
          (d1, enable, complete) = tcs_write_cmds tcs_id cmd_id cmd_msgid (rq_cmds msg) 0 complete0 drv;
          d2 = write_tcs_reg d1 RSC_DRV_CMD_WAIT_FOR_CMPL tcs_id complete
      in write_tcs_reg d2 RSC_DRV_CMD_ENABLE tcs_id (enable OR read_tcs_reg d2 RSC_DRV_CMD_ENABLE tcs_id))"

subsection \<open>Active transfers\<close>

definition check_for_req_inflight :: "rsc_drv \<Rightarrow> tcs_group \<Rightarrow> tcs_request \<Rightarrow> unit result" where
  "check_for_req_inflight drv tcs msg =
     (if list_ex (\<lambda>i. drv_in_use drv i \<and>
           list_ex (\<lambda>j. bit (read_tcs_reg drv RSC_DRV_CMD_ENABLE i) j \<and>
             list_ex (\<lambda>c. cmd_db_match_resource_addr (cmd_addr c) (read_tcs_cmd drv RSC_DRV_CMD_ADDR i j)) (rq_cmds msg))
           [0..<tg_ncpt tcs])
         [tg_offset tcs..<tg_offset tcs + tg_num_tcs tcs]
      then Err EBUSY else OK ())"

text \<open>The status register of a TCS is polled up to 100 times; \<open>sts k\<close> is its \<open>k\<close>-th value.\<close>

fun poll_status :: "(nat \<Rightarrow> u32w) \<Rightarrow> nat \<Rightarrow> nat \<Rightarrow> bool" where
  "poll_status sts k 0 = False"
| "poll_status sts k (Suc timeout) = (if sts k \<noteq> 0 then True else poll_status sts (Suc k) timeout)"

definition find_free_tcs :: "rsc_drv \<Rightarrow> tcs_group \<Rightarrow> (nat \<Rightarrow> nat \<Rightarrow> u32w) \<Rightarrow> nat result" where
  "find_free_tcs drv tcs sts =
     (let max = tg_offset tcs + tg_num_tcs tcs;
          i = find_next_zero_bit (drv_in_use drv) max (tg_offset tcs)
      in if i \<ge> max then Err EBUSY
         else if \<not> poll_status (sts i) 1 100 then Err EBUSY
         else OK i)"

definition claim_tcs_for_req :: "rsc_drv \<Rightarrow> tcs_group \<Rightarrow> tcs_request \<Rightarrow> (nat \<Rightarrow> nat \<Rightarrow> u32w) \<Rightarrow> nat result" where
  "claim_tcs_for_req drv tcs msg sts =
     rbind (check_for_req_inflight drv tcs msg) (\<lambda>_. find_free_tcs drv tcs sts)"

text \<open>
  Waiting for a TCS: each event is an interrupt, given by its status word, and what the status
  registers show at the attempt after it.
\<close>

fun wait_for_tcs ::
  "nat \<Rightarrow> tcs_type \<Rightarrow> tcs_request \<Rightarrow> (u32w \<times> (nat \<Rightarrow> nat \<Rightarrow> u32w)) list \<Rightarrow> (nat \<Rightarrow> nat \<Rightarrow> u32w) \<Rightarrow> rsc_drv \<Rightarrow>
   (nat result \<times> rsc_drv) outcome" where
  "wait_for_tcs ch ty msg events sts drv =
     (case claim_tcs_for_req drv (group drv ch ty) msg sts of
        OK tcs_id \<Rightarrow> Returns (OK tcs_id, drv)
      | UB \<Rightarrow> Returns (UB, drv)
      | Err _ \<Rightarrow>
          (case events of
             [] \<Rightarrow> Waits
           | (irq, sts') # events' \<Rightarrow>
               (case tcs_tx_done irq drv of
                  OK drv' \<Rightarrow> wait_for_tcs ch ty msg events' sts' drv'
                | Err e \<Rightarrow> Returns (Err e, drv)
                | UB \<Rightarrow> Returns (UB, drv))))"

definition start_transfer :: "nat \<Rightarrow> tcs_type \<Rightarrow> tcs_request \<Rightarrow> nat \<Rightarrow> rsc_drv \<Rightarrow> rsc_drv" where
  "start_transfer ch ty msg tcs_id drv =
     (let tcs = group drv ch ty;
          d1 = set_group drv ch ty (tcs\<lparr>tg_req := (tg_req tcs)(tcs_id - tg_offset tcs := Some msg)\<rparr>);
          d2 = d1\<lparr>drv_in_use := (drv_in_use d1)(tcs_id := True)\<rparr>;
          d3 = write_tcs_reg_sync d2 RSC_DRV_CMD_ENABLE tcs_id 0;
          d4 = write_tcs_reg_sync d3 RSC_DRV_CMD_WAIT_FOR_CMPL tcs_id 0;
          d5 = enable_tcs_irq d4 tcs_id
                 (rq_wait_for_compl msg \<or> (rq_state msg = RPMH_ACTIVE_ONLY_STATE \<and> tg_type tcs \<noteq> ACTIVE_TCS));
          d6 = tcs_buffer_write d5 tcs_id 0 msg;
          d7 = tcs_set_trigger d6 tcs_id True
      in if \<not> rq_wait_for_compl msg then d7\<lparr>drv_in_use := (drv_in_use d7)(tcs_id := False)\<rparr> else d7)"

definition rpmh_rsc_send_data ::
  "tcs_request \<Rightarrow> nat \<Rightarrow> (u32w \<times> (nat \<Rightarrow> nat \<Rightarrow> u32w)) list \<Rightarrow> (nat \<Rightarrow> nat \<Rightarrow> u32w) \<Rightarrow> rsc_drv \<Rightarrow>
   (unit result \<times> rsc_drv) outcome" where
  "rpmh_rsc_send_data msg ch events sts drv =
     (let ty = get_tcs_for_msg drv (rq_state msg) ch in
      if drv_in_solver_mode drv then Returns (Err EBUSY, drv)
      else
        obind (wait_for_tcs ch ty msg events sts drv) (\<lambda>(r, d).
          case r of
            OK tcs_id \<Rightarrow> Returns (OK (), start_transfer ch ty msg tcs_id d)
          | Err e \<Rightarrow> Returns (Err e, d)
          | UB \<Rightarrow> Returns (UB, d)))"

subsection \<open>Sleep and wake sets\<close>

text \<open>The search loop of \<^verbatim>\<open>find_slots\<close>: the slot found, or \<open>None\<close> when there is no room.\<close>

lemma find_SomeD: "find P xs = Some x \<Longrightarrow> P x \<and> x \<in> set xs"
  by (auto simp: find_Some_iff)

lemma zero_area_found:
  assumes "bitmap_find_next_zero_area bits n start nr < n" "0 < nr"
  shows "start \<le> bitmap_find_next_zero_area bits n start nr \<and> bitmap_find_next_zero_area bits n start nr + nr \<le> n \<and>
    area_free bits (bitmap_find_next_zero_area bits n start nr) nr"
  using assms by (auto simp: bitmap_find_next_zero_area_def split: option.splits dest!: find_SomeD)

lemma zero_area_start: "bitmap_find_next_zero_area bits n start nr < n \<Longrightarrow> start \<le> bitmap_find_next_zero_area bits n start nr"
  by (auto simp: bitmap_find_next_zero_area_def split: option.splits dest!: find_SomeD)

function find_slot_from :: "tcs_group \<Rightarrow> nat \<Rightarrow> nat \<Rightarrow> nat option" where
  "find_slot_from tcs num_cmds i =
     (let slot = bitmap_find_next_zero_area (tg_slots tcs) (tg_ncpt tcs * tg_num_tcs tcs) i num_cmds in
      if slot \<ge> tg_num_tcs tcs * tg_ncpt tcs then None
      else if slot + num_cmds - 1 \<ge> i + tg_ncpt tcs then find_slot_from tcs num_cmds (i + tg_ncpt tcs)
      else Some slot)"
  by pat_completeness auto
termination
proof (relation "measure (\<lambda>(tcs, num_cmds, i). tg_num_tcs tcs * tg_ncpt tcs - i)", goal_cases)
  case (2 tcs num_cmds i slot)
  have "i \<le> slot" using zero_area_start [of "tg_slots tcs" "tg_ncpt tcs * tg_num_tcs tcs" i num_cmds] 2(1,2)
    by (simp add: mult.commute)
  then show ?case using 2 by (cases "tg_ncpt tcs") auto
qed simp

declare find_slot_from.simps [simp del]

definition find_slots :: "tcs_group \<Rightarrow> tcs_request \<Rightarrow> (tcs_group \<times> nat \<times> nat) result" where
  "find_slots tcs msg =
     (case find_slot_from tcs (length (rq_cmds msg)) 0 of
        None \<Rightarrow> Err ENOMEM
      | Some slot \<Rightarrow>
          OK (tcs\<lparr>tg_slots := bitmap_set (tg_slots tcs) slot (length (rq_cmds msg))\<rparr>,
              slot div tg_ncpt tcs + tg_offset tcs, slot mod tg_ncpt tcs))"

definition rpmh_rsc_write_ctrl_data :: "tcs_request \<Rightarrow> nat \<Rightarrow> rsc_drv \<Rightarrow> unit result \<times> rsc_drv" where
  "rpmh_rsc_write_ctrl_data msg ch drv =
     (if rq_cmds msg = [] then (OK (), drv)
      else
        let ty = get_tcs_for_msg drv (rq_state msg) ch in
        case find_slots (group drv ch ty) msg of
          OK (tcs, tcs_id, cmd_id) \<Rightarrow> (OK (), tcs_buffer_write (set_group drv ch ty tcs) tcs_id cmd_id msg)
        | Err e \<Rightarrow> (Err e, drv)
        | UB \<Rightarrow> (UB, drv))"

subsection \<open>Busy check, wake-up timer, solver mode and channels\<close>

text \<open>\<open>fast\<close> is the status register of the fast-path TCS of a channel.\<close>

definition channel_is_busy :: "rsc_drv \<Rightarrow> (nat \<Rightarrow> u32w) \<Rightarrow> nat \<Rightarrow> bool" where
  "channel_is_busy drv fast i =
     (ch_initialized (drv_ch drv i) \<and>
      (let active = group drv i ACTIVE_TCS;
           tcs = (if tg_num_tcs active = 0 then group drv i WAKE_TCS else active);
           max = tg_offset tcs + tg_num_tcs tcs
       in find_next_bit (drv_in_use drv) max (tg_offset tcs) < max \<or>
          (tg_num_tcs (group drv i FAST_PATH_TCS) \<noteq> 0 \<and> fast i = 0)))"

definition rpmh_rsc_ctrlr_is_busy :: "rsc_drv \<Rightarrow> (nat \<Rightarrow> u32w) \<Rightarrow> bool" where
  "rpmh_rsc_ctrlr_is_busy drv fast = list_ex (channel_is_busy drv fast) [0..<MAX_CHANNEL]"

text \<open>
  The next wake-up: \<open>suspended\<close>, the microseconds to the earliest timer, loops per jiffy times HZ
  and the counter are what the kernel provides. The group consulted is the one of the
  controller itself, not of a channel.
\<close>

definition rpmh_rsc_write_next_wakeup :: "bool \<Rightarrow> bool \<Rightarrow> 64 word \<Rightarrow> 64 word \<Rightarrow> 64 word \<Rightarrow> rsc_drv \<Rightarrow> rsc_drv" where
  "rpmh_rsc_write_next_wakeup has_notifier suspended wakeup_us lpj_hz counter drv =
     (if drv_control_tcs drv = 0 \<or> \<not> has_notifier then drv
      else
        let cycles = (if suspended then -1 else drop_bit 32 (wakeup_us * 0x10C7 * lpj_hz) + counter);
            lo = ucast (cycles AND 0xFFFFFFFF) :: u32w;
            hi = (ucast (drop_bit 32 cycles) AND 0xFFFFFF) OR BIT 31 :: u32w
        in drv\<lparr>drv_base := (drv_base drv)(0x40 := lo, 0x38 := hi)\<rparr>)"

definition rpmh_rsc_mode_solver_set :: "bool \<Rightarrow> (nat \<Rightarrow> u32w) \<Rightarrow> bool \<Rightarrow> rsc_drv \<Rightarrow> unit result \<times> rsc_drv" where
  "rpmh_rsc_mode_solver_set trylock fast enable drv =
     (if trylock \<and> (\<not> enable \<or> \<not> rpmh_rsc_ctrlr_is_busy drv fast)
      then (OK (), drv\<lparr>drv_in_solver_mode := enable\<rparr>)
      else (Err EBUSY, drv))"

text \<open>
  Waiting for the wake votes of a channel: ten reads of the completion register, \<open>cmpl k\<close> the
  \<open>k\<close>-th. The error of a time-out is computed and traced but not returned.
\<close>

fun poll_complete :: "(nat \<Rightarrow> u32w) \<Rightarrow> nat \<Rightarrow> nat \<Rightarrow> nat \<Rightarrow> nat" where
  "poll_complete cmpl b k 0 = 0"
| "poll_complete cmpl b k (Suc retry) = (if bit (cmpl k) b \<or> retry = 0 then retry else poll_complete cmpl b (Suc k) retry)"

definition rpmh_rsc_is_tcs_completed :: "(nat \<Rightarrow> u32w) \<Rightarrow> nat \<Rightarrow> rsc_drv \<Rightarrow> unit result \<times> rsc_drv" where
  "rpmh_rsc_is_tcs_completed cmpl ch drv =
     (let retry = poll_complete cmpl (if ch = 0 then 0 else 2) 0 10 in
      if retry = 0 then (OK (), drv)
      else (OK (), write_base drv RSC_DRV_CHN_TCS_COMPLETE (BIT 31)))"

definition rpmh_rsc_switch_channel :: "(nat \<Rightarrow> u32w) \<Rightarrow> nat \<Rightarrow> rsc_drv \<Rightarrow> unit result \<times> rsc_drv" where
  "rpmh_rsc_switch_channel cmpl ch drv =
     rpmh_rsc_is_tcs_completed cmpl ch (write_base drv RSC_DRV_CHN_UPDATE (BIT ch))"

text \<open>The group of a command set, searched type by type over the channels; used by the debug output.\<close>

definition get_tcs_from_index :: "rsc_drv \<Rightarrow> nat \<Rightarrow> (tcs_type \<times> nat) option" where
  "get_tcs_from_index drv tcs_id =
     find (\<lambda>(ty, ch). ch_initialized (drv_ch drv ch) \<and> bit (tg_mask (group drv ch ty)) tcs_id)
       (List.product [SLEEP_TCS, WAKE_TCS, ACTIVE_TCS, CONTROL_TCS, FAST_PATH_TCS] [0..<MAX_CHANNEL])"

text \<open>Restoring the interrupt mask after hibernation.\<close>

definition rpmh_rsc_tcs_irq_enable :: "rsc_drv \<Rightarrow> rsc_drv" where
  "rpmh_rsc_tcs_irq_enable drv =
     fold (\<lambda>ch d.
         if \<not> ch_initialized (drv_ch d ch) then d
         else
           let reg = drv_regs d RSC_DRV_IRQ_ENABLE; tcs_mask = drv_hw d reg OR tg_mask (group d ch ACTIVE_TCS)
           in d\<lparr>drv_hw := (drv_hw d)(reg := tcs_mask)\<rparr>)
       [0..<MAX_CHANNEL] drv"

subsection \<open>Fast path\<close>

definition rpmh_rsc_init_fast_path :: "tcs_request \<Rightarrow> nat \<Rightarrow> rsc_drv \<Rightarrow> unit result \<times> rsc_drv" where
  "rpmh_rsc_init_fast_path msg ch drv =
     (if tg_num_tcs (group drv ch FAST_PATH_TCS) = 0 then (Err ENODEV, drv)
      else
        let tcs_id = tg_offset (group drv ch FAST_PATH_TCS)
        in (OK (), tcs_buffer_write (enable_tcs_irq drv tcs_id False) tcs_id 0 msg))"

fun update_data :: "nat \<Rightarrow> nat \<Rightarrow> tcs_cmd list \<Rightarrow> u32w \<Rightarrow> rsc_drv \<Rightarrow> rsc_drv" where
  "update_data tcs_id i [] upd_mask drv = drv"
| "update_data tcs_id i (c # cs) upd_mask drv =
     update_data tcs_id (Suc i) cs upd_mask
       (if \<not> bit upd_mask i then drv else write_tcs_cmd drv RSC_DRV_CMD_DATA tcs_id i (cmd_data c))"

text \<open>The TCS is polled five times; \<open>sts k\<close> is the \<open>k\<close>-th value of its status register.\<close>

definition rpmh_rsc_update_fast_path ::
  "tcs_request \<Rightarrow> u32w \<Rightarrow> nat \<Rightarrow> (nat \<Rightarrow> u32w) \<Rightarrow> rsc_drv \<Rightarrow> unit result \<times> rsc_drv" where
  "rpmh_rsc_update_fast_path msg upd_mask ch sts drv =
     (if tg_num_tcs (group drv ch FAST_PATH_TCS) = 0 then (Err ENODEV, drv)
      else
        let tcs_id = tg_offset (group drv ch FAST_PATH_TCS) in
        if \<not> poll_status sts 0 5 then (Err EBUSY, drv)
        else (OK (), tcs_set_trigger (update_data tcs_id 0 (rq_cmds msg) upd_mask drv) tcs_id True))"

subsection \<open>Set-up from the device tree\<close>

definition tcs_type_of :: "nat \<Rightarrow> tcs_type" where
  "tcs_type_of n =
     (if n = 0 then SLEEP_TCS else if n = 1 then WAKE_TCS else if n = 2 then ACTIVE_TCS
      else if n = 3 then CONTROL_TCS else FAST_PATH_TCS)"

fun parse_tcs_config :: "nat list \<Rightarrow> (tcs_type \<times> nat) list result" where
  "parse_tcs_config (ty # n # cfg) =
     (if ty \<ge> 5 then Err EINVAL
      else if n > MAX_TCS_PER_TYPE then Err EINVAL
      else rbind (parse_tcs_config cfg) (\<lambda>rest. OK ((tcs_type_of ty, n) # rest)))"
| "parse_tcs_config cfg = OK []"

fun place_groups :: "nat \<Rightarrow> nat \<Rightarrow> nat \<Rightarrow> (tcs_type \<times> nat) list \<Rightarrow> nat \<Rightarrow> drv_channel \<Rightarrow> nat result \<times> drv_channel" where
  "place_groups num_tcs max_tcs ncpt [] st chan = (OK st, chan)"
| "place_groups num_tcs max_tcs ncpt ((ty, n) # cfg) st chan =
     (let tcs = ch_tcs chan ty in
      if tg_present tcs then (Err EINVAL, chan)
      else
        let tcs1 = tcs\<lparr>tg_present := True, tg_type := ty, tg_num_tcs := n, tg_ncpt := ncpt\<rparr>;
            chan1 = chan\<lparr>ch_tcs := (ch_tcs chan)(ty := tcs1)\<rparr>
        in if n = 0 \<or> ty = CONTROL_TCS then place_groups num_tcs max_tcs ncpt cfg st chan1
           else if st + n > max_tcs \<or> st + n \<ge> 32 then (Err EINVAL, chan1)
           else
             let tcs2 = tcs1\<lparr>tg_mask := push_bit (st + num_tcs) (push_bit n 1 - 1), tg_offset := st + num_tcs\<rparr>
             in place_groups num_tcs max_tcs ncpt cfg (st + n) (chan\<lparr>ch_tcs := (ch_tcs chan)(ty := tcs2)\<rparr>))"

definition rpmh_probe_channel_tcs_config :: "nat list \<Rightarrow> nat \<Rightarrow> nat \<Rightarrow> nat \<Rightarrow> rsc_drv \<Rightarrow> unit result \<times> rsc_drv" where
  "rpmh_probe_channel_tcs_config cfg max_tcs ncpt ch drv =
     (if ch \<ge> MAX_CHANNEL then (UB, drv)
      else if length cfg \<noteq> 10 then (Err EINVAL, drv)
      else
        case parse_tcs_config cfg of
          Err e \<Rightarrow> (Err e, drv)
        | UB \<Rightarrow> (UB, drv)
        | OK tcs_cfg \<Rightarrow>
            (case place_groups (drv_num_tcs drv) max_tcs ncpt tcs_cfg 0 (drv_ch drv ch) of
               (OK st, chan) \<Rightarrow>
                 let d1 = drv\<lparr>drv_ch := (drv_ch drv)(ch := chan)\<rparr>;
                     reg = drv_regs drv RSC_DRV_IRQ_ENABLE;
                     d2 = d1\<lparr>drv_hw := (drv_hw d1)(reg := drv_hw d1 reg OR tg_mask (group d1 ch ACTIVE_TCS))\<rparr>
                 in (OK (), d2\<lparr>drv_ch := (drv_ch d2)(ch := chan\<lparr>ch_initialized := True\<rparr>),
                              drv_num_tcs := drv_num_tcs d2 + st\<rparr>)
             | (Err e, chan) \<Rightarrow> (Err e, drv\<lparr>drv_ch := (drv_ch drv)(ch := chan)\<rparr>)
             | (UB, chan) \<Rightarrow> (UB, drv)))"

fun probe_channels :: "nat list list \<Rightarrow> nat \<Rightarrow> nat \<Rightarrow> nat \<Rightarrow> rsc_drv \<Rightarrow> unit result \<times> rsc_drv" where
  "probe_channels [] max_tcs ncpt ch drv = (OK (), drv\<lparr>drv_num_channels := ch\<rparr>)"
| "probe_channels (cfg # cfgs) max_tcs ncpt ch drv =
     (case rpmh_probe_channel_tcs_config cfg max_tcs ncpt ch drv of
        (OK _, d) \<Rightarrow> probe_channels cfgs max_tcs ncpt (Suc ch) d
      | r \<Rightarrow> r)"

text \<open>The configurations of the channels are arguments, as are the two device-tree properties read before.\<close>

definition rpmh_probe_tcs_config :: "bool \<Rightarrow> nat option \<Rightarrow> nat list list \<Rightarrow> rsc_drv \<Rightarrow> unit result \<times> rsc_drv" where
  "rpmh_probe_tcs_config has_offset distance cfgs drv =
     (if \<not> has_offset then (Err EINVAL, drv)
      else
        let d1 = drv\<lparr>drv_tcs_distance := (case distance of None \<Rightarrow> 0 | Some n \<Rightarrow> n)\<rparr>;
            config = drv_base d1 (drv_regs d1 DRV_PRNT_CHLD_CONFIG);
            max_tcs = unat (drop_bit (6 * drv_id d1) (config AND push_bit (6 * drv_id d1) 0x3F));
            ncpt = unat (drop_bit 27 (config AND push_bit 27 0x1F))
        in probe_channels cfgs max_tcs ncpt 0 d1)"

end
