(* ===== verification/Rpmh.thy ===== *)
theory Rpmh
  imports Rpmh_Rsc
begin

text \<open>
  The client half of the RPMh driver (\<^verbatim>\<open>drivers/soc/qcom/rpmh.c\<close>): the cache of sleep and
  wake votes, active requests, batches and the flush into the command sets, together with the
  power-management callbacks of \<^verbatim>\<open>rpmh-rsc.c\<close> that flush.
\<close>

text \<open>
  What the rest of the system provides to a call: whether RPMh runs stand-alone, the payload bound
  of \<^verbatim>\<open>tcs.h\<close>, the values polled from the hardware, the interrupts that arrive while the
  call waits for a TCS and for its completion, and the inputs of the wake-up timer.
\<close>

record rpmh_env =
  env_standalone :: bool
  env_max_payload :: nat
  env_chn :: "nat \<Rightarrow> u32w \<times> u32w"
  env_sts :: "nat \<Rightarrow> nat \<Rightarrow> u32w"
  env_events :: "(u32w \<times> (nat \<Rightarrow> nat \<Rightarrow> u32w)) list"
  env_irqs :: "u32w list"
  env_irq_data :: bool
  env_cmpl :: "nat \<Rightarrow> u32w"
  env_fast :: "nat \<Rightarrow> u32w"
  env_trylock :: bool
  env_notifier :: bool
  env_suspended :: bool
  env_wakeup_us :: "64 word"
  env_lpj_hz :: "64 word"
  env_counter :: "64 word"

definition UINT_MAX :: u32w where "UINT_MAX = -1"

subsection \<open>The request cache\<close>

definition check_ctrlr_state :: "rpmh_ctrlr \<Rightarrow> rpmh_state \<Rightarrow> unit result" where
  "check_ctrlr_state ct state =
     (if state \<noteq> RPMH_ACTIVE_ONLY_STATE then OK ()
      else if ct_flags ct AND SOLVER_PRESENT = 0 then OK ()
      else if ct_in_solver_mode ct then Err EBUSY else OK ())"

fun index_of :: "u32w \<Rightarrow> cache_req list \<Rightarrow> nat option" where
  "index_of addr [] = None"
| "index_of addr (r # rs) = (if cr_addr r = addr then Some 0 else map_option Suc (index_of addr rs))"

text \<open>The position of the entry for an address, appending a fresh one if there is none.\<close>

definition get_non_batch_cache_req :: "rpmh_ctrlr \<Rightarrow> u32w \<Rightarrow> (nat \<times> rpmh_ctrlr) option" where
  "get_non_batch_cache_req ct addr =
     (if length (ct_cache ct) \<ge> CMD_DB_MAX_RESOURCES then None
      else
        case index_of addr (ct_cache ct) of
          Some i \<Rightarrow> Some (i, ct)
        | None \<Rightarrow> Some (length (ct_cache ct),
                        ct\<lparr>ct_cache := ct_cache ct @ [\<lparr>cr_addr = 0, cr_sleep = UINT_MAX, cr_wake = UINT_MAX\<rparr>]\<rparr>))"

definition cache_rpm_request :: "rpmh_ctrlr \<Rightarrow> rpmh_state \<Rightarrow> tcs_cmd \<Rightarrow> unit result \<times> rpmh_ctrlr" where
  "cache_rpm_request ct state cmd =
     (case get_non_batch_cache_req ct (cmd_addr cmd) of
        None \<Rightarrow> (Err ENOMEM, ct)
      | Some (i, ct1) \<Rightarrow>
          let req = ct_cache ct1 ! i;
              req' = (if state = RPMH_SLEEP_STATE then req\<lparr>cr_addr := cmd_addr cmd, cr_sleep := cmd_data cmd\<rparr>
                      else req\<lparr>cr_addr := cmd_addr cmd, cr_wake := cmd_data cmd\<rparr>)
          in (OK (), ct1\<lparr>ct_cache := (ct_cache ct1)[i := req'],
                         ct_dirty := ct_dirty ct1 \<or>
                           ((cr_sleep req' \<noteq> cr_sleep req \<or> cr_wake req' \<noteq> cr_wake req) \<and>
                            cr_sleep req' \<noteq> UINT_MAX \<and> cr_wake req' \<noteq> UINT_MAX)\<rparr>))"

fun cache_rpm_requests :: "rpmh_state \<Rightarrow> tcs_cmd list \<Rightarrow> rpmh_ctrlr \<Rightarrow> unit result \<times> rpmh_ctrlr" where
  "cache_rpm_requests state [] ct = (OK (), ct)"
| "cache_rpm_requests state (c # cs) ct =
     (case cache_rpm_request ct state c of
        (OK _, ct') \<Rightarrow> cache_rpm_requests state cs ct'
      | r \<Rightarrow> r)"

subsection \<open>Writing requests\<close>

text \<open>\<^verbatim>\<open>__rpmh_write\<close>.\<close>

definition do_rpmh_write :: "rpmh_env \<Rightarrow> rpmh_state \<Rightarrow> tcs_request \<Rightarrow> rsc_drv \<Rightarrow> (unit result \<times> rsc_drv) outcome" where
  "do_rpmh_write env state msg drv =
     (case cache_rpm_requests state (rq_cmds msg) (drv_client drv) of
        (OK _, ct) \<Rightarrow>
          let d = drv\<lparr>drv_client := ct\<rparr> in
          if state = RPMH_ACTIVE_ONLY_STATE then
            obind (rpmh_rsc_get_channel d (env_chn env)) (\<lambda>r.
              case r of
                OK ch \<Rightarrow> rpmh_rsc_send_data msg ch (env_events env) (env_sts env) d
              | Err e \<Rightarrow> Returns (Err e, d)
              | UB \<Rightarrow> Returns (UB, d))
          else Returns (OK (), rpmh_tx_done msg d)
      | (r, ct) \<Rightarrow> Returns (r, drv\<lparr>drv_client := ct\<rparr>))"

text \<open>\<^verbatim>\<open>__fill_rpmh_msg\<close>: the payload is an array (absent for a null pointer) and a count.\<close>

definition fill_rpmh_msg ::
  "rpmh_env \<Rightarrow> tcs_request \<Rightarrow> rpmh_state \<Rightarrow> tcs_cmd list option \<Rightarrow> nat \<Rightarrow> tcs_request result" where
  "fill_rpmh_msg env req state cmd n =
     (case cmd of
        None \<Rightarrow> Err EINVAL
      | Some cs \<Rightarrow>
          if n = 0 \<or> n > env_max_payload env then Err EINVAL
          else if n > length cs then UB
          else OK (req\<lparr>rq_state := state, rq_cmds := take n cs\<rparr>))"

definition onstack_msg :: "rpmh_state \<Rightarrow> nat option \<Rightarrow> tcs_request" where
  "onstack_msg state compl =
     \<lparr>rq_state = state, rq_wait_for_compl = True, rq_cmds = [], rq_compl = compl\<rparr>"

definition rpmh_write_async ::
  "rpmh_env \<Rightarrow> rpmh_state \<Rightarrow> tcs_cmd list option \<Rightarrow> nat \<Rightarrow> rsc_drv \<Rightarrow> (unit result \<times> rsc_drv) outcome" where
  "rpmh_write_async env state cmd n drv =
     (if env_standalone env then Returns (OK (), drv)
      else
        case check_ctrlr_state (drv_client drv) state of
          Err e \<Rightarrow> Returns (Err e, drv)
        | UB \<Rightarrow> Returns (UB, drv)
        | OK _ \<Rightarrow>
            (case fill_rpmh_msg env ((onstack_msg state None)\<lparr>rq_wait_for_compl := False\<rparr>) state cmd n of
               Err e \<Rightarrow> Returns (Err e, drv)
             | UB \<Rightarrow> Returns (UB, drv)
             | OK msg \<Rightarrow> do_rpmh_write env state msg drv))"

text \<open>\<^verbatim>\<open>rpmh_rsc_debug\<close> stops the kernel when a TCS is still in use.\<close>

definition rpmh_rsc_debug :: "rpmh_env \<Rightarrow> rsc_drv \<Rightarrow> unit outcome" where
  "rpmh_rsc_debug env drv =
     (if env_irq_data env \<and> list_ex (drv_in_use drv) [0..<drv_num_tcs drv] then Bug else Returns ())"

text \<open>
  Waiting for the completion \<open>c\<close> while interrupts arrive; \<open>False\<close> is the time-out.
\<close>

fun wait_for_completion :: "nat \<Rightarrow> u32w list \<Rightarrow> rsc_drv \<Rightarrow> bool result \<times> rsc_drv" where
  "wait_for_completion c irqs drv =
     (if c \<in> set (drv_done drv) then (OK True, drv)
      else
        case irqs of
          [] \<Rightarrow> (OK False, drv)
        | irq # irqs' \<Rightarrow>
            (case tcs_tx_done irq drv of
               OK d \<Rightarrow> wait_for_completion c irqs' d
             | Err e \<Rightarrow> (Err e, drv)
             | UB \<Rightarrow> (UB, drv)))"

definition rpmh_write ::
  "rpmh_env \<Rightarrow> nat \<Rightarrow> rpmh_state \<Rightarrow> tcs_cmd list option \<Rightarrow> nat \<Rightarrow> rsc_drv \<Rightarrow> (unit result \<times> rsc_drv) outcome" where
  "rpmh_write env compl state cmd n drv =
     (if env_standalone env then Returns (OK (), drv)
      else
        case check_ctrlr_state (drv_client drv) state of
          Err e \<Rightarrow> Returns (Err e, drv)
        | UB \<Rightarrow> Returns (UB, drv)
        | OK _ \<Rightarrow>
            (case fill_rpmh_msg env (onstack_msg state (Some compl)) state cmd n of
               Err e \<Rightarrow> Returns (Err e, drv)
             | UB \<Rightarrow> Returns (UB, drv)
             | OK msg \<Rightarrow>
                 obind (do_rpmh_write env state msg drv) (\<lambda>(r, d).
                   case r of
                     OK _ \<Rightarrow>
                       (case wait_for_completion compl (env_irqs env) d of
                          (OK True, d') \<Rightarrow> Returns (OK (), d')
                        | (OK False, d') \<Rightarrow>
                            obind (rpmh_rsc_debug env d') (\<lambda>_. Returns (Err ETIMEDOUT, d'))
                        | (Err e, d') \<Rightarrow> Returns (Err e, d')
                        | (UB, d') \<Rightarrow> Returns (UB, d'))
                   | _ \<Rightarrow> Returns (r, d))))"

text \<open>Only the first count of the array of batch sizes is used.\<close>

definition rpmh_write_batch ::
  "rpmh_env \<Rightarrow> nat \<Rightarrow> rpmh_state \<Rightarrow> tcs_cmd list option \<Rightarrow> nat list \<Rightarrow> rsc_drv \<Rightarrow> (unit result \<times> rsc_drv) outcome" where
  "rpmh_write_batch env compl state cmd ns drv =
     (if env_standalone env then Returns (OK (), drv)
      else
        case check_ctrlr_state (drv_client drv) state of
          Err e \<Rightarrow> Returns (Err e, drv)
        | UB \<Rightarrow> Returns (UB, drv)
        | OK _ \<Rightarrow>
            if ns = [] then Returns (UB, drv)
            else if state \<noteq> RPMH_ACTIVE_ONLY_STATE then
              let ct = drv_client drv in
              (case fill_rpmh_msg env zero_request state cmd (hd ns) of
                 OK req \<Rightarrow> Returns (OK (), drv\<lparr>drv_client := ct\<lparr>ct_batch := (ct_batch ct)(state := req), ct_dirty := True\<rparr>\<rparr>)
               | Err e \<Rightarrow> Returns (Err e, drv\<lparr>drv_client := ct\<lparr>ct_batch := (ct_batch ct)(state := zero_request), ct_dirty := True\<rparr>\<rparr>)
               | UB \<Rightarrow> Returns (UB, drv))
            else
              (case fill_rpmh_msg env (onstack_msg state (Some compl)) state cmd (hd ns) of
                 Err e \<Rightarrow> Returns (Err e, drv)
               | UB \<Rightarrow> Returns (UB, drv)
               | OK msg \<Rightarrow>
                   obind (rpmh_rsc_get_channel drv (env_chn env)) (\<lambda>c.
                   case c of
                     Err e \<Rightarrow> Returns (Err e, drv)
                   | UB \<Rightarrow> Returns (UB, drv)
                   | OK ch \<Rightarrow>
                       obind (rpmh_rsc_send_data msg ch (env_events env) (env_sts env) drv) (\<lambda>(r, d).
                         case r of
                           OK _ \<Rightarrow>
                             (case wait_for_completion compl (env_irqs env) d of
                                (OK True, d') \<Rightarrow> Returns (OK (), d')
                              | (OK False, d') \<Rightarrow> Bug
                              | (Err e, d') \<Rightarrow> Returns (Err e, d')
                              | (UB, d') \<Rightarrow> Returns (UB, d'))
                         | _ \<Rightarrow> Returns (r, d)))))"

subsection \<open>Flushing\<close>

definition is_req_valid :: "cache_req \<Rightarrow> bool" where
  "is_req_valid req = (cr_sleep req \<noteq> UINT_MAX \<and> cr_wake req \<noteq> UINT_MAX \<and> cr_sleep req \<noteq> cr_wake req)"

definition send_single :: "rpmh_state \<Rightarrow> u32w \<Rightarrow> u32w \<Rightarrow> nat \<Rightarrow> rsc_drv \<Rightarrow> unit result \<times> rsc_drv" where
  "send_single state addr data ch drv =
     rpmh_rsc_write_ctrl_data
       \<lparr>rq_state = state, rq_wait_for_compl = (state = RPMH_WAKE_ONLY_STATE),
        rq_cmds = [\<lparr>cmd_addr = addr, cmd_data = data, cmd_wait = 0\<rparr>], rq_compl = None\<rparr> ch drv"

definition flush_batch :: "nat \<Rightarrow> rsc_drv \<Rightarrow> unit result \<times> rsc_drv" where
  "flush_batch ch drv =
     (case rpmh_rsc_write_ctrl_data (ct_batch (drv_client drv) RPMH_SLEEP_STATE) ch drv of
        (OK _, d) \<Rightarrow> rpmh_rsc_write_ctrl_data (ct_batch (drv_client d) RPMH_WAKE_ONLY_STATE) ch d
      | r \<Rightarrow> r)"

fun flush_cache :: "nat \<Rightarrow> cache_req list \<Rightarrow> rsc_drv \<Rightarrow> unit result \<times> rsc_drv" where
  "flush_cache ch [] drv = (OK (), drv)"
| "flush_cache ch (p # ps) drv =
     (if \<not> is_req_valid p then flush_cache ch ps drv
      else
        case send_single RPMH_SLEEP_STATE (cr_addr p) (cr_sleep p) ch drv of
          (OK _, d) \<Rightarrow>
            (case send_single RPMH_WAKE_ONLY_STATE (cr_addr p) (cr_wake p) ch d of
               (OK _, d') \<Rightarrow> flush_cache ch ps d'
             | r \<Rightarrow> r)
        | r \<Rightarrow> r)"

definition write_next_wakeup :: "rpmh_env \<Rightarrow> rsc_drv \<Rightarrow> rsc_drv" where
  "write_next_wakeup env drv =
     rpmh_rsc_write_next_wakeup (env_notifier env) (env_suspended env) (env_wakeup_us env) (env_lpj_hz env)
       (env_counter env) drv"

text \<open>\<^verbatim>\<open>_rpmh_flush\<close>.\<close>

definition do_rpmh_flush :: "rpmh_env \<Rightarrow> nat \<Rightarrow> rsc_drv \<Rightarrow> unit result \<times> rsc_drv" where
  "do_rpmh_flush env ch drv =
     (if \<not> ct_dirty (drv_client drv) then (OK (), write_next_wakeup env drv)
      else
        case flush_batch ch (rpmh_rsc_invalidate drv ch) of
          (OK _, d1) \<Rightarrow>
            (case flush_cache ch (ct_cache (drv_client d1)) d1 of
               (OK _, d2) \<Rightarrow>
                 (OK (), write_next_wakeup env (d2\<lparr>drv_client := (drv_client d2)\<lparr>ct_dirty := False\<rparr>\<rparr>))
             | r \<Rightarrow> r)
        | r \<Rightarrow> r)"

definition rpmh_flush :: "rpmh_env \<Rightarrow> nat \<Rightarrow> rsc_drv \<Rightarrow> unit result \<times> rsc_drv" where
  "rpmh_flush env ch drv = (if env_standalone env then (OK (), drv) else do_rpmh_flush env ch drv)"

definition rpmh_write_sleep_and_wake :: "rpmh_env \<Rightarrow> rsc_drv \<Rightarrow> (unit result \<times> rsc_drv) outcome" where
  "rpmh_write_sleep_and_wake env drv =
     obind (rpmh_rsc_get_channel drv (env_chn env)) (\<lambda>c.
       case c of
         Err e \<Rightarrow> Returns (Err e, drv)
       | UB \<Rightarrow> Returns (UB, drv)
       | OK ch \<Rightarrow>
           (case rpmh_flush env ch drv of
              (OK _, d) \<Rightarrow>
                if ct_flags (drv_client d) AND HW_CHANNEL_PRESENT = 0 then Returns (OK (), d)
                else Returns (rpmh_rsc_switch_channel (env_cmpl env) ch d)
            | r \<Rightarrow> Returns r))"

definition rpmh_write_sleep_and_wake_no_child :: "rpmh_env \<Rightarrow> rsc_drv \<Rightarrow> (unit result \<times> rsc_drv) outcome" where
  "rpmh_write_sleep_and_wake_no_child env drv =
     obind (rpmh_rsc_get_channel drv (env_chn env)) (\<lambda>c.
       case c of
         Err e \<Rightarrow> Bug
       | UB \<Rightarrow> Returns (UB, drv)
       | OK ch \<Rightarrow>
           (case rpmh_flush env ch drv of
              (OK _, d) \<Rightarrow>
                if ct_flags (drv_client d) AND HW_CHANNEL_PRESENT = 0 then Returns (OK (), d)
                else
                  (case rpmh_rsc_switch_channel (env_cmpl env) ch d of
                     (Err e, d') \<Rightarrow> Bug | r \<Rightarrow> Returns r)
            | r \<Rightarrow> Returns r))"

definition rpmh_invalidate :: "rpmh_env \<Rightarrow> rsc_drv \<Rightarrow> rsc_drv" where
  "rpmh_invalidate env drv =
     (if env_standalone env then drv
      else
        let ct = drv_client drv in
        drv\<lparr>drv_client := ct\<lparr>ct_batch := (ct_batch ct)(RPMH_SLEEP_STATE := zero_request, RPMH_WAKE_ONLY_STATE := zero_request),
                            ct_dirty := True\<rparr>\<rparr>)"

definition rpmh_mode_solver_set :: "rpmh_env \<Rightarrow> bool \<Rightarrow> rsc_drv \<Rightarrow> unit result \<times> rsc_drv" where
  "rpmh_mode_solver_set env enable drv =
     (if env_standalone env then (OK (), drv)
      else if ct_flags (drv_client drv) AND SOLVER_PRESENT = 0 then (Err EINVAL, drv)
      else
        case rpmh_rsc_mode_solver_set (env_trylock env) (env_fast env) enable drv of
          (OK _, d) \<Rightarrow> (OK (), d\<lparr>drv_client := (drv_client d)\<lparr>ct_in_solver_mode := enable\<rparr>\<rparr>)
        | r \<Rightarrow> r)"

text \<open>The requests of the fast path have no state of their own; it is not looked at.\<close>

definition fast_request :: "tcs_cmd list \<Rightarrow> tcs_request" where
  "fast_request cmds =
     \<lparr>rq_state = RPMH_ACTIVE_ONLY_STATE, rq_wait_for_compl = False, rq_cmds = cmds, rq_compl = None\<rparr>"

definition rpmh_init_fast_path :: "rpmh_env \<Rightarrow> tcs_cmd list \<Rightarrow> rsc_drv \<Rightarrow> (unit result \<times> rsc_drv) outcome" where
  "rpmh_init_fast_path env cmd drv =
     (if env_standalone env then Returns (OK (), drv)
      else
        obind (rpmh_rsc_get_channel drv (env_chn env)) (\<lambda>c.
          case c of
            Err e \<Rightarrow> Returns (Err e, drv)
          | UB \<Rightarrow> Returns (UB, drv)
          | OK ch \<Rightarrow> Returns (rpmh_rsc_init_fast_path (fast_request cmd) ch drv)))"

definition rpmh_update_fast_path :: "rpmh_env \<Rightarrow> tcs_cmd list \<Rightarrow> u32w \<Rightarrow> rsc_drv \<Rightarrow> (unit result \<times> rsc_drv) outcome" where
  "rpmh_update_fast_path env cmd update_mask drv =
     (if env_standalone env then Returns (OK (), drv)
      else
        obind (rpmh_rsc_get_channel drv (env_chn env)) (\<lambda>c.
          case c of
            Err e \<Rightarrow> Returns (Err e, drv)
          | UB \<Rightarrow> Returns (UB, drv)
          | OK ch \<Rightarrow> Returns (rpmh_rsc_update_fast_path (fast_request cmd) update_mask ch
                               (env_sts env (tg_offset (group drv ch FAST_PATH_TCS))) drv)))"

subsection \<open>Power management\<close>

definition rpmh_rsc_drv_enable :: "rpmh_env \<Rightarrow> bool \<Rightarrow> rsc_drv \<Rightarrow> (unit result \<times> rsc_drv) outcome" where
  "rpmh_rsc_drv_enable env enable drv =
     (if drv_base drv (drv_regs drv RSC_DRV_CHN_EN) = of_bool enable then Returns (Err EINVAL, drv)
      else if enable then
        (case rpmh_flush env 0 drv of
           (OK _, d) \<Rightarrow> Returns (rpmh_rsc_switch_channel (env_cmpl env) 0 (write_base d RSC_DRV_CHN_EN 1))
         | r \<Rightarrow> Returns r)
      else
        obind (rpmh_rsc_get_channel drv (env_chn env)) (\<lambda>c.
          case c of
            Err e \<Rightarrow> Returns (OK (), drv)
          | UB \<Rightarrow> Returns (UB, drv)
          | OK ch \<Rightarrow>
              (case rpmh_flush env ch drv of
                 (OK _, d) \<Rightarrow>
                   (case rpmh_rsc_switch_channel (env_cmpl env) ch d of
                      (OK _, d') \<Rightarrow> Returns (OK (), write_base (write_base d' RSC_DRV_CHN_UPDATE 0) RSC_DRV_CHN_EN 0)
                    | r \<Rightarrow> Returns r)
               | r \<Rightarrow> Returns r)))"

definition rpmh_drv_start :: "rpmh_env \<Rightarrow> rsc_drv \<Rightarrow> (unit result \<times> rsc_drv) outcome" where
  "rpmh_drv_start env drv =
     (if env_standalone env then Returns (OK (), drv)
      else obind (rpmh_rsc_drv_enable env True drv) (\<lambda>(r, d). case r of Err e \<Rightarrow> Bug | _ \<Rightarrow> Returns (r, d)))"

definition rpmh_drv_stop :: "rpmh_env \<Rightarrow> rsc_drv \<Rightarrow> (unit result \<times> rsc_drv) outcome" where
  "rpmh_drv_stop env drv =
     (if env_standalone env then Returns (OK (), drv)
      else obind (rpmh_rsc_drv_enable env False drv) (\<lambda>(r, d). case r of Err e \<Rightarrow> Bug | _ \<Rightarrow> Returns (r, d)))"

datatype pm_action = CPU_PM_ENTER | CPU_PM_ENTER_FAILED | CPU_PM_EXIT | CPU_PM_OTHER

datatype notify = NOTIFY_OK | NOTIFY_BAD | NOTIFY_DONE

text \<open>\<open>online\<close> and \<open>online'\<close> are the two readings of the number of online CPUs.\<close>

definition rpmh_rsc_cpu_pm_callback ::
  "rpmh_env \<Rightarrow> int \<Rightarrow> int \<Rightarrow> pm_action \<Rightarrow> rsc_drv \<Rightarrow> (notify \<times> rsc_drv) outcome" where
  "rpmh_rsc_cpu_pm_callback env online online' action drv =
     (case action of
        CPU_PM_ENTER \<Rightarrow>
          let d = drv\<lparr>drv_cpus_in_pm := drv_cpus_in_pm drv + 1\<rparr>; cpus_in_pm = drv_cpus_in_pm d in
          if cpus_in_pm < online then Returns (NOTIFY_OK, d)
          else if \<not> env_trylock env then Returns (NOTIFY_OK, d)
          else
            obind
              (obind (rpmh_rsc_get_channel d (env_chn env)) (\<lambda>c.
                 case c of
                   OK ch \<Rightarrow>
                     if rpmh_rsc_ctrlr_is_busy d (env_fast env) then Returns (NOTIFY_BAD, d)
                     else (case rpmh_flush env ch d of (OK _, d') \<Rightarrow> Returns (NOTIFY_OK, d') | (_, d') \<Rightarrow> Returns (NOTIFY_BAD, d'))
                 | _ \<Rightarrow> Returns (NOTIFY_BAD, d)))
              (\<lambda>(ret, d'). Returns
                 (if ret = NOTIFY_BAD then
                    (if cpus_in_pm < online' then (NOTIFY_OK, d')
                     else (NOTIFY_BAD, d'\<lparr>drv_cpus_in_pm := drv_cpus_in_pm d' - 1\<rparr>))
                  else (ret, d')))
      | CPU_PM_ENTER_FAILED \<Rightarrow> Returns (NOTIFY_OK, drv\<lparr>drv_cpus_in_pm := drv_cpus_in_pm drv - 1\<rparr>)
      | CPU_PM_EXIT \<Rightarrow> Returns (NOTIFY_OK, drv\<lparr>drv_cpus_in_pm := drv_cpus_in_pm drv - 1\<rparr>)
      | CPU_PM_OTHER \<Rightarrow> Returns (NOTIFY_DONE, drv))"

definition rpmh_rsc_pd_callback :: "rpmh_env \<Rightarrow> bool \<Rightarrow> rsc_drv \<Rightarrow> (notify \<times> rsc_drv) outcome" where
  "rpmh_rsc_pd_callback env pre_off drv =
     obind (rpmh_rsc_get_channel drv (env_chn env)) (\<lambda>c.
       if \<not> pre_off then Returns (NOTIFY_OK, drv)
       else
         case c of
           OK ch \<Rightarrow>
             if rpmh_rsc_ctrlr_is_busy drv (env_fast env) then Returns (NOTIFY_BAD, drv)
             else (case do_rpmh_flush env ch drv of (OK _, d) \<Rightarrow> Returns (NOTIFY_OK, d) | (_, d) \<Rightarrow> Returns (NOTIFY_BAD, d))
         | _ \<Rightarrow> Returns (NOTIFY_BAD, drv))"

end
