(* ===== verification/Rpmh_Tcs.thy ===== *)
theory Rpmh_Tcs
  imports Rpmh
begin

text \<open>
  The command sets as an abstract object: under a register layout without overlaps, what a
  command set holds is a set of enabled (address, data) pairs. The lemmas give the effect of every
  controller operation on it.
\<close>

subsection \<open>Register layout\<close>

definition layout_ok :: "(rsc_reg \<Rightarrow> nat) \<Rightarrow> nat \<Rightarrow> nat \<Rightarrow> bool" where
  "layout_ok regs stride ncpt =
     (distinct [regs RSC_DRV_CMD_WAIT_FOR_CMPL, regs RSC_DRV_CONTROL, regs RSC_DRV_CMD_ENABLE] \<and>
      list_all (\<lambda>r. regs RSC_DRV_IRQ_ENABLE < regs r \<and> regs RSC_DRV_IRQ_CLEAR < regs r \<and> regs r < regs RSC_DRV_CMD_MSGID)
        [RSC_DRV_CMD_WAIT_FOR_CMPL, RSC_DRV_CONTROL, RSC_DRV_CMD_ENABLE] \<and>
      regs RSC_DRV_CMD_ADDR = regs RSC_DRV_CMD_MSGID + 4 \<and> regs RSC_DRV_CMD_DATA = regs RSC_DRV_CMD_MSGID + 8 \<and>
      12 \<le> regs RSC_DRV_CMD_OFFSET \<and> regs RSC_DRV_CMD_MSGID + regs RSC_DRV_CMD_OFFSET * ncpt \<le> stride)"

abbreviation ctl_reg :: "rsc_reg \<Rightarrow> bool" where
  "ctl_reg r \<equiv> r = RSC_DRV_CMD_WAIT_FOR_CMPL \<or> r = RSC_DRV_CONTROL \<or> r = RSC_DRV_CMD_ENABLE"

abbreviation cmd_reg :: "rsc_reg \<Rightarrow> bool" where
  "cmd_reg r \<equiv> r = RSC_DRV_CMD_MSGID \<or> r = RSC_DRV_CMD_ADDR \<or> r = RSC_DRV_CMD_DATA"

abbreviation lay :: "rsc_drv \<Rightarrow> nat \<Rightarrow> bool" where
  "lay drv n \<equiv> layout_ok (drv_regs drv) (tcs_stride drv) n"

lemma stride_split:
  fixes s :: nat
  assumes "s * i + x = s * i' + x'" "x < s" "x' < s"
  shows "i = i' \<and> x = x'"
proof -
  have "(s * i + x) div s = i" "(s * i' + x') div s = i'" using assms(2,3) by simp_all
  then show ?thesis using assms(1) by simp
qed

lemma ctl_inside: "lay drv n \<Longrightarrow> ctl_reg r \<Longrightarrow> drv_regs drv r < tcs_stride drv"
  by (auto simp: layout_ok_def)

lemma cmd_inside:
  assumes "lay drv n" "cmd_reg r" "j < n"
  shows "drv_regs drv r + drv_regs drv RSC_DRV_CMD_OFFSET * j < tcs_stride drv"
proof -
  have "drv_regs drv RSC_DRV_CMD_OFFSET * j + drv_regs drv RSC_DRV_CMD_OFFSET \<le> drv_regs drv RSC_DRV_CMD_OFFSET * n"
    using assms(3) by (metis Suc_leI add.commute mult_Suc_right mult_le_mono2)
  then show ?thesis using assms(1,2) by (auto simp: layout_ok_def)
qed

lemma ctl_addr_eq:
  assumes "lay drv n" "ctl_reg r" "ctl_reg r'"
  shows "tcs_reg_addr drv r i = tcs_reg_addr drv r' i' \<longleftrightarrow> r = r' \<and> i = i'"
  using assms stride_split [of "tcs_stride drv" i "drv_regs drv r" i' "drv_regs drv r'"] ctl_inside [OF assms(1)]
  by (auto simp: tcs_reg_addr_def layout_ok_def)

lemma ctl_cmd_addr_neq:
  assumes "lay drv n" "ctl_reg r" "cmd_reg c" "j < n"
  shows "tcs_reg_addr drv r i \<noteq> tcs_cmd_addr drv c i' j"
proof
  assume "tcs_reg_addr drv r i = tcs_cmd_addr drv c i' j"
  then have "drv_regs drv r = drv_regs drv c + drv_regs drv RSC_DRV_CMD_OFFSET * j"
    using stride_split [of "tcs_stride drv" i "drv_regs drv r" i'] ctl_inside [OF assms(1,2)] cmd_inside [OF assms(1,3,4)]
    by (auto simp: tcs_cmd_addr_def tcs_reg_addr_def add.assoc)
  then show False using assms(1-3) by (auto simp: layout_ok_def)
qed

lemma cmd_offset_split:
  assumes "lay drv n" "cmd_reg c" "cmd_reg c'"
    "drv_regs drv c + drv_regs drv RSC_DRV_CMD_OFFSET * j = drv_regs drv c' + drv_regs drv RSC_DRV_CMD_OFFSET * j'"
  shows "c = c' \<and> j = j'"
proof -
  let ?o = "drv_regs drv RSC_DRV_CMD_OFFSET" and ?m = "drv_regs drv RSC_DRV_CMD_MSGID"
  obtain x x' where x: "drv_regs drv c = ?m + x" "drv_regs drv c' = ?m + x'" "x < ?o" "x' < ?o" "x = x' \<longleftrightarrow> c = c'"
  proof
    show "drv_regs drv c = ?m + (drv_regs drv c - ?m)" "drv_regs drv c' = ?m + (drv_regs drv c' - ?m)"
      "drv_regs drv c - ?m < ?o" "drv_regs drv c' - ?m < ?o" "drv_regs drv c - ?m = drv_regs drv c' - ?m \<longleftrightarrow> c = c'"
      using assms(1-3) by (auto simp: layout_ok_def)
  qed
  then have "?o * j + x = ?o * j' + x'" using assms(4) by simp
  then show ?thesis using stride_split x by blast
qed

lemma cmd_addr_eq:
  assumes "lay drv n" "cmd_reg c" "cmd_reg c'" "j < n" "j' < n"
  shows "tcs_cmd_addr drv c i j = tcs_cmd_addr drv c' i' j' \<longleftrightarrow> c = c' \<and> i = i' \<and> j = j'"
proof
  assume "tcs_cmd_addr drv c i j = tcs_cmd_addr drv c' i' j'"
  then have "i = i' \<and> drv_regs drv c + drv_regs drv RSC_DRV_CMD_OFFSET * j = drv_regs drv c' + drv_regs drv RSC_DRV_CMD_OFFSET * j'"
    using cmd_inside [OF assms(1,2,4)] cmd_inside [OF assms(1,3,5)]
    by (intro stride_split [of "tcs_stride drv"]) (auto simp: tcs_cmd_addr_def tcs_reg_addr_def add.assoc)
  then show "c = c' \<and> i = i' \<and> j = j'" using cmd_offset_split [OF assms(1-3)] by blast
qed simp

lemma irq_addr_neq:
  assumes "lay drv n" "q = RSC_DRV_IRQ_ENABLE \<or> q = RSC_DRV_IRQ_CLEAR"
  shows "ctl_reg r \<Longrightarrow> drv_regs drv q \<noteq> tcs_reg_addr drv r i"
    "cmd_reg c \<Longrightarrow> drv_regs drv q \<noteq> tcs_cmd_addr drv c i j"
  using assms by (auto simp: layout_ok_def tcs_reg_addr_def tcs_cmd_addr_def)

subsection \<open>Shape\<close>

text \<open>The parts of a controller no operation on its command sets changes.\<close>

definition static_group :: "tcs_group \<Rightarrow> tcs_type \<times> u32w \<times> nat \<times> nat \<times> nat" where
  "static_group g = (tg_type g, tg_mask g, tg_offset g, tg_num_tcs g, tg_ncpt g)"

definition shape :: "rsc_drv \<Rightarrow> (rsc_reg \<Rightarrow> nat) \<times> nat \<times> nat \<times> (nat \<Rightarrow> tcs_type \<Rightarrow> tcs_type \<times> u32w \<times> nat \<times> nat \<times> nat) \<times> (nat \<Rightarrow> bool)" where
  "shape drv = (drv_regs drv, drv_tcs_distance drv, drv_num_channels drv,
     (\<lambda>ch ty. static_group (group drv ch ty)), (\<lambda>ch. ch_initialized (drv_ch drv ch)))"

lemma shapeD:
  assumes "shape d' = shape d"
  shows "drv_regs d' = drv_regs d" "tcs_stride d' = tcs_stride d" "drv_num_channels d' = drv_num_channels d"
    "tg_offset (group d' ch ty) = tg_offset (group d ch ty)" "tg_num_tcs (group d' ch ty) = tg_num_tcs (group d ch ty)"
    "tg_ncpt (group d' ch ty) = tg_ncpt (group d ch ty)" "tg_mask (group d' ch ty) = tg_mask (group d ch ty)"
    "tg_type (group d' ch ty) = tg_type (group d ch ty)"
    "ch_initialized (drv_ch d' ch) = ch_initialized (drv_ch d ch)"
    "tcs_reg_addr d' = tcs_reg_addr d" "tcs_cmd_addr d' = tcs_cmd_addr d"
proof -
  show r: "drv_regs d' = drv_regs d" "drv_num_channels d' = drv_num_channels d" and s: "tcs_stride d' = tcs_stride d"
    using assms by (auto simp: shape_def tcs_stride_def)
  have "static_group (group d' ch ty) = static_group (group d ch ty)"
    using assms by (auto simp: shape_def dest: fun_cong)
  then show "tg_offset (group d' ch ty) = tg_offset (group d ch ty)" "tg_num_tcs (group d' ch ty) = tg_num_tcs (group d ch ty)"
    "tg_ncpt (group d' ch ty) = tg_ncpt (group d ch ty)" "tg_mask (group d' ch ty) = tg_mask (group d ch ty)"
    "tg_type (group d' ch ty) = tg_type (group d ch ty)"
    by (auto simp: static_group_def)
  show "ch_initialized (drv_ch d' ch) = ch_initialized (drv_ch d ch)" using assms by (auto simp: shape_def dest: fun_cong)
  show "tcs_reg_addr d' = tcs_reg_addr d" "tcs_cmd_addr d' = tcs_cmd_addr d"
    using r s by (auto simp: fun_eq_iff tcs_reg_addr_def tcs_cmd_addr_def)
qed

lemma shape_writes [simp]:
  "shape (write_tcs_reg drv r i v) = shape drv" "shape (write_tcs_reg_sync drv r i v) = shape drv"
  "shape (write_tcs_cmd drv r i j v) = shape drv" "shape (enable_tcs_irq drv i b) = shape drv"
  "shape (drv\<lparr>drv_in_use := u\<rparr>) = shape drv" "shape (drv\<lparr>drv_hw := h\<rparr>) = shape drv" "shape (drv\<lparr>drv_client := ct\<rparr>) = shape drv"
  "shape (drv\<lparr>drv_done := dn\<rparr>) = shape drv" "shape (drv\<lparr>drv_base := bs\<rparr>) = shape drv"
  "shape (drv\<lparr>drv_in_solver_mode := b\<rparr>) = shape drv" "shape (drv\<lparr>drv_cpus_in_pm := k\<rparr>) = shape drv"
  by (simp_all add: shape_def write_tcs_reg_def write_tcs_reg_sync_def write_tcs_cmd_def enable_tcs_irq_def Let_def)

lemma shape_set_group:
  "static_group g = static_group (group drv ch ty) \<Longrightarrow> shape (set_group drv ch ty g) = shape drv"
  by (auto simp: shape_def set_group_def fun_eq_iff)

lemma lay_shape: "shape d' = shape d \<Longrightarrow> lay d' n = lay d n"
  using shapeD(1,2) [of d' d] by simp

subsection \<open>What a command set holds\<close>

definition enabled :: "rsc_drv \<Rightarrow> nat \<Rightarrow> nat \<Rightarrow> bool" where
  "enabled drv i j = bit (read_tcs_reg drv RSC_DRV_CMD_ENABLE i) j"

definition slot_cmd :: "rsc_drv \<Rightarrow> nat \<Rightarrow> nat \<Rightarrow> u32w \<times> u32w" where
  "slot_cmd drv i j = (read_tcs_cmd drv RSC_DRV_CMD_ADDR i j, read_tcs_cmd drv RSC_DRV_CMD_DATA i j)"

lemma addr_write [simp]:
  "tcs_reg_addr (write_tcs_reg drv r i v) = tcs_reg_addr drv" "tcs_cmd_addr (write_tcs_reg drv r i v) = tcs_cmd_addr drv"
  "tcs_reg_addr (write_tcs_cmd drv r i j v) = tcs_reg_addr drv" "tcs_cmd_addr (write_tcs_cmd drv r i j v) = tcs_cmd_addr drv"
  by (rule shapeD(10) [OF shape_writes(1)] shapeD(11) [OF shape_writes(1)]
      shapeD(10) [OF shape_writes(3)] shapeD(11) [OF shape_writes(3)])+

lemma hw_write:
  "drv_hw (write_tcs_reg drv r i v) = (drv_hw drv)(tcs_reg_addr drv r i := v)"
  "drv_hw (write_tcs_cmd drv r i j v) = (drv_hw drv)(tcs_cmd_addr drv r i j := v)"
  by (simp_all add: write_tcs_reg_def write_tcs_cmd_def)

lemma read_reg_write_reg:
  assumes "lay drv n" "ctl_reg r" "ctl_reg r'"
  shows "read_tcs_reg (write_tcs_reg drv r i v) r' i' = (if r = r' \<and> i = i' then v else read_tcs_reg drv r' i')"
  unfolding read_tcs_reg_def addr_write hw_write fun_upd_apply
  using ctl_addr_eq [OF assms(1,3,2), of i' i] by (simp only: eq_commute [of r] eq_commute [of i])

lemma read_cmd_write_reg:
  assumes "lay drv n" "ctl_reg r" "cmd_reg c" "j < n"
  shows "read_tcs_cmd (write_tcs_reg drv r i v) c i' j = read_tcs_cmd drv c i' j"
  unfolding read_tcs_cmd_def addr_write hw_write fun_upd_apply
  using ctl_cmd_addr_neq [OF assms, of i i'] by (simp only: eq_commute if_False)

lemma read_reg_write_cmd:
  assumes "lay drv n" "ctl_reg r" "cmd_reg c" "j < n"
  shows "read_tcs_reg (write_tcs_cmd drv c i' j v) r i = read_tcs_reg drv r i"
  unfolding read_tcs_reg_def addr_write hw_write fun_upd_apply
  using ctl_cmd_addr_neq [OF assms, of i i'] by (simp only: if_False)

lemma read_cmd_write_cmd:
  assumes "lay drv n" "cmd_reg c" "cmd_reg c'" "j < n" "j' < n"
  shows "read_tcs_cmd (write_tcs_cmd drv c i j v) c' i' j' =
    (if c = c' \<and> i = i' \<and> j = j' then v else read_tcs_cmd drv c' i' j')"
  unfolding read_tcs_cmd_def addr_write hw_write fun_upd_apply
  using cmd_addr_eq [OF assms, of i i'] by (simp only: eq_commute [of "tcs_cmd_addr drv c' i' j'"])

lemma irq_write_frame:
  assumes "lay drv n" "q = RSC_DRV_IRQ_ENABLE \<or> q = RSC_DRV_IRQ_CLEAR" "d' = drv\<lparr>drv_hw := (drv_hw drv)(drv_regs drv q := v)\<rparr>"
  shows "ctl_reg r \<Longrightarrow> read_tcs_reg d' r i = read_tcs_reg drv r i"
    "cmd_reg c \<Longrightarrow> read_tcs_cmd d' c i j = read_tcs_cmd drv c i j"
    "enabled d' i j = enabled drv i j" "slot_cmd d' i j = slot_cmd drv i j"
proof -
  have s: "shape d' = shape drv" unfolding assms(3) by (rule shape_writes)
  have hw: "drv_hw d' = (drv_hw drv)(drv_regs drv q := v)" unfolding assms(3) by simp
  show r: "read_tcs_reg d' r i = read_tcs_reg drv r i" if "ctl_reg r" for r i
    unfolding read_tcs_reg_def shapeD(10) [OF s] hw fun_upd_apply
    by (simp only: irq_addr_neq(1) [OF assms(1,2) that, symmetric] if_False)
  show c: "read_tcs_cmd d' c i j = read_tcs_cmd drv c i j" if "cmd_reg c" for c i j
    unfolding read_tcs_cmd_def shapeD(11) [OF s] hw fun_upd_apply
    by (simp only: irq_addr_neq(2) [OF assms(1,2) that, symmetric] if_False)
  show "enabled d' i j = enabled drv i j" "slot_cmd d' i j = slot_cmd drv i j"
    unfolding enabled_def slot_cmd_def by (simp_all only: r c simp_thms)
qed

lemma irq_frame:
  assumes "lay drv n"
  shows "enabled (enable_tcs_irq drv k b) i j = enabled drv i j"
    "slot_cmd (enable_tcs_irq drv k b) i j = slot_cmd drv i j"
  by (rule irq_write_frame(3,4) [OF assms disjI1 [OF refl]], simp add: enable_tcs_irq_def Let_def)+

lemma bit_BIT: "bit (BIT i) j \<longleftrightarrow> i = j \<and> j < 32"
  by (auto simp: BIT_def bit_simps)

text \<open>Operations that change nothing but the command-set window.\<close>

definition hw_only :: "rsc_drv \<Rightarrow> rsc_drv \<Rightarrow> bool" where
  "hw_only d' d = (d' = d\<lparr>drv_hw := drv_hw d'\<rparr>)"

lemma hw_only_iff: "hw_only d' d \<longleftrightarrow> (\<exists>h. d' = d\<lparr>drv_hw := h\<rparr>)"
  by (auto simp: hw_only_def)

lemma hw_only_refl [simp]: "hw_only d d"
  by (simp add: hw_only_def)

lemma hw_only_upd: "hw_only (d\<lparr>drv_hw := h\<rparr>) d"
  by (simp add: hw_only_def)

lemma hw_only_writes [simp]:
  "hw_only (write_tcs_reg d r i v) d" "hw_only (write_tcs_reg_sync d r i v) d" "hw_only (write_tcs_cmd d r i j v) d"
  "hw_only (enable_tcs_irq d k b) d"
  unfolding write_tcs_reg_def write_tcs_reg_sync_def write_tcs_cmd_def enable_tcs_irq_def Let_def by (rule hw_only_upd)+

lemma hw_only_trans: "hw_only d2 d1 \<Longrightarrow> hw_only d1 d0 \<Longrightarrow> hw_only d2 d0"
  by (auto simp: hw_only_iff)

lemma hw_onlyD:
  assumes "hw_only d' d"
  shows "shape d' = shape d" "drv_ch d' = drv_ch d" "drv_in_use d' = drv_in_use d" "drv_client d' = drv_client d"
    "drv_done d' = drv_done d" "drv_base d' = drv_base d" "drv_in_solver_mode d' = drv_in_solver_mode d"
    "drv_num_tcs d' = drv_num_tcs d" "drv_num_channels d' = drv_num_channels d" "drv_control_tcs d' = drv_control_tcs d"
  using assms by (auto simp: hw_only_iff)

subsection \<open>Writing commands\<close>

lemma cmd_regs: "cmd_reg RSC_DRV_CMD_MSGID" "cmd_reg RSC_DRV_CMD_ADDR" "cmd_reg RSC_DRV_CMD_DATA"
  and ctl_regs: "ctl_reg RSC_DRV_CMD_WAIT_FOR_CMPL" "ctl_reg RSC_DRV_CONTROL" "ctl_reg RSC_DRV_CMD_ENABLE"
  by simp_all

definition write_one :: "nat \<Rightarrow> nat \<Rightarrow> u32w \<Rightarrow> tcs_cmd \<Rightarrow> rsc_drv \<Rightarrow> rsc_drv" where
  "write_one t j mid c drv =
     write_tcs_cmd (write_tcs_cmd (write_tcs_cmd drv RSC_DRV_CMD_MSGID t j mid) RSC_DRV_CMD_ADDR t j (cmd_addr c))
       RSC_DRV_CMD_DATA t j (cmd_data c)"

lemma write_one_effect:
  assumes "lay drv n" "j < n"
  shows "shape (write_one t j mid c drv) = shape drv"
    "hw_only (write_one t j mid c drv) drv"
    "ctl_reg r \<Longrightarrow> read_tcs_reg (write_one t j mid c drv) r i = read_tcs_reg drv r i"
    "k < n \<Longrightarrow> slot_cmd (write_one t j mid c drv) i k = (if i = t \<and> k = j then (cmd_addr c, cmd_data c) else slot_cmd drv i k)"
proof -
  let ?d1 = "write_tcs_cmd drv RSC_DRV_CMD_MSGID t j mid"
  let ?d2 = "write_tcs_cmd ?d1 RSC_DRV_CMD_ADDR t j (cmd_addr c)"
  have s: "shape ?d1 = shape drv" "shape ?d2 = shape drv" by (simp_all only: shape_writes)
  have l: "lay ?d1 n" "lay ?d2 n" unfolding lay_shape [OF s(1)] lay_shape [OF s(2)] by (rule assms(1))+
  show "shape (write_one t j mid c drv) = shape drv" by (simp add: write_one_def)
  show "hw_only (write_one t j mid c drv) drv"
    unfolding write_one_def by (meson hw_only_writes hw_only_trans)
  show "read_tcs_reg (write_one t j mid c drv) r i = read_tcs_reg drv r i" if "ctl_reg r"
    unfolding write_one_def
    by (simp only: read_reg_write_cmd [OF l(2) that cmd_regs(3) assms(2)] read_reg_write_cmd [OF l(1) that cmd_regs(2) assms(2)]
        read_reg_write_cmd [OF assms(1) that cmd_regs(1) assms(2)])
  show "slot_cmd (write_one t j mid c drv) i k = (if i = t \<and> k = j then (cmd_addr c, cmd_data c) else slot_cmd drv i k)" if "k < n"
  proof -
    note rd = read_cmd_write_cmd [OF l(2) cmd_regs(3) cmd_regs(2) assms(2) that] read_cmd_write_cmd [OF l(2) cmd_regs(3) cmd_regs(3) assms(2) that]
      read_cmd_write_cmd [OF l(1) cmd_regs(2) cmd_regs(2) assms(2) that] read_cmd_write_cmd [OF l(1) cmd_regs(2) cmd_regs(3) assms(2) that]
      read_cmd_write_cmd [OF assms(1) cmd_regs(1) cmd_regs(2) assms(2) that] read_cmd_write_cmd [OF assms(1) cmd_regs(1) cmd_regs(3) assms(2) that]
    show ?thesis unfolding slot_cmd_def write_one_def rd by auto
  qed
qed

lemma tcs_write_cmds_effect:
  assumes "lay drv n" "j + length cs \<le> n" "n \<le> 32"
    "tcs_write_cmds t j mid cs en co drv = (d', en', co')"
  shows "shape d' = shape drv" "hw_only d' drv"
    "bit en' k \<longleftrightarrow> bit en k \<or> (j \<le> k \<and> k < j + length cs)"
    "ctl_reg r \<Longrightarrow> read_tcs_reg d' r i = read_tcs_reg drv r i"
    "k < n \<Longrightarrow> slot_cmd d' i k =
       (if i = t \<and> j \<le> k \<and> k < j + length cs then (cmd_addr (cs ! (k - j)), cmd_data (cs ! (k - j)))
        else slot_cmd drv i k)"
proof -
  have "shape d' = shape drv \<and> hw_only d' drv \<and>
    (bit en' k \<longleftrightarrow> bit en k \<or> (j \<le> k \<and> k < j + length cs)) \<and>
    (ctl_reg r \<longrightarrow> read_tcs_reg d' r i = read_tcs_reg drv r i) \<and>
    (k < n \<longrightarrow> slot_cmd d' i k =
       (if i = t \<and> j \<le> k \<and> k < j + length cs then (cmd_addr (cs ! (k - j)), cmd_data (cs ! (k - j)))
        else slot_cmd drv i k))"
    using assms
  proof (induction cs arbitrary: j en co drv)
    case (Cons c cs)
    let ?d3 = "write_one t j (mid OR (if cmd_wait c \<noteq> 0 then CMD_MSGID_RESP_REQ else 0)) c drv"
    have j: "j < n" using Cons.prems(2) by simp
    note w = write_one_effect [OF Cons.prems(1) j, where t = t and mid = "mid OR (if cmd_wait c \<noteq> 0 then CMD_MSGID_RESP_REQ else 0)" and c = c]
    have l: "lay ?d3 n" unfolding lay_shape [OF w(1)] by (rule Cons.prems(1))
    have le: "Suc j + length cs \<le> n" using Cons.prems(2) by simp
    have eq: "tcs_write_cmds t (Suc j) mid cs (en OR BIT j) (co OR push_bit j (cmd_wait c)) ?d3 = (d', en', co')"
      using Cons.prems(4) by (simp only: tcs_write_cmds.simps Let_def write_one_def)
    note IH = Cons.IH [OF l le Cons.prems(3) eq]
    note IH1 = IH [THEN conjunct1] and IH2 = IH [THEN conjunct2, THEN conjunct1]
      and IH3 = IH [THEN conjunct2, THEN conjunct2, THEN conjunct1]
      and IH4 = IH [THEN conjunct2, THEN conjunct2, THEN conjunct2, THEN conjunct1]
      and IH5 = IH [THEN conjunct2, THEN conjunct2, THEN conjunct2, THEN conjunct2]
    have same: "hw_only d' drv" using IH2 w(2) by (rule hw_only_trans)
    have bits: "bit en' k \<longleftrightarrow> bit en k \<or> (j \<le> k \<and> k < j + length (c # cs))"
      using IH3 j Cons.prems(3) by (auto simp: bit_simps bit_BIT)
    have nth: "(c # cs) ! (k - j) = cs ! (k - Suc j)" if "Suc j \<le> k" using that by (simp add: nth_Cons')
    have slot: "slot_cmd d' i k =
         (if i = t \<and> j \<le> k \<and> k < j + length (c # cs) then (cmd_addr ((c # cs) ! (k - j)), cmd_data ((c # cs) ! (k - j)))
          else slot_cmd drv i k)" if "k < n"
    proof (cases "k = j")
      case False
      then show ?thesis using IH5 w(4) [OF that, of i] nth that by (cases "Suc j \<le> k") simp_all
    qed (use IH5 w(4) [OF that, of i] that in simp)
    have "shape d' = shape drv" using IH1 w(1) by (rule trans)
    moreover have "ctl_reg r \<longrightarrow> read_tcs_reg d' r i = read_tcs_reg drv r i" using IH4 w(3) [of r i] by argo
    ultimately show ?case using same bits slot by blast
  qed auto
  then show "shape d' = shape drv" "hw_only d' drv"
    "bit en' k \<longleftrightarrow> bit en k \<or> (j \<le> k \<and> k < j + length cs)"
    "ctl_reg r \<Longrightarrow> read_tcs_reg d' r i = read_tcs_reg drv r i"
    "k < n \<Longrightarrow> slot_cmd d' i k =
       (if i = t \<and> j \<le> k \<and> k < j + length cs then (cmd_addr (cs ! (k - j)), cmd_data (cs ! (k - j)))
        else slot_cmd drv i k)" by auto
qed

lemma tcs_buffer_write_effect:
  assumes "lay drv n" "c + length (rq_cmds msg) \<le> n" "n \<le> 32" "d' = tcs_buffer_write drv t c msg"
  shows "shape d' = shape drv" "hw_only d' drv"
    "enabled d' i k \<longleftrightarrow> enabled drv i k \<or> (i = t \<and> c \<le> k \<and> k < c + length (rq_cmds msg))"
    "k < n \<Longrightarrow> slot_cmd d' i k =
       (if i = t \<and> c \<le> k \<and> k < c + length (rq_cmds msg)
        then (cmd_addr (rq_cmds msg ! (k - c)), cmd_data (rq_cmds msg ! (k - c))) else slot_cmd drv i k)"
proof -
  let ?mid = "(CMD_MSGID_LEN OR CMD_MSGID_WRITE) OR (if rq_wait_for_compl msg then CMD_MSGID_RESP_REQ else 0)"
  let ?co = "read_tcs_reg drv RSC_DRV_CMD_WAIT_FOR_CMPL t"
  obtain d1 en co where w: "tcs_write_cmds t c ?mid (rq_cmds msg) 0 ?co drv = (d1, en, co)"
    by (cases "tcs_write_cmds t c ?mid (rq_cmds msg) 0 ?co drv") auto
  note e = tcs_write_cmds_effect [OF assms(1,2,3) w]
  let ?d2 = "write_tcs_reg d1 RSC_DRV_CMD_WAIT_FOR_CMPL t co"
  have d': "d' = write_tcs_reg ?d2 RSC_DRV_CMD_ENABLE t (en OR read_tcs_reg ?d2 RSC_DRV_CMD_ENABLE t)"
    using w by (simp add: assms(4) tcs_buffer_write_def Let_def)
  have s2: "shape ?d2 = shape drv" using e(1) by (simp only: shape_writes)
  have l: "lay d1 n" "lay ?d2 n" unfolding lay_shape [OF e(1)] lay_shape [OF s2] by (rule assms(1))+
  show "shape d' = shape drv" unfolding d' shape_writes by (rule e(1))
  show "hw_only d' drv" unfolding d' using e(2) by (meson hw_only_writes hw_only_trans)
  have en1: "read_tcs_reg ?d2 RSC_DRV_CMD_ENABLE i' = read_tcs_reg drv RSC_DRV_CMD_ENABLE i'" for i'
    using read_reg_write_reg [OF l(1) ctl_regs(1) ctl_regs(3), of t co i'] e(4) [OF ctl_regs(3), of i'] by simp
  have en2: "read_tcs_reg d' RSC_DRV_CMD_ENABLE i =
      (if t = i then en OR read_tcs_reg drv RSC_DRV_CMD_ENABLE t else read_tcs_reg drv RSC_DRV_CMD_ENABLE i)"
    unfolding d' en1 using read_reg_write_reg [OF l(2) ctl_regs(3) ctl_regs(3), of t _ i] en1 [of i] by simp
  show "enabled d' i k \<longleftrightarrow> enabled drv i k \<or> (i = t \<and> c \<le> k \<and> k < c + length (rq_cmds msg))"
    unfolding enabled_def en2 using e(3) [of k] by (auto simp: bit_simps)
  show "slot_cmd d' i k =
       (if i = t \<and> c \<le> k \<and> k < c + length (rq_cmds msg)
        then (cmd_addr (rq_cmds msg ! (k - c)), cmd_data (rq_cmds msg ! (k - c))) else slot_cmd drv i k)" if "k < n"
  proof -
    have "slot_cmd d' i k = slot_cmd d1 i k"
      unfolding d' slot_cmd_def
      by (simp only: read_cmd_write_reg [OF l(2) ctl_regs(3) cmd_regs(2) that] read_cmd_write_reg [OF l(2) ctl_regs(3) cmd_regs(3) that]
          read_cmd_write_reg [OF l(1) ctl_regs(1) cmd_regs(2) that] read_cmd_write_reg [OF l(1) ctl_regs(1) cmd_regs(3) that])
    then show ?thesis using e(5) [OF that, of i] by simp
  qed
qed

end
