(* ===== verification/Rpmh_Slots.thy ===== *)
theory Rpmh_Slots
  imports Rpmh_Tcs
begin

text \<open>
  The search for free command slots is sound and complete, and writing a request into a sleep or wake
  group adds exactly its commands to what the group holds.
\<close>

subsection \<open>The search for slots\<close>

lemma area_free_iff: "area_free bits i n \<longleftrightarrow> (\<forall>k. i \<le> k \<and> k < i + n \<longrightarrow> \<not> bits k)"
  by (auto simp: area_free_def list_all_iff)

lemma zero_area_first:
  assumes "i \<le> x" "x < bitmap_find_next_zero_area bits n i nr" "x + nr \<le> n"
  shows "\<not> area_free bits x nr"
proof (cases "find (\<lambda>i. area_free bits i nr) [i..<Suc n - nr]")
  case None
  then show ?thesis using assms by (auto simp: find_None_iff)
next
  case (Some a)
  then obtain k where k: "k < length [i..<Suc n - nr]" "a = [i..<Suc n - nr] ! k" "\<forall>j<k. \<not> area_free bits ([i..<Suc n - nr] ! j) nr"
    by (auto simp: find_Some_iff)
  have "bitmap_find_next_zero_area bits n i nr = a" using Some by (simp add: bitmap_find_next_zero_area_def)
  then have "x - i < k" using k assms by auto
  then have "\<not> area_free bits ([i..<Suc n - nr] ! (x - i)) nr" using k(3) by blast
  moreover have "[i..<Suc n - nr] ! (x - i) = x" using assms k \<open>x - i < k\<close> by simp
  ultimately show ?thesis by simp
qed

lemma find_slot_sound:
  assumes "find_slot_from g n i = Some slot" "0 < n" "tg_ncpt g dvd i"
  shows "area_free (tg_slots g) slot n \<and> slot + n \<le> tg_ncpt g * tg_num_tcs g \<and> slot mod tg_ncpt g + n \<le> tg_ncpt g"
  using assms
proof (induction g n i rule: find_slot_from.induct)
  case (1 g n i)
  let ?z = "bitmap_find_next_zero_area (tg_slots g) (tg_ncpt g * tg_num_tcs g) i n"
  have lt: "?z < tg_ncpt g * tg_num_tcs g"
    using "1.prems"(1) by (subst (asm) find_slot_from.simps) (auto simp: Let_def mult.commute split: if_splits)
  note z = zero_area_found [OF lt "1.prems"(2)]
  show ?case
  proof (cases "?z + n - 1 \<ge> i + tg_ncpt g")
    case True
    have "find_slot_from g n (i + tg_ncpt g) = Some slot"
      using "1.prems"(1) lt True by (subst (asm) find_slot_from.simps) (simp add: Let_def mult.commute)
    then show ?thesis using "1.IH" [OF refl _ True] lt "1.prems"(2,3) by (simp add: mult.commute)
  next
    case False
    then have slot: "slot = ?z"
      using "1.prems"(1) lt by (subst (asm) find_slot_from.simps) (simp add: Let_def mult.commute)
    obtain r where r: "?z = i + r" using z le_Suc_ex by blast
    have "r + n \<le> tg_ncpt g" using False r "1.prems"(2) by simp
    moreover have "?z mod tg_ncpt g = r"
      using "1.prems"(2,3) r calculation by (auto simp: dvd_def)
    ultimately show ?thesis using z slot by simp
  qed
qed

lemma find_slot_complete:
  assumes "find_slot_from g n i = None" "0 < n" "tg_ncpt g dvd i" "i \<le> k * tg_ncpt g" "k < tg_num_tcs g" "c + n \<le> tg_ncpt g"
  shows "\<not> area_free (tg_slots g) (k * tg_ncpt g + c) n"
  using assms
proof (induction g n i rule: find_slot_from.induct)
  case (1 g n i)
  let ?N = "tg_ncpt g * tg_num_tcs g"
  let ?z = "bitmap_find_next_zero_area (tg_slots g) ?N i n"
  have "Suc k * tg_ncpt g \<le> tg_num_tcs g * tg_ncpt g" using "1.prems"(5) by (intro mult_le_mono1) simp
  then have fits: "k * tg_ncpt g + c + n \<le> ?N" using "1.prems"(6) by (simp add: mult.commute)
  show ?case
  proof (cases "?z \<ge> ?N")
    case True
    then show ?thesis using zero_area_first [of i "k * tg_ncpt g + c" "tg_slots g" ?N n] "1.prems"(2,4) fits by simp
  next
    case False
    then have go: "?z + n - 1 \<ge> i + tg_ncpt g" "find_slot_from g n (i + tg_ncpt g) = None"
      using "1.prems"(1) by (subst (asm) find_slot_from.simps, auto simp: Let_def mult.commute split: if_splits)+
    show ?thesis
    proof (cases "i = k * tg_ncpt g")
      case True
      then show ?thesis
        using zero_area_first [of i "k * tg_ncpt g + c" "tg_slots g" ?N n] go(1) fits "1.prems"(2,6) by simp
    next
      case False
      obtain q where q: "i = q * tg_ncpt g" using "1.prems"(3) by (auto simp: dvd_def mult.commute)
      then have "q < k" using False "1.prems"(4) by (metis mult_le_cancel2 le_neq_implies_less not_le_imp_less order_less_imp_le le_antisym)
      then have "Suc q * tg_ncpt g \<le> k * tg_ncpt g" by (intro mult_le_mono1) simp
      then have "i + tg_ncpt g \<le> k * tg_ncpt g" using q by simp
      then show ?thesis using "1.IH" [OF refl _ go(1) go(2)] \<open>\<not> ?N \<le> ?z\<close> "1.prems" by (simp add: mult.commute)
    qed
  qed
qed

lemma find_slots_effect:
  assumes "find_slots g msg = OK (g', t, c)" "rq_cmds msg \<noteq> []"
  shows "static_group g' = static_group g" "c + length (rq_cmds msg) \<le> tg_ncpt g"
    "tg_offset g \<le> t" "t < tg_offset g + tg_num_tcs g"
    "c \<le> j \<Longrightarrow> j < c + length (rq_cmds msg) \<Longrightarrow> \<not> tg_slots g ((t - tg_offset g) * tg_ncpt g + j)"
    "tg_slots g' k \<longleftrightarrow> tg_slots g k \<or>
       ((t - tg_offset g) * tg_ncpt g + c \<le> k \<and> k < (t - tg_offset g) * tg_ncpt g + c + length (rq_cmds msg))"
proof -
  let ?n = "length (rq_cmds msg)"
  obtain slot where s: "find_slot_from g ?n 0 = Some slot" "g' = g\<lparr>tg_slots := bitmap_set (tg_slots g) slot ?n\<rparr>"
    "t = slot div tg_ncpt g + tg_offset g" "c = slot mod tg_ncpt g"
    using assms(1) by (auto simp: find_slots_def split: option.splits)
  have a: "area_free (tg_slots g) slot ?n \<and> slot + ?n \<le> tg_ncpt g * tg_num_tcs g \<and> c + ?n \<le> tg_ncpt g"
    using find_slot_sound [OF s(1)] assms(2) s(4) by simp
  have pos: "(t - tg_offset g) * tg_ncpt g + c = slot" by (simp add: s(3,4))
  have "slot < tg_num_tcs g * tg_ncpt g" using a assms(2) by (cases "rq_cmds msg") (auto simp: mult.commute)
  then show "t < tg_offset g + tg_num_tcs g" by (simp add: s(3) less_mult_imp_div_less)
  show "static_group g' = static_group g" "c + ?n \<le> tg_ncpt g" "tg_offset g \<le> t" using a s by (auto simp: static_group_def)
  show "\<not> tg_slots g ((t - tg_offset g) * tg_ncpt g + j)" if "c \<le> j" "j < c + ?n"
    using a pos that unfolding area_free_iff by auto
  show "tg_slots g' k \<longleftrightarrow> tg_slots g k \<or>
       ((t - tg_offset g) * tg_ncpt g + c \<le> k \<and> k < (t - tg_offset g) * tg_ncpt g + c + ?n)"
    unfolding pos by (auto simp: s(2) bitmap_set_def)
qed

subsection \<open>Contents of a group\<close>

definition tcs_contents :: "rsc_drv \<Rightarrow> nat \<Rightarrow> tcs_type \<Rightarrow> (u32w \<times> u32w) list" where
  "tcs_contents drv ch ty =
     concat (map (\<lambda>i. map (slot_cmd drv i) (filter (enabled drv i) [0..<tg_ncpt (group drv ch ty)]))
       [tg_offset (group drv ch ty)..<tg_offset (group drv ch ty) + tg_num_tcs (group drv ch ty)])"

definition in_group :: "tcs_group \<Rightarrow> nat \<Rightarrow> bool" where
  "in_group g i = (tg_offset g \<le> i \<and> i < tg_offset g + tg_num_tcs g)"

definition synced :: "rsc_drv \<Rightarrow> nat \<Rightarrow> tcs_type \<Rightarrow> bool" where
  "synced drv ch ty =
     (\<forall>i j. in_group (group drv ch ty) i \<and> j < tg_ncpt (group drv ch ty) \<and> enabled drv i j \<longrightarrow>
        tg_slots (group drv ch ty) ((i - tg_offset (group drv ch ty)) * tg_ncpt (group drv ch ty) + j))"

text \<open>All groups of a channel have the same number of commands per set, and these fit the registers.\<close>

definition chan_ok :: "rsc_drv \<Rightarrow> nat \<Rightarrow> nat \<Rightarrow> bool" where
  "chan_ok drv ch n = (lay drv n \<and> n \<le> 32 \<and> (\<forall>ty. tg_ncpt (group drv ch ty) = n))"

lemma contents_iff:
  "x \<in> set (tcs_contents drv ch ty) \<longleftrightarrow>
     (\<exists>i j. in_group (group drv ch ty) i \<and> j < tg_ncpt (group drv ch ty) \<and> enabled drv i j \<and> x = slot_cmd drv i j)"
  by (auto simp: tcs_contents_def in_group_def)

lemma contents_cong:
  assumes "shape d' = shape d"
    "\<And>i j. in_group (group d ch ty) i \<Longrightarrow> j < tg_ncpt (group d ch ty) \<Longrightarrow>
       enabled d' i j = enabled d i j \<and> slot_cmd d' i j = slot_cmd d i j"
  shows "tcs_contents d' ch ty = tcs_contents d ch ty"
  unfolding tcs_contents_def shapeD(4-6) [OF assms(1)]
  using assms(2) by (intro arg_cong [where f = concat] map_cong refl filter_cong) (auto simp: in_group_def)

lemma synced_cong:
  assumes "shape d' = shape d" "tg_slots (group d' ch ty) = tg_slots (group d ch ty)"
    "\<And>i j. in_group (group d ch ty) i \<Longrightarrow> j < tg_ncpt (group d ch ty) \<Longrightarrow> enabled d' i j = enabled d i j"
  shows "synced d' ch ty = synced d ch ty"
  unfolding synced_def in_group_def shapeD(4-6) [OF assms(1)] assms(2)
  using assms(3) unfolding in_group_def by blast

lemma chan_ok_shape: "shape d' = shape d \<Longrightarrow> chan_ok d' ch n = chan_ok d ch n"
  unfolding chan_ok_def using lay_shape [of d' d n] shapeD(6) [of d' d] by simp

lemma in_group_shape: "shape d' = shape d \<Longrightarrow> in_group (group d' ch ty) = in_group (group d ch ty)"
  using shapeD(4,5) [of d' d] by (simp add: fun_eq_iff in_group_def)

definition disjoint_groups :: "rsc_drv \<Rightarrow> nat \<Rightarrow> tcs_type \<Rightarrow> tcs_type \<Rightarrow> bool" where
  "disjoint_groups drv ch ty ty' = (\<forall>i. \<not> (in_group (group drv ch ty) i \<and> in_group (group drv ch ty') i))"

lemma disjoint_shape: "shape d' = shape d \<Longrightarrow> disjoint_groups d' ch ty ty' = disjoint_groups d ch ty ty'"
  unfolding disjoint_groups_def using in_group_shape [of d' d] by simp

subsection \<open>Writing a request into a sleep or wake group\<close>

definition state_tcs :: "rpmh_state \<Rightarrow> tcs_type" where
  "state_tcs state = (if state = RPMH_SLEEP_STATE then SLEEP_TCS else WAKE_TCS)"

lemma get_tcs_state: "state \<noteq> RPMH_ACTIVE_ONLY_STATE \<Longrightarrow> get_tcs_for_msg drv state ch = state_tcs state"
  by (cases state) (auto simp: get_tcs_for_msg_def state_tcs_def)

lemma set_group_access:
  "enabled (set_group drv ch ty g) i j = enabled drv i j" "slot_cmd (set_group drv ch ty g) i j = slot_cmd drv i j"
  "group (set_group drv ch ty g) ch ty = g" "ty' \<noteq> ty \<or> ch' \<noteq> ch \<Longrightarrow> group (set_group drv ch ty g) ch' ty' = group drv ch' ty'"
  "drv_client (set_group drv ch ty g) = drv_client drv" "drv_in_use (set_group drv ch ty g) = drv_in_use drv"
  "drv_control_tcs (set_group drv ch ty g) = drv_control_tcs drv"
  "drv_in_solver_mode (set_group drv ch ty g) = drv_in_solver_mode drv"
  by (auto simp: set_group_def enabled_def slot_cmd_def read_tcs_reg_def read_tcs_cmd_def tcs_reg_addr_def tcs_cmd_addr_def
      tcs_stride_def)

text \<open>A successful write fills slots that were free in one command set of the group.\<close>

lemma write_ctrl_data_fills:
  assumes "rq_state msg \<noteq> RPMH_ACTIVE_ONLY_STATE" "rq_cmds msg \<noteq> []" "ty = state_tcs (rq_state msg)" "chan_ok drv ch n"
    "synced drv ch ty" "rpmh_rsc_write_ctrl_data msg ch drv = (OK (), d')"
  obtains t c where "in_group (group drv ch ty) t" "c + length (rq_cmds msg) \<le> n" "shape d' = shape drv"
    "drv_client d' = drv_client drv" "drv_in_use d' = drv_in_use drv" "drv_control_tcs d' = drv_control_tcs drv"
    "\<And>k. c \<le> k \<Longrightarrow> k < c + length (rq_cmds msg) \<Longrightarrow> \<not> enabled drv t k"
    "\<And>i k. enabled d' i k \<longleftrightarrow> enabled drv i k \<or> (i = t \<and> c \<le> k \<and> k < c + length (rq_cmds msg))"
    "\<And>i k. k < n \<Longrightarrow> slot_cmd d' i k = (if i = t \<and> c \<le> k \<and> k < c + length (rq_cmds msg)
        then (cmd_addr (rq_cmds msg ! (k - c)), cmd_data (rq_cmds msg ! (k - c))) else slot_cmd drv i k)"
    "synced d' ch ty" "\<And>ty'. ty' \<noteq> ty \<Longrightarrow> group d' ch ty' = group drv ch ty'"
proof -
  let ?g = "group drv ch ty" and ?n = "length (rq_cmds msg)"
  have ctl: "rpmh_rsc_write_ctrl_data msg ch drv =
      (case find_slots ?g msg of
         OK (tcs, tcs_id, cmd_id) \<Rightarrow> (OK (), tcs_buffer_write (set_group drv ch ty tcs) tcs_id cmd_id msg)
       | Err e \<Rightarrow> (Err e, drv) | UB \<Rightarrow> (UB, drv))"
    using assms(2) unfolding rpmh_rsc_write_ctrl_data_def get_tcs_state [OF assms(1)] assms(3) [symmetric] by simp
  obtain g' t c where f: "find_slots ?g msg = OK (g', t, c)" and d': "d' = tcs_buffer_write (set_group drv ch ty g') t c msg"
    using assms(6) unfolding ctl by (auto split: result.splits)
  note fe = find_slots_effect [OF f assms(2)]
  let ?d = "set_group drv ch ty g'"
  have sh: "shape ?d = shape drv" by (rule shape_set_group [OF fe(1)])
  have n: "tg_ncpt ?g = n" "n \<le> 32" "lay ?d n" using assms(4) lay_shape [OF sh] by (auto simp: chan_ok_def)
  have le: "c + ?n \<le> n" using fe(2) n(1) by simp
  note b = tcs_buffer_write_effect [OF n(3) le n(2) d']
  note h = hw_onlyD [OF b(2)]
  have grp: "group d' ch ty = g'" "\<And>ty'. ty' \<noteq> ty \<Longrightarrow> group d' ch ty' = group drv ch ty'"
    using h(2) set_group_access(3,4) by auto
  have g': "tg_offset g' = tg_offset ?g" "tg_num_tcs g' = tg_num_tcs ?g" "tg_ncpt g' = tg_ncpt ?g"
    using fe(1) by (auto simp: static_group_def)
  have en: "enabled d' i k \<longleftrightarrow> enabled drv i k \<or> (i = t \<and> c \<le> k \<and> k < c + ?n)" for i k
    using b(3) [of i k] by (simp only: set_group_access)
  have sl: "slot_cmd d' i k = (if i = t \<and> c \<le> k \<and> k < c + ?n
      then (cmd_addr (rq_cmds msg ! (k - c)), cmd_data (rq_cmds msg ! (k - c))) else slot_cmd drv i k)"
    if "k < n" for i k
    using b(4) [OF that, of i] by (simp only: set_group_access)
  have "in_group ?g t" using fe(3,4) by (simp add: in_group_def)
  moreover have "shape d' = shape drv" using b(1) sh by simp
  moreover have "\<not> enabled drv t k" if "c \<le> k" "k < c + ?n" for k
    using assms(5) fe(2) fe(3,4) fe(5) [OF that] that unfolding synced_def in_group_def by (metis less_le_trans)
  moreover have "synced d' ch ty"
    unfolding synced_def grp(1) in_group_def g' en
  proof (intro allI impI, elim conjE disjE)
    fix i j assume "tg_offset ?g \<le> i" "i < tg_offset ?g + tg_num_tcs ?g" "j < tg_ncpt ?g" "enabled drv i j"
    then show "tg_slots g' ((i - tg_offset ?g) * tg_ncpt ?g + j)"
      using assms(5) fe(6) unfolding synced_def in_group_def by blast
  next
    fix i j assume "i = t" "c \<le> j" "j < c + ?n"
    then show "tg_slots g' ((i - tg_offset ?g) * tg_ncpt ?g + j)" using fe(6) by simp
  qed
  ultimately show thesis
    using that [of t c] le en sl grp(2) h(3,4,10) set_group_access(5-7) by simp
qed

definition votes :: "tcs_cmd list \<Rightarrow> (u32w \<times> u32w) list" where
  "votes cs = map (\<lambda>c. (cmd_addr c, cmd_data c)) cs"

lemma write_ctrl_data_contents:
  assumes "rq_state msg \<noteq> RPMH_ACTIVE_ONLY_STATE" "rq_cmds msg \<noteq> []" "ty = state_tcs (rq_state msg)" "chan_ok drv ch n"
    "synced drv ch ty" "rpmh_rsc_write_ctrl_data msg ch drv = (OK (), d')"
  shows "set (tcs_contents d' ch ty) = set (tcs_contents drv ch ty) \<union> set (votes (rq_cmds msg))"
proof -
  let ?g = "group drv ch ty" and ?n = "length (rq_cmds msg)"
  obtain t c where w: "in_group ?g t" "c + ?n \<le> n" "shape d' = shape drv"
    "\<And>k. c \<le> k \<Longrightarrow> k < c + ?n \<Longrightarrow> \<not> enabled drv t k"
    "\<And>i k. enabled d' i k \<longleftrightarrow> enabled drv i k \<or> (i = t \<and> c \<le> k \<and> k < c + ?n)"
    "\<And>i k. k < n \<Longrightarrow> slot_cmd d' i k = (if i = t \<and> c \<le> k \<and> k < c + ?n
        then (cmd_addr (rq_cmds msg ! (k - c)), cmd_data (rq_cmds msg ! (k - c))) else slot_cmd drv i k)"
    by (rule write_ctrl_data_fills [OF assms]) (rule that; assumption)
  have n: "tg_ncpt ?g = n" using assms(4) by (simp add: chan_ok_def)
  have mem: "y \<in> set (tcs_contents d' ch ty) \<longleftrightarrow>
      (\<exists>i k. in_group ?g i \<and> k < n \<and> enabled d' i k \<and> y = slot_cmd d' i k)" for y
    unfolding contents_iff in_group_shape [OF w(3)] shapeD(6) [OF w(3)] n ..
  show ?thesis
  proof (intro set_eqI iffI)
    fix y assume "y \<in> set (tcs_contents d' ch ty)"
    then obtain i k where ik: "in_group ?g i" "k < n" "enabled d' i k" "y = slot_cmd d' i k" unfolding mem by blast
    show "y \<in> set (tcs_contents drv ch ty) \<union> set (votes (rq_cmds msg))"
    proof (cases "i = t \<and> c \<le> k \<and> k < c + ?n")
      case True
      then have "y = (cmd_addr (rq_cmds msg ! (k - c)), cmd_data (rq_cmds msg ! (k - c)))" "k - c < ?n"
        using w(6) [OF ik(2), of i] ik(4) by auto
      then show ?thesis by (auto simp: votes_def)
    next
      case False
      then have "enabled drv i k" "y = slot_cmd drv i k" using w(5) ik(3,4) w(6) [OF ik(2), of i] by auto
      then show ?thesis using ik(1,2) contents_iff n by blast
    qed
  next
    fix y assume "y \<in> set (tcs_contents drv ch ty) \<union> set (votes (rq_cmds msg))"
    then consider (old) "y \<in> set (tcs_contents drv ch ty)"
      | (new) k where "k < ?n" "y = (cmd_addr (rq_cmds msg ! k), cmd_data (rq_cmds msg ! k))"
      by (auto simp: in_set_conv_nth votes_def)
    then show "y \<in> set (tcs_contents d' ch ty)"
    proof cases
      case old
      then obtain i k where ik: "in_group ?g i" "k < n" "enabled drv i k" "y = slot_cmd drv i k"
        unfolding contents_iff n by blast
      moreover have "\<not> (i = t \<and> c \<le> k \<and> k < c + ?n)" using w(4) ik(3) by blast
      ultimately have "enabled d' i k" "y = slot_cmd d' i k" using w(5) w(6) [OF ik(2), of i] by auto
      then show ?thesis using ik(1,2) unfolding mem by blast
    next
      case new
      have "c + k < n" using w(2) new(1) by simp
      moreover have "enabled d' t (c + k)" using w(5) new(1) by simp
      moreover have "y = slot_cmd d' t (c + k)" using w(6) [OF calculation(1), of t] new by simp
      ultimately show ?thesis using w(1) unfolding mem by blast
    qed
  qed
qed

lemma write_ctrl_data_other:
  assumes "rq_state msg \<noteq> RPMH_ACTIVE_ONLY_STATE" "rq_cmds msg \<noteq> []" "ty = state_tcs (rq_state msg)" "chan_ok drv ch n"
    "synced drv ch ty" "rpmh_rsc_write_ctrl_data msg ch drv = (OK (), d')" "disjoint_groups drv ch ty ty'" "ty' \<noteq> ty"
  shows "tcs_contents d' ch ty' = tcs_contents drv ch ty'" "synced d' ch ty' = synced drv ch ty'"
proof -
  obtain t c where w: "in_group (group drv ch ty) t" "shape d' = shape drv"
    "\<And>i k. enabled d' i k \<longleftrightarrow> enabled drv i k \<or> (i = t \<and> c \<le> k \<and> k < c + length (rq_cmds msg))"
    "\<And>i k. k < n \<Longrightarrow> slot_cmd d' i k = (if i = t \<and> c \<le> k \<and> k < c + length (rq_cmds msg)
        then (cmd_addr (rq_cmds msg ! (k - c)), cmd_data (rq_cmds msg ! (k - c))) else slot_cmd drv i k)"
    "\<And>ty'. ty' \<noteq> ty \<Longrightarrow> group d' ch ty' = group drv ch ty'"
    by (rule write_ctrl_data_fills [OF assms(1-6)]) (rule that; assumption)
  have n: "tg_ncpt (group drv ch ty') = n" using assms(4) by (simp add: chan_ok_def)
  have "i \<noteq> t" if "in_group (group drv ch ty') i" for i
    using that assms(7) w(1) unfolding disjoint_groups_def by blast
  then have same: "enabled d' i j = enabled drv i j" "j < n \<Longrightarrow> slot_cmd d' i j = slot_cmd drv i j"
    if "in_group (group drv ch ty') i" for i j
    using that w(3) [of i j] w(4) [of j i] by auto
  show "tcs_contents d' ch ty' = tcs_contents drv ch ty'"
    by (rule contents_cong [OF w(2)]) (use same n in auto)
  show "synced d' ch ty' = synced drv ch ty'"
    by (rule synced_cong [OF w(2)]) (use same w(5) [OF assms(8)] in auto)
qed

lemma write_ctrl_data_fails:
  assumes "rpmh_rsc_write_ctrl_data msg ch drv = (r, d')"
  shows "r = OK () \<or> (r = Err ENOMEM \<and> d' = drv)"
  using assms by (auto simp: rpmh_rsc_write_ctrl_data_def find_slots_def Let_def split: if_splits option.splits)

subsection \<open>The state of a channel between flushes\<close>

definition flush_inv :: "nat \<Rightarrow> nat \<Rightarrow> rsc_drv \<Rightarrow> bool" where
  "flush_inv n ch drv =
     (chan_ok drv ch n \<and> synced drv ch SLEEP_TCS \<and> synced drv ch WAKE_TCS \<and> disjoint_groups drv ch SLEEP_TCS WAKE_TCS)"

definition keeps :: "rsc_drv \<Rightarrow> rsc_drv \<Rightarrow> bool" where
  "keeps d' d =
     (shape d' = shape d \<and> drv_client d' = drv_client d \<and> drv_in_use d' = drv_in_use d \<and> drv_control_tcs d' = drv_control_tcs d)"

lemma keeps_refl [simp]: "keeps d d"
  by (simp add: keeps_def)

lemma keeps_trans: "keeps d2 d1 \<Longrightarrow> keeps d1 d0 \<Longrightarrow> keeps d2 d0"
  by (simp add: keeps_def)

lemma disjoint_sym: "disjoint_groups d ch a b = disjoint_groups d ch b a"
  by (auto simp: disjoint_groups_def)

lemma write_step:
  assumes "flush_inv n ch drv" "rq_cmds msg = [] \<or> rq_state msg \<noteq> RPMH_ACTIVE_ONLY_STATE"
    "rpmh_rsc_write_ctrl_data msg ch drv = (r, d')"
  shows "flush_inv n ch d'" "keeps d' drv" "r = OK () \<or> r = Err ENOMEM"
    "r = OK () \<Longrightarrow> ty = SLEEP_TCS \<or> ty = WAKE_TCS \<Longrightarrow> set (tcs_contents d' ch ty) =
       set (tcs_contents drv ch ty) \<union> (if state_tcs (rq_state msg) = ty then set (votes (rq_cmds msg)) else {})"
proof -
  have "flush_inv n ch d' \<and> keeps d' drv \<and> (r = OK () \<or> r = Err ENOMEM) \<and>
    (r = OK () \<longrightarrow> ty = SLEEP_TCS \<or> ty = WAKE_TCS \<longrightarrow> set (tcs_contents d' ch ty) =
       set (tcs_contents drv ch ty) \<union> (if state_tcs (rq_state msg) = ty then set (votes (rq_cmds msg)) else {}))"
  proof (cases "r = OK () \<and> rq_cmds msg \<noteq> []")
    case False
    then have "d' = drv \<and> (r = OK () \<or> r = Err ENOMEM) \<and> (r = OK () \<longrightarrow> rq_cmds msg = [])"
      using write_ctrl_data_fails [OF assms(3)] assms(3) by (auto simp: rpmh_rsc_write_ctrl_data_def)
    then show ?thesis using assms(1) by (auto simp: votes_def)
  next
    case True
    then have st: "rq_state msg \<noteq> RPMH_ACTIVE_ONLY_STATE" using assms(2) by blast
    define s where "s = state_tcs (rq_state msg)"
    have s: "s = SLEEP_TCS \<or> s = WAKE_TCS" by (auto simp: s_def state_tcs_def)
    have c: "chan_ok drv ch n" "synced drv ch s" using assms(1) s by (auto simp: flush_inv_def)
    have dj: "disjoint_groups drv ch s o'" if "o' = SLEEP_TCS \<or> o' = WAKE_TCS" "o' \<noteq> s" for o'
      using that s assms(1) disjoint_sym unfolding flush_inv_def by metis
    have ok: "rpmh_rsc_write_ctrl_data msg ch drv = (OK (), d')" using assms(3) True by simp
    note args = st True [THEN conjunct2] s_def c ok
    have w: "shape d' = shape drv" "drv_client d' = drv_client drv" "drv_in_use d' = drv_in_use drv"
      "drv_control_tcs d' = drv_control_tcs drv" "synced d' ch s"
      by (rule write_ctrl_data_fills [OF args], assumption)+
    have oth: "tcs_contents d' ch o' = tcs_contents drv ch o' \<and> synced d' ch o' = synced drv ch o'"
      if "o' = SLEEP_TCS \<or> o' = WAKE_TCS" "o' \<noteq> s" for o'
      using write_ctrl_data_other [OF args dj [OF that] that(2)] by blast
    have "synced d' ch SLEEP_TCS \<and> synced d' ch WAKE_TCS"
      using oth w(5) assms(1) s unfolding flush_inv_def by metis
    then have "flush_inv n ch d'"
      using assms(1) chan_ok_shape [OF w(1)] disjoint_shape [OF w(1)] by (simp add: flush_inv_def)
    moreover have "keeps d' drv" using w by (simp add: keeps_def)
    moreover have "set (tcs_contents d' ch ty) =
       set (tcs_contents drv ch ty) \<union> (if state_tcs (rq_state msg) = ty then set (votes (rq_cmds msg)) else {})"
      if "ty = SLEEP_TCS \<or> ty = WAKE_TCS"
      using write_ctrl_data_contents [OF args] oth [OF that] unfolding s_def by (cases "state_tcs (rq_state msg) = ty") auto
    ultimately show ?thesis using True by blast
  qed
  then show "flush_inv n ch d'" "keeps d' drv" "r = OK () \<or> r = Err ENOMEM"
    "r = OK () \<Longrightarrow> ty = SLEEP_TCS \<or> ty = WAKE_TCS \<Longrightarrow> set (tcs_contents d' ch ty) =
       set (tcs_contents drv ch ty) \<union> (if state_tcs (rq_state msg) = ty then set (votes (rq_cmds msg)) else {})"
    by blast+
qed

end
