(* ===== verification/Rpmh_Flush.thy ===== *)
theory Rpmh_Flush
  imports Rpmh_Slots
begin

text \<open>
  The flush: invalidation empties the sleep and wake groups, and a successful flush leaves in them
  exactly the cached batch and single votes.
\<close>

subsection \<open>Invalidation\<close>

lemma disable_tcs_effect:
  assumes "lay drv n" "d' = disable_tcs m drv"
  shows "hw_only d' drv" "enabled d' i j \<longleftrightarrow> i \<noteq> m \<and> enabled drv i j" "j < n \<Longrightarrow> slot_cmd d' i j = slot_cmd drv i j"
proof -
  let ?d1 = "write_tcs_reg drv RSC_DRV_CMD_ENABLE m 0"
  have d': "d' = write_tcs_reg ?d1 RSC_DRV_CMD_WAIT_FOR_CMPL m 0"
    by (simp add: assms(2) disable_tcs_def write_tcs_reg_sync_def)
  have s: "shape ?d1 = shape drv" by (rule shape_writes)
  have l: "lay ?d1 n" unfolding lay_shape [OF s] by (rule assms(1))
  show "hw_only d' drv" unfolding d' by (meson hw_only_writes hw_only_trans)
  show "enabled d' i j \<longleftrightarrow> i \<noteq> m \<and> enabled drv i j"
    unfolding enabled_def d' read_reg_write_reg [OF l ctl_regs(1) ctl_regs(3)] read_reg_write_reg [OF assms(1) ctl_regs(3) ctl_regs(3)]
    by auto
  show "slot_cmd d' i j = slot_cmd drv i j" if "j < n"
    unfolding d' slot_cmd_def
    by (simp only: read_cmd_write_reg [OF l ctl_regs(1) cmd_regs(2) that] read_cmd_write_reg [OF l ctl_regs(1) cmd_regs(3) that]
        read_cmd_write_reg [OF assms(1) ctl_regs(3) cmd_regs(2) that] read_cmd_write_reg [OF assms(1) ctl_regs(3) cmd_regs(3) that])
qed

lemma disable_fold_effect:
  assumes "lay drv n" "d' = fold disable_tcs ms drv"
  shows "hw_only d' drv \<and> (enabled d' i j \<longleftrightarrow> i \<notin> set ms \<and> enabled drv i j) \<and> (j < n \<longrightarrow> slot_cmd d' i j = slot_cmd drv i j)"
  using assms
proof (induction ms arbitrary: drv)
  case (Cons m ms)
  note e = disable_tcs_effect [OF Cons.prems(1) refl, where m = m]
  have l: "lay (disable_tcs m drv) n"
    unfolding lay_shape [OF hw_onlyD(1) [OF e(1)]] by (rule Cons.prems(1))
  have d': "d' = fold disable_tcs ms (disable_tcs m drv)" using Cons.prems(2) by simp
  have IH: "hw_only d' (disable_tcs m drv)" "enabled d' i j \<longleftrightarrow> i \<notin> set ms \<and> enabled (disable_tcs m drv) i j"
    "j < n \<Longrightarrow> slot_cmd d' i j = slot_cmd (disable_tcs m drv) i j"
    using Cons.IH [OF l d'] by blast+
  have "hw_only d' drv" using IH(1) e(1) by (rule hw_only_trans)
  moreover have "enabled d' i j \<longleftrightarrow> i \<notin> set (m # ms) \<and> enabled drv i j"
    unfolding IH(2) e(2) by (simp only: list.set insert_iff de_Morgan_disj conj_ac)
  moreover have "j < n \<longrightarrow> slot_cmd d' i j = slot_cmd drv i j" using IH(3) e(3) [where j = j and i = i] by argo
  ultimately show ?case by blast
qed simp

lemma tcs_invalidate_effect:
  assumes "chan_ok drv ch n" "synced drv ch ty" "d' = tcs_invalidate drv ty ch"
  shows "keeps d' drv" "set (tcs_contents d' ch ty) = {}" "synced d' ch ty"
    "disjoint_groups drv ch ty ty' \<Longrightarrow> ty' \<noteq> ty \<Longrightarrow> tcs_contents d' ch ty' = tcs_contents drv ch ty'"
    "disjoint_groups drv ch ty ty' \<Longrightarrow> ty' \<noteq> ty \<Longrightarrow> synced d' ch ty' = synced drv ch ty'"
proof -
  let ?g = "group drv ch ty"
  have n: "\<And>ty. tg_ncpt (group drv ch ty) = n" "lay drv n" using assms(1) by (auto simp: chan_ok_def)
  have slot: "(i - tg_offset ?g) * n + j < n * tg_num_tcs ?g" if "in_group ?g i" "j < n" for i j
  proof -
    have "Suc (i - tg_offset ?g) * n \<le> tg_num_tcs ?g * n" using that(1) by (intro mult_le_mono1) (auto simp: in_group_def)
    then show ?thesis using that(2) by (simp add: mult.commute)
  qed
  have off: "\<not> enabled d' i j" if "in_group ?g i" "j < n" for i j
  proof (cases "bitmap_empty (tg_slots ?g) (tg_ncpt ?g * tg_num_tcs ?g)")
    case True
    then have "\<not> tg_slots ?g ((i - tg_offset ?g) * n + j)" using slot [OF that] by (auto simp: bitmap_empty_def list_all_iff n)
    moreover have "d' = drv" using True by (simp add: assms(3) tcs_invalidate_def)
    ultimately show ?thesis using assms(2) that unfolding synced_def n by blast
  next
    case False
    then have "d' = set_group (fold disable_tcs [tg_offset ?g..<tg_offset ?g + tg_num_tcs ?g] drv) ch ty
        (?g\<lparr>tg_slots := bitmap_zero (tg_slots ?g) (tg_ncpt ?g * tg_num_tcs ?g)\<rparr>)"
      by (simp add: assms(3) tcs_invalidate_def Let_def)
    then have "enabled d' i j = enabled (fold disable_tcs [tg_offset ?g..<tg_offset ?g + tg_num_tcs ?g] drv) i j"
      by (simp only: set_group_access)
    then show ?thesis using disable_fold_effect [OF n(2) refl, of _ i j] that(1) by (simp add: in_group_def)
  qed
  have "keeps d' drv \<and> (\<forall>i j. \<not> in_group ?g i \<longrightarrow> enabled d' i j = enabled drv i j) \<and>
    (\<forall>i j. j < n \<longrightarrow> slot_cmd d' i j = slot_cmd drv i j) \<and> (\<forall>ty'. ty' \<noteq> ty \<longrightarrow> group d' ch ty' = group drv ch ty')"
  proof (cases "bitmap_empty (tg_slots ?g) (tg_ncpt ?g * tg_num_tcs ?g)")
    case True
    then have "d' = drv" by (simp add: assms(3) tcs_invalidate_def)
    then show ?thesis by simp
  next
    case False
    define f where "f = fold disable_tcs [tg_offset ?g..<tg_offset ?g + tg_num_tcs ?g] drv"
    define g' where "g' = ?g\<lparr>tg_slots := bitmap_zero (tg_slots ?g) (tg_ncpt ?g * tg_num_tcs ?g)\<rparr>"
    have d': "d' = set_group f ch ty g'"
      using False by (simp add: assms(3) tcs_invalidate_def Let_def f_def g'_def)
    note e = disable_fold_effect [OF n(2) f_def]
    have h: "hw_only f drv" using e by blast
    note hd = hw_onlyD [OF h]
    have "static_group g' = static_group (group f ch ty)" using hd(2) by (simp add: g'_def static_group_def)
    then have "shape d' = shape drv" using shape_set_group hd(1) by (simp only: d')
    moreover have "drv_client d' = drv_client drv \<and> drv_in_use d' = drv_in_use drv \<and> drv_control_tcs d' = drv_control_tcs drv"
      using hd(3,4,10) by (simp only: d' set_group_access simp_thms)
    moreover have "enabled d' i j = enabled drv i j" if "\<not> in_group ?g i" for i j
      using e [of i j] that unfolding d' set_group_access by (auto simp: in_group_def)
    moreover have "slot_cmd d' i j = slot_cmd drv i j" if "j < n" for i j
      using e [of i j] that unfolding d' set_group_access by blast
    moreover have "group d' ch ty' = group drv ch ty'" if "ty' \<noteq> ty" for ty'
      using set_group_access(4) [of ty' ty ch ch f g'] that hd(2) by (simp add: d')
    ultimately show ?thesis by (simp add: keeps_def)
  qed
  then have k: "keeps d' drv" and oe: "\<And>i j. \<not> in_group ?g i \<Longrightarrow> enabled d' i j = enabled drv i j"
    and sc: "\<And>i j. j < n \<Longrightarrow> slot_cmd d' i j = slot_cmd drv i j" and og: "\<And>ty'. ty' \<noteq> ty \<Longrightarrow> group d' ch ty' = group drv ch ty'"
    by blast+
  have sh: "shape d' = shape drv" using k by (simp add: keeps_def)
  show "keeps d' drv" by (rule k)
  show "set (tcs_contents d' ch ty) = {}"
    using off unfolding set_eq_iff contents_iff in_group_shape [OF sh] shapeD(6) [OF sh] n by blast
  show "synced d' ch ty"
    using off unfolding synced_def in_group_shape [OF sh] shapeD(6) [OF sh] n by blast
  show "tcs_contents d' ch ty' = tcs_contents drv ch ty'" if "disjoint_groups drv ch ty ty'" "ty' \<noteq> ty"
    by (rule contents_cong [OF sh]) (use that oe sc n in \<open>auto simp: disjoint_groups_def\<close>)
  show "synced d' ch ty' = synced drv ch ty'" if "disjoint_groups drv ch ty ty'" "ty' \<noteq> ty"
    by (rule synced_cong [OF sh]) (use that oe og in \<open>auto simp: disjoint_groups_def\<close>)
qed

lemma rsc_invalidate_effect:
  assumes "flush_inv n ch drv" "d' = rpmh_rsc_invalidate drv ch"
  shows "keeps d' drv" "flush_inv n ch d'" "set (tcs_contents d' ch SLEEP_TCS) = {}" "set (tcs_contents d' ch WAKE_TCS) = {}"
proof -
  define d1 where "d1 = tcs_invalidate drv SLEEP_TCS ch"
  have d': "d' = tcs_invalidate d1 WAKE_TCS ch" by (simp add: assms(2) rpmh_rsc_invalidate_def d1_def)
  have i: "chan_ok drv ch n" "synced drv ch SLEEP_TCS" "synced drv ch WAKE_TCS" "disjoint_groups drv ch SLEEP_TCS WAKE_TCS"
    using assms(1) by (auto simp: flush_inv_def)
  note e1 = tcs_invalidate_effect [OF i(1,2) d1_def]
  have sh1: "shape d1 = shape drv" using e1(1) by (simp add: keeps_def)
  have c1: "chan_ok d1 ch n" using i(1) chan_ok_shape [OF sh1] by simp
  have s1: "synced d1 ch WAKE_TCS" using e1(5) [OF i(4)] i(3) by simp
  note e2 = tcs_invalidate_effect [OF c1 s1 d']
  have dj: "disjoint_groups d1 ch WAKE_TCS SLEEP_TCS" using i(4) disjoint_shape [OF sh1] disjoint_sym by blast
  show k: "keeps d' drv" using e2(1) e1(1) by (rule keeps_trans)
  then have sh: "shape d' = shape drv" by (simp add: keeps_def)
  show "set (tcs_contents d' ch WAKE_TCS) = {}" by (rule e2(2))
  show "set (tcs_contents d' ch SLEEP_TCS) = {}" using e2(4) [OF dj] e1(2) by simp
  have "synced d' ch SLEEP_TCS" using e2(5) [OF dj] e1(3) by simp
  then show "flush_inv n ch d'"
    using e2(3) i(1,4) chan_ok_shape [OF sh] disjoint_shape [OF sh] by (simp add: flush_inv_def)
qed

subsection \<open>The flush\<close>

definition batch_ok :: "rpmh_ctrlr \<Rightarrow> bool" where
  "batch_ok ct =
     list_all (\<lambda>st. rq_cmds (ct_batch ct st) = [] \<or> rq_state (ct_batch ct st) = st) [RPMH_SLEEP_STATE, RPMH_WAKE_ONLY_STATE]"

text \<open>What the cache asks the two groups to hold.\<close>

definition cached_votes :: "rpmh_ctrlr \<Rightarrow> tcs_type \<Rightarrow> (u32w \<times> u32w) list" where
  "cached_votes ct ty =
     (if ty = SLEEP_TCS
      then votes (rq_cmds (ct_batch ct RPMH_SLEEP_STATE)) @ map (\<lambda>r. (cr_addr r, cr_sleep r)) (filter is_req_valid (ct_cache ct))
      else votes (rq_cmds (ct_batch ct RPMH_WAKE_ONLY_STATE)) @ map (\<lambda>r. (cr_addr r, cr_wake r)) (filter is_req_valid (ct_cache ct)))"

abbreviation sw :: "tcs_type \<Rightarrow> bool" where
  "sw ty \<equiv> ty = SLEEP_TCS \<or> ty = WAKE_TCS"

lemma send_single_step:
  assumes "flush_inv n ch drv" "st \<noteq> RPMH_ACTIVE_ONLY_STATE" "send_single st a v ch drv = (r, d')"
  shows "flush_inv n ch d'" "keeps d' drv" "r = OK () \<or> r = Err ENOMEM"
    "r = OK () \<Longrightarrow> sw ty \<Longrightarrow> set (tcs_contents d' ch ty) = set (tcs_contents drv ch ty) \<union> (if state_tcs st = ty then {(a, v)} else {})"
proof -
  let ?m = "\<lparr>rq_state = st, rq_wait_for_compl = (st = RPMH_WAKE_ONLY_STATE),
        rq_cmds = [\<lparr>cmd_addr = a, cmd_data = v, cmd_wait = 0\<rparr>], rq_compl = None\<rparr>"
  have m: "rpmh_rsc_write_ctrl_data ?m ch drv = (r, d')" using assms(3) by (simp only: send_single_def)
  have st: "rq_cmds ?m = [] \<or> rq_state ?m \<noteq> RPMH_ACTIVE_ONLY_STATE" using assms(2) by simp
  note w = write_step [OF assms(1) st m]
  show "flush_inv n ch d'" "keeps d' drv" "r = OK () \<or> r = Err ENOMEM" by (rule w)+
  show "set (tcs_contents d' ch ty) = set (tcs_contents drv ch ty) \<union> (if state_tcs st = ty then {(a, v)} else {})"
    if "r = OK ()" "sw ty" using w(4) [OF that] by (simp add: votes_def)
qed

lemma flush_cache_step:
  assumes "flush_inv n ch drv" "flush_cache ch ps drv = (r, d')"
  shows "flush_inv n ch d' \<and> keeps d' drv \<and> (r = OK () \<or> r = Err ENOMEM) \<and>
    (r = OK () \<longrightarrow> set (tcs_contents d' ch SLEEP_TCS) =
       set (tcs_contents drv ch SLEEP_TCS) \<union> (\<lambda>p. (cr_addr p, cr_sleep p)) ` set (filter is_req_valid ps)) \<and>
    (r = OK () \<longrightarrow> set (tcs_contents d' ch WAKE_TCS) =
       set (tcs_contents drv ch WAKE_TCS) \<union> (\<lambda>p. (cr_addr p, cr_wake p)) ` set (filter is_req_valid ps))"
  using assms
proof (induction ps arbitrary: drv)
  case (Cons p ps)
  show ?case
  proof (cases "is_req_valid p")
    case False
    then show ?thesis using Cons.IH [OF Cons.prems(1)] Cons.prems(2) by simp
  next
    case True
    obtain r1 d1 where s1: "send_single RPMH_SLEEP_STATE (cr_addr p) (cr_sleep p) ch drv = (r1, d1)" by fastforce
    note w1 = send_single_step [OF Cons.prems(1) _ s1, simplified]
    show ?thesis
    proof (cases "r1 = OK ()")
      case False
      then have "(r, d') = (Err ENOMEM, d1)" using w1(3) Cons.prems(2) True s1 by auto
      then show ?thesis using w1(1,2) by simp
    next
      case ok1: True
      obtain r2 d2 where s2: "send_single RPMH_WAKE_ONLY_STATE (cr_addr p) (cr_wake p) ch d1 = (r2, d2)" by fastforce
      note w2 = send_single_step [OF w1(1) _ s2, simplified]
      have k2: "keeps d2 drv" using w2(2) w1(2) by (rule keeps_trans)
      show ?thesis
      proof (cases "r2 = OK ()")
        case False
        then have "(r, d') = (Err ENOMEM, d2)" using w2(3) Cons.prems(2) True s1 s2 ok1 by auto
        then show ?thesis using w2(1) k2 by simp
      next
        case ok2: True
        have fc: "flush_cache ch ps d2 = (r, d')" using Cons.prems(2) True s1 s2 ok1 ok2 by simp
        note IH = Cons.IH [OF w2(1) fc]
        have "set (tcs_contents d2 ch SLEEP_TCS) = set (tcs_contents drv ch SLEEP_TCS) \<union> {(cr_addr p, cr_sleep p)}"
          "set (tcs_contents d2 ch WAKE_TCS) = set (tcs_contents drv ch WAKE_TCS) \<union> {(cr_addr p, cr_wake p)}"
          using w1(4) [OF ok1, of SLEEP_TCS] w1(4) [OF ok1, of WAKE_TCS] w2(4) [OF ok2, of SLEEP_TCS] w2(4) [OF ok2, of WAKE_TCS]
          by (simp_all add: state_tcs_def)
        moreover have "keeps d' drv" using IH k2 keeps_trans by blast
        ultimately show ?thesis using IH True by auto
      qed
    qed
  qed
qed auto

lemma flush_batch_step:
  assumes "flush_inv n ch drv" "batch_ok (drv_client drv)" "flush_batch ch drv = (r, d')"
  shows "flush_inv n ch d'" "keeps d' drv" "r = OK () \<or> r = Err ENOMEM"
    "r = OK () \<Longrightarrow> set (tcs_contents d' ch SLEEP_TCS) =
       set (tcs_contents drv ch SLEEP_TCS) \<union> set (votes (rq_cmds (ct_batch (drv_client drv) RPMH_SLEEP_STATE)))"
    "r = OK () \<Longrightarrow> set (tcs_contents d' ch WAKE_TCS) =
       set (tcs_contents drv ch WAKE_TCS) \<union> set (votes (rq_cmds (ct_batch (drv_client drv) RPMH_WAKE_ONLY_STATE)))"
proof -
  let ?s = "ct_batch (drv_client drv) RPMH_SLEEP_STATE" and ?w = "ct_batch (drv_client drv) RPMH_WAKE_ONLY_STATE"
  have b: "rq_cmds ?s = [] \<or> rq_state ?s = RPMH_SLEEP_STATE" "rq_cmds ?w = [] \<or> rq_state ?w = RPMH_WAKE_ONLY_STATE"
    using assms(2) by (auto simp: batch_ok_def)
  obtain r1 d1 where s1: "rpmh_rsc_write_ctrl_data ?s ch drv = (r1, d1)" by fastforce
  have "rq_cmds ?s = [] \<or> rq_state ?s \<noteq> RPMH_ACTIVE_ONLY_STATE" using b(1) by auto
  note w1 = write_step [OF assms(1) this s1]
  have c1: "drv_client d1 = drv_client drv" using w1(2) by (simp add: keeps_def)
  have "flush_inv n ch d' \<and> keeps d' drv \<and> (r = OK () \<or> r = Err ENOMEM) \<and>
    (r = OK () \<longrightarrow> set (tcs_contents d' ch SLEEP_TCS) = set (tcs_contents drv ch SLEEP_TCS) \<union> set (votes (rq_cmds ?s)) \<and>
       set (tcs_contents d' ch WAKE_TCS) = set (tcs_contents drv ch WAKE_TCS) \<union> set (votes (rq_cmds ?w)))"
  proof (cases "r1 = OK ()")
    case False
    then have "(r, d') = (Err ENOMEM, d1)" using w1(3) assms(3) s1 by (auto simp: flush_batch_def)
    then show ?thesis using w1(1,2) by simp
  next
    case True
    have s2: "rpmh_rsc_write_ctrl_data ?w ch d1 = (r, d')" using assms(3) s1 True c1 by (simp add: flush_batch_def)
    have "rq_cmds ?w = [] \<or> rq_state ?w \<noteq> RPMH_ACTIVE_ONLY_STATE" using b(2) by auto
    note w2 = write_step [OF w1(1) this s2]
    have "set (tcs_contents d1 ch SLEEP_TCS) = set (tcs_contents drv ch SLEEP_TCS) \<union> set (votes (rq_cmds ?s))"
      "set (tcs_contents d1 ch WAKE_TCS) = set (tcs_contents drv ch WAKE_TCS)"
      using w1(4) [OF True, of SLEEP_TCS] w1(4) [OF True, of WAKE_TCS] b(1) by (auto simp: state_tcs_def votes_def)
    moreover have "set (tcs_contents d' ch SLEEP_TCS) = set (tcs_contents d1 ch SLEEP_TCS)"
      "set (tcs_contents d' ch WAKE_TCS) = set (tcs_contents d1 ch WAKE_TCS) \<union> set (votes (rq_cmds ?w))" if "r = OK ()"
      using w2(4) [OF that, of SLEEP_TCS] w2(4) [OF that, of WAKE_TCS] b(2) by (auto simp: state_tcs_def votes_def)
    moreover have "keeps d' drv" using w2(2) w1(2) by (rule keeps_trans)
    ultimately show ?thesis using w2(1,3) by auto
  qed
  then show "flush_inv n ch d'" "keeps d' drv" "r = OK () \<or> r = Err ENOMEM"
    "r = OK () \<Longrightarrow> set (tcs_contents d' ch SLEEP_TCS) =
       set (tcs_contents drv ch SLEEP_TCS) \<union> set (votes (rq_cmds ?s))"
    "r = OK () \<Longrightarrow> set (tcs_contents d' ch WAKE_TCS) =
       set (tcs_contents drv ch WAKE_TCS) \<union> set (votes (rq_cmds ?w))" by blast+
qed

text \<open>Updates that touch neither the command sets nor the shape.\<close>

lemma same_sets:
  assumes "shape d' = shape d" "drv_hw d' = drv_hw d" "drv_ch d' = drv_ch d"
  shows "flush_inv n ch d' = flush_inv n ch d" "tcs_contents d' ch ty = tcs_contents d ch ty"
proof -
  have e: "enabled d' i j = enabled d i j" "slot_cmd d' i j = slot_cmd d i j" for i j
    using shapeD(10,11) [OF assms(1)] assms(2) by (simp_all add: enabled_def slot_cmd_def read_tcs_reg_def read_tcs_cmd_def)
  have "synced d' ch ty = synced d ch ty" for ty by (rule synced_cong [OF assms(1)]) (simp_all add: e assms(3))
  then show "flush_inv n ch d' = flush_inv n ch d"
    using chan_ok_shape [OF assms(1)] disjoint_shape [OF assms(1)] by (simp add: flush_inv_def)
  show "tcs_contents d' ch ty = tcs_contents d ch ty" by (rule contents_cong [OF assms(1)]) (simp_all add: e)
qed

lemma next_wakeup_frame:
  "shape (write_next_wakeup env drv) = shape drv" "drv_hw (write_next_wakeup env drv) = drv_hw drv"
  "drv_ch (write_next_wakeup env drv) = drv_ch drv" "drv_client (write_next_wakeup env drv) = drv_client drv"
  "drv_in_use (write_next_wakeup env drv) = drv_in_use drv" "drv_control_tcs (write_next_wakeup env drv) = drv_control_tcs drv"
  by (simp_all add: write_next_wakeup_def rpmh_rsc_write_next_wakeup_def Let_def)

lemma do_flush_step:
  assumes "flush_inv n ch drv" "batch_ok (drv_client drv)" "do_rpmh_flush env ch drv = (r, d')"
  shows "flush_inv n ch d'" "shape d' = shape drv" "drv_in_use d' = drv_in_use drv" "r = OK () \<or> r = Err ENOMEM"
    "drv_client d' = (if r = OK () then (drv_client drv)\<lparr>ct_dirty := False\<rparr> else drv_client drv)"
    "r = OK () \<Longrightarrow> ct_dirty (drv_client drv) \<Longrightarrow> sw ty \<Longrightarrow> set (tcs_contents d' ch ty) = set (cached_votes (drv_client drv) ty)"
    "\<not> ct_dirty (drv_client drv) \<Longrightarrow> r = OK () \<and> tcs_contents d' ch ty = tcs_contents drv ch ty"
    "r \<noteq> OK () \<Longrightarrow> ct_dirty (drv_client d')"
proof -
  have "flush_inv n ch d' \<and> shape d' = shape drv \<and> drv_in_use d' = drv_in_use drv \<and> (r = OK () \<or> r = Err ENOMEM) \<and>
    drv_client d' = (if r = OK () then (drv_client drv)\<lparr>ct_dirty := False\<rparr> else drv_client drv) \<and>
    (r = OK () \<longrightarrow> ct_dirty (drv_client drv) \<longrightarrow> sw ty \<longrightarrow> set (tcs_contents d' ch ty) = set (cached_votes (drv_client drv) ty)) \<and>
    (\<not> ct_dirty (drv_client drv) \<longrightarrow> r = OK () \<and> tcs_contents d' ch ty = tcs_contents drv ch ty) \<and>
    (r \<noteq> OK () \<longrightarrow> ct_dirty (drv_client d'))"
  proof (cases "ct_dirty (drv_client drv)")
    case False
    then have "r = OK ()" "d' = write_next_wakeup env drv" using assms(3) by (auto simp: do_rpmh_flush_def)
    moreover have "(drv_client drv)\<lparr>ct_dirty := False\<rparr> = drv_client drv" using False by (cases "drv_client drv") simp
    ultimately show ?thesis
      using assms(1) False same_sets [OF next_wakeup_frame(1-3) [of env drv]] next_wakeup_frame(1,4,5) [of env drv] by simp
  next
    case True
    define d0 where "d0 = rpmh_rsc_invalidate drv ch"
    note e0 = rsc_invalidate_effect [OF assms(1) d0_def]
    have c0: "drv_client d0 = drv_client drv" using e0(1) by (simp add: keeps_def)
    obtain r1 d1 where s1: "flush_batch ch d0 = (r1, d1)" by fastforce
    have b0: "batch_ok (drv_client d0)" using assms(2) c0 by simp
    note e1 = flush_batch_step [OF e0(2) b0 s1]
    have k1: "keeps d1 drv" using e1(2) e0(1) by (rule keeps_trans)
    show ?thesis
    proof (cases "r1 = OK ()")
      case False
      then have "r = Err ENOMEM" "d' = d1" using e1(3) assms(3) True s1 by (auto simp: do_rpmh_flush_def d0_def)
      then show ?thesis using e1(1) k1 True by (simp add: keeps_def)
    next
      case ok1: True
      obtain r2 d2 where s2: "flush_cache ch (ct_cache (drv_client d1)) d1 = (r2, d2)" by fastforce
      note e2 = flush_cache_step [OF e1(1) s2]
      have k2: "keeps d2 drv" using e2 k1 keeps_trans by blast
      have c1: "drv_client d1 = drv_client drv" using k1 by (simp add: keeps_def)
      show ?thesis
      proof (cases "r2 = OK ()")
        case False
        then have "r = Err ENOMEM" "d' = d2" using e2 assms(3) True s1 ok1 s2 by (auto simp: do_rpmh_flush_def d0_def)
        then show ?thesis using e2 k2 True by (simp add: keeps_def)
      next
        case ok2: True
        let ?d3 = "d2\<lparr>drv_client := (drv_client d2)\<lparr>ct_dirty := False\<rparr>\<rparr>"
        have r: "r = OK ()" "d' = write_next_wakeup env ?d3"
          using assms(3) True s1 ok1 s2 ok2 by (simp_all add: do_rpmh_flush_def d0_def)
        have f3: "shape d' = shape d2" "drv_hw d' = drv_hw d2" "drv_ch d' = drv_ch d2"
          by (simp_all add: r(2) next_wakeup_frame)
        note ss = same_sets [OF f3]
        have "set (tcs_contents d' ch SLEEP_TCS) = set (cached_votes (drv_client drv) SLEEP_TCS)"
          "set (tcs_contents d' ch WAKE_TCS) = set (cached_votes (drv_client drv) WAKE_TCS)"
          using e2 ok2 e1(4,5) [OF ok1] e0(3,4) ss(2) c0 c1 by (simp_all add: cached_votes_def)
        moreover have "flush_inv n ch d'" using ss(1) e2 by simp
        moreover have "shape d' = shape drv" using f3(1) k2 by (simp add: keeps_def)
        moreover have "drv_in_use d' = drv_in_use drv" "drv_client d' = (drv_client drv)\<lparr>ct_dirty := False\<rparr>"
          using k2 by (simp_all add: r(2) next_wakeup_frame keeps_def)
        ultimately show ?thesis using r(1) True by auto
      qed
    qed
  qed
  then show "flush_inv n ch d'" "shape d' = shape drv" "drv_in_use d' = drv_in_use drv" "r = OK () \<or> r = Err ENOMEM"
    "drv_client d' = (if r = OK () then (drv_client drv)\<lparr>ct_dirty := False\<rparr> else drv_client drv)"
    "r = OK () \<Longrightarrow> ct_dirty (drv_client drv) \<Longrightarrow> sw ty \<Longrightarrow> set (tcs_contents d' ch ty) = set (cached_votes (drv_client drv) ty)"
    "\<not> ct_dirty (drv_client drv) \<Longrightarrow> r = OK () \<and> tcs_contents d' ch ty = tcs_contents drv ch ty"
    "r \<noteq> OK () \<Longrightarrow> ct_dirty (drv_client d')"
    by blast+
qed

end
