(* ===== verification/Rpmh_Active.thy ===== *)
theory Rpmh_Active
  imports Rpmh_Flush
begin

text \<open>
  Active transfers, from the claim of a command set to the interrupt that ends it, touch neither the
  sleep nor the wake group of a controller whose active group has command sets of its own.
\<close>

subsection \<open>Active transfers leave the sleep and wake groups alone\<close>

definition sw_frame :: "nat \<Rightarrow> rsc_drv \<Rightarrow> rsc_drv \<Rightarrow> bool" where
  "sw_frame n d' d =
     (shape d' = shape d \<and> drv_client d' = drv_client d \<and>
      (\<forall>ty. tg_slots (group d' 0 ty) = tg_slots (group d 0 ty)) \<and>
      (\<forall>i j. (in_group (group d 0 SLEEP_TCS) i \<or> in_group (group d 0 WAKE_TCS) i) \<and> j < n \<longrightarrow>
         enabled d' i j = enabled d i j \<and> slot_cmd d' i j = slot_cmd d i j))"

lemma sw_frame_refl [simp]: "sw_frame n d d"
  by (simp add: sw_frame_def)

lemma sw_frame_trans: "sw_frame n d2 d1 \<Longrightarrow> sw_frame n d1 d0 \<Longrightarrow> sw_frame n d2 d0"
  unfolding sw_frame_def using in_group_shape [of d1 d0] by simp

lemma sw_frame_same:
  assumes "shape d' = shape d" "drv_client d' = drv_client d" "drv_hw d' = drv_hw d" "\<And>ty. tg_slots (group d' 0 ty) = tg_slots (group d 0 ty)"
  shows "sw_frame n d' d"
  using assms shapeD(10,11) [OF assms(1)]
  by (simp add: sw_frame_def enabled_def slot_cmd_def read_tcs_reg_def read_tcs_cmd_def)

lemma sw_frame_hw:
  assumes "hw_only d' d" "\<And>i j. i \<noteq> t \<Longrightarrow> j < n \<Longrightarrow> enabled d' i j = enabled d i j \<and> slot_cmd d' i j = slot_cmd d i j"
    "\<not> in_group (group d 0 SLEEP_TCS) t" "\<not> in_group (group d 0 WAKE_TCS) t"
  shows "sw_frame n d' d"
proof -
  have "i \<noteq> t" if "in_group (group d 0 SLEEP_TCS) i \<or> in_group (group d 0 WAKE_TCS) i" for i
    using that assms(3,4) by blast
  then show ?thesis
    unfolding sw_frame_def hw_onlyD(1) [OF assms(1)] hw_onlyD(2) [OF assms(1)] hw_onlyD(4) [OF assms(1)]
    using assms(2) by blast
qed

lemma sw_frame_sets:
  assumes "sw_frame n d' d" "chan_ok d 0 n" "sw ty"
  shows "tcs_contents d' 0 ty = tcs_contents d 0 ty" "synced d' 0 ty = synced d 0 ty"
proof -
  have sh: "shape d' = shape d" and n: "tg_ncpt (group d 0 ty) = n" using assms by (auto simp: sw_frame_def chan_ok_def)
  have e: "enabled d' i j = enabled d i j \<and> slot_cmd d' i j = slot_cmd d i j"
    if "in_group (group d 0 ty) i" "j < tg_ncpt (group d 0 ty)" for i j
    using that assms(1,3) unfolding n sw_frame_def by blast
  show "tcs_contents d' 0 ty = tcs_contents d 0 ty" by (rule contents_cong [OF sh]) (rule e)
  show "synced d' 0 ty = synced d 0 ty"
    by (rule synced_cong [OF sh]) (use e assms(1) in \<open>auto simp: sw_frame_def\<close>)
qed

lemma trigger_effect:
  assumes "lay drv n"
  shows "hw_only (tcs_set_trigger drv t b) drv" "enabled (tcs_set_trigger drv t b) i j = enabled drv i j"
    "j < n \<Longrightarrow> slot_cmd (tcs_set_trigger drv t b) i j = slot_cmd drv i j"
proof -
  have w: "enabled (write_tcs_reg d RSC_DRV_CONTROL t v) i j = enabled d i j" "lay (write_tcs_reg d RSC_DRV_CONTROL t v) n"
    "j < n \<Longrightarrow> slot_cmd (write_tcs_reg d RSC_DRV_CONTROL t v) i j = slot_cmd d i j" if l: "lay d n" for d v
  proof -
    show "enabled (write_tcs_reg d RSC_DRV_CONTROL t v) i j = enabled d i j"
      unfolding enabled_def read_reg_write_reg [OF l ctl_regs(2) ctl_regs(3)] by simp
    show "lay (write_tcs_reg d RSC_DRV_CONTROL t v) n" unfolding lay_shape [OF shape_writes(1)] by (rule l)
    show "slot_cmd (write_tcs_reg d RSC_DRV_CONTROL t v) i j = slot_cmd d i j" if "j < n"
      unfolding slot_cmd_def read_cmd_write_reg [OF l ctl_regs(2) cmd_regs(2) that] read_cmd_write_reg [OF l ctl_regs(2) cmd_regs(3) that] ..
  qed
  show "hw_only (tcs_set_trigger drv t b) drv"
    unfolding tcs_set_trigger_def Let_def write_tcs_reg_sync_def by (cases b) (simp_all, (meson hw_only_writes hw_only_trans)+)
  show "enabled (tcs_set_trigger drv t b) i j = enabled drv i j"
    unfolding tcs_set_trigger_def Let_def write_tcs_reg_sync_def using assms by (cases b) (simp_all add: w)
  show "slot_cmd (tcs_set_trigger drv t b) i j = slot_cmd drv i j" if "j < n"
    unfolding tcs_set_trigger_def Let_def write_tcs_reg_sync_def using assms that by (cases b) (simp_all add: w)
qed

lemma start_transfer_frame:
  assumes "chan_ok drv 0 n" "length (rq_cmds msg) \<le> n" "\<not> in_group (group drv 0 SLEEP_TCS) t" "\<not> in_group (group drv 0 WAKE_TCS) t"
  shows "sw_frame n (start_transfer 0 ty msg t drv) drv"
proof -
  define g where "g = (group drv 0 ty)\<lparr>tg_req := (tg_req (group drv 0 ty))(t - tg_offset (group drv 0 ty) := Some msg)\<rparr>"
  define d1 where "d1 = set_group drv 0 ty g"
  define d2 where "d2 = d1\<lparr>drv_in_use := (drv_in_use d1)(t := True)\<rparr>"
  define d4 where "d4 = disable_tcs t d2"
  define d5 where "d5 = enable_tcs_irq d4 t (rq_wait_for_compl msg \<or> (rq_state msg = RPMH_ACTIVE_ONLY_STATE \<and> tg_type (group drv 0 ty) \<noteq> ACTIVE_TCS))"
  define d6 where "d6 = tcs_buffer_write d5 t 0 msg"
  define d7 where "d7 = tcs_set_trigger d6 t True"
  have l: "lay drv n" "n \<le> 32" using assms(1) by (auto simp: chan_ok_def)
  have s1: "shape d1 = shape drv" unfolding d1_def by (rule shape_set_group) (simp add: g_def static_group_def)
  have sl1: "tg_slots (group d1 0 ty') = tg_slots (group drv 0 ty')" for ty' by (simp add: d1_def set_group_def g_def)
  have f1: "sw_frame n d1 drv"
    using s1 sl1 by (simp add: sw_frame_def d1_def set_group_access)
  have s2: "shape d2 = shape drv" using s1 by (simp add: d2_def)
  have f2: "sw_frame n d2 drv"
    using sw_frame_trans [OF sw_frame_same f1] by (simp add: d2_def)
  have l2: "lay d2 n" unfolding lay_shape [OF s2] by (rule l(1))
  note e4 = disable_tcs_effect [OF l2 d4_def]
  have s4: "shape d4 = shape drv" using hw_onlyD(1) [OF e4(1)] s2 by simp
  have l4: "lay d4 n" unfolding lay_shape [OF s4] by (rule l(1))
  note e5 = irq_frame [OF l4]
  have h5: "hw_only d5 d4" by (simp add: d5_def)
  have s5: "shape d5 = shape drv" using hw_onlyD(1) [OF h5] s4 by simp
  have l5: "lay d5 n" unfolding lay_shape [OF s5] by (rule l(1))
  have le: "0 + length (rq_cmds msg) \<le> n" using assms(2) by simp
  note e6 = tcs_buffer_write_effect [OF l5 le l(2) d6_def]
  have l6: "lay d6 n" unfolding lay_shape [OF e6(1)] by (rule l5)
  note e7 = trigger_effect [OF l6, where t = t and b = True]
  have h: "hw_only d7 d2"
    unfolding d7_def using hw_only_trans [OF e7(1) hw_only_trans [OF e6(2) hw_only_trans [OF h5 e4(1)]]] by (simp add: d6_def)
  have "enabled d7 i j = enabled d2 i j \<and> slot_cmd d7 i j = slot_cmd d2 i j" if "i \<noteq> t" "j < n" for i j
    unfolding d7_def e7(2) e7(3) [OF that(2)] e6(3) e6(4) [OF that(2)] d5_def e5 e4(2) e4(3) [OF that(2)] using that by simp
  then have "sw_frame n d7 d2"
    using assms(3,4) in_group_shape [OF s2] by (intro sw_frame_hw [OF h, of t]) auto
  then have f7: "sw_frame n d7 drv" using f2 by (rule sw_frame_trans)
  have "start_transfer 0 ty msg t drv = (if \<not> rq_wait_for_compl msg then d7\<lparr>drv_in_use := (drv_in_use d7)(t := False)\<rparr> else d7)"
    unfolding start_transfer_def Let_def d7_def d6_def d5_def d4_def disable_tcs_def d2_def d1_def g_def ..
  moreover have "sw_frame n (d7\<lparr>drv_in_use := u\<rparr>) drv" for u
    by (rule sw_frame_trans [OF _ f7], rule sw_frame_same) simp_all
  ultimately show ?thesis using f7 by simp
qed

subsection \<open>Controllers with one channel and active command sets of their own\<close>

definition dedicated :: "nat \<Rightarrow> rsc_drv \<Rightarrow> bool" where
  "dedicated n drv =
     (drv_num_channels drv = 1 \<and> ch_initialized (drv_ch drv 0) \<and> \<not> ch_initialized (drv_ch drv 1) \<and>
      chan_ok drv 0 n \<and> 0 < tg_num_tcs (group drv 0 ACTIVE_TCS) \<and>
      disjoint_groups drv 0 SLEEP_TCS WAKE_TCS \<and> disjoint_groups drv 0 ACTIVE_TCS SLEEP_TCS \<and>
      disjoint_groups drv 0 ACTIVE_TCS WAKE_TCS \<and>
      (\<forall>i. bit (tg_mask (group drv 0 ACTIVE_TCS)) i \<longrightarrow> in_group (group drv 0 ACTIVE_TCS) i))"

lemma dedicated_shape:
  assumes "shape d' = shape d"
  shows "dedicated n d' = dedicated n d"
  unfolding dedicated_def chan_ok_shape [OF assms] disjoint_shape [OF assms] in_group_shape [OF assms]
  using shapeD [OF assms] by simp

lemma dedicatedD:
  assumes "dedicated n drv" "in_group (group drv 0 ACTIVE_TCS) t"
  shows "\<not> in_group (group drv 0 SLEEP_TCS) t" "\<not> in_group (group drv 0 WAKE_TCS) t"
  using assms by (auto simp: dedicated_def disjoint_groups_def)

lemma dedicated_active:
  assumes "dedicated n drv"
  shows "get_tcs_for_msg drv RPMH_ACTIVE_ONLY_STATE 0 = ACTIVE_TCS"
  using assms by (simp add: dedicated_def get_tcs_for_msg_def)

text \<open>The interrupts that the controller enables are those of its active command sets.\<close>

definition active_irq :: "rsc_drv \<Rightarrow> u32w \<Rightarrow> bool" where
  "active_irq drv status = (status AND tg_mask (group drv 0 ACTIVE_TCS) = status)"

lemma active_irq_bit: "active_irq drv status \<Longrightarrow> bit status i \<Longrightarrow> bit (tg_mask (group drv 0 ACTIVE_TCS)) i"
  unfolding active_irq_def by (metis bit_and_iff)

lemma active_irq_shape:
  assumes "shape d' = shape d"
  shows "active_irq d' = active_irq d"
  by (simp add: active_irq_def fun_eq_iff shapeD(7) [OF assms])

lemma dedicated_req:
  assumes "dedicated n drv" "bit (tg_mask (group drv 0 ACTIVE_TCS)) i"
  shows "get_req_from_tcs drv i [0..<MAX_CHANNEL] =
    (tg_req (group drv 0 ACTIVE_TCS) (i - tg_offset (group drv 0 ACTIVE_TCS)), Some 0)"
  using assms dedicated_active [OF assms(1)] by (simp add: dedicated_def MAX_CHANNEL_def upt_rec Let_def)

lemma disabled_frame:
  assumes "lay drv n" "d3 = write_tcs_reg (write_tcs_reg drv RSC_DRV_CMD_ENABLE t 0) RSC_DRV_CMD_WAIT_FOR_CMPL t 0"
    "d4 = d3\<lparr>drv_hw := (drv_hw d3)(drv_regs d3 RSC_DRV_IRQ_CLEAR := v)\<rparr>"
  shows "hw_only d4 drv" "i \<noteq> t \<Longrightarrow> enabled d4 i j = enabled drv i j" "j < n \<Longrightarrow> slot_cmd d4 i j = slot_cmd drv i j"
proof -
  have d3: "d3 = disable_tcs t drv" using assms(2) by (simp add: disable_tcs_def write_tcs_reg_sync_def)
  note e = disable_tcs_effect [OF assms(1) d3]
  have l: "lay d3 n" unfolding lay_shape [OF hw_onlyD(1) [OF e(1)]] by (rule assms(1))
  note f = irq_write_frame [OF l disjI2 [OF refl] assms(3)]
  show "hw_only d4 drv" using hw_only_trans [OF hw_only_upd e(1)] assms(3) by simp
  show "i \<noteq> t \<Longrightarrow> enabled d4 i j = enabled drv i j" unfolding f(3) e(2) by simp
  show "j < n \<Longrightarrow> slot_cmd d4 i j = slot_cmd drv i j" unfolding f(4) by (rule e(3))
qed

lemma rpmh_tx_done_frame: "sw_frame n (rpmh_tx_done r d) d"
  by (rule sw_frame_same) (simp_all add: rpmh_tx_done_def split: option.splits)

lemma tx_done_one_frame:
  assumes "dedicated n drv" "bit (tg_mask (group drv 0 ACTIVE_TCS)) i" "tx_done_one prev i drv = OK (ch, d')"
  shows "sw_frame n d' drv"
proof -
  note q = dedicated_req [OF assms(1,2)]
  have a: "in_group (group drv 0 ACTIVE_TCS) i" using assms(1,2) by (auto simp: dedicated_def)
  have nb: "tg_num_tcs (group drv 0 ACTIVE_TCS) \<noteq> 0" and l: "lay drv n" using assms(1) by (auto simp: dedicated_def chan_ok_def)
  define req where "req = tg_req (group drv 0 ACTIVE_TCS) (i - tg_offset (group drv 0 ACTIVE_TCS))"
  define d3 where "d3 = write_tcs_reg (write_tcs_reg drv RSC_DRV_CMD_ENABLE i 0) RSC_DRV_CMD_WAIT_FOR_CMPL i 0"
  define d4 where "d4 = d3\<lparr>drv_hw := (drv_hw d3)(drv_regs d3 RSC_DRV_IRQ_CLEAR := BIT i)\<rparr>"
  define d5 where "d5 = d4\<lparr>drv_in_use := (drv_in_use d4)(i := False)\<rparr>"
  note e = disabled_frame [OF l d3_def d4_def]
  have f4: "sw_frame n d4 drv"
    by (rule sw_frame_hw [OF e(1), where t = i]) (use e(2,3) dedicatedD [OF assms(1) a] in auto)
  have f5: "sw_frame n d5 drv" by (rule sw_frame_trans [OF _ f4], rule sw_frame_same) (simp_all add: d5_def)
  have "d' = (case req of None \<Rightarrow> d5 | Some r \<Rightarrow> rpmh_tx_done r d5)"
    using assms(3) unfolding tx_done_one_def q d5_def d4_def d3_def req_def [symmetric] by (cases req) (simp_all add: Let_def nb)
  then show ?thesis using f5 sw_frame_trans [OF rpmh_tx_done_frame f5] by (auto split: option.splits)
qed

lemma sw_frame_dedicated: "sw_frame n d' d \<Longrightarrow> dedicated m d' = dedicated m d"
  by (rule dedicated_shape) (simp add: sw_frame_def)

lemma sw_frame_active_irq: "sw_frame n d' d \<Longrightarrow> active_irq d' = active_irq d"
  by (rule active_irq_shape) (simp add: sw_frame_def)

lemma tx_done_all_frame:
  "dedicated n drv \<Longrightarrow> \<forall>i \<in> set ts. bit (tg_mask (group drv 0 ACTIVE_TCS)) i \<Longrightarrow> tx_done_all prev ts drv = OK d' \<Longrightarrow> sw_frame n d' drv"
proof (induction ts arbitrary: drv prev)
  case (Cons i ts)
  then obtain ch d1 where d1: "tx_done_one prev i drv = OK (ch, d1)" "tx_done_all ch ts d1 = OK d'" by auto
  have f: "sw_frame n d1 drv" by (rule tx_done_one_frame [OF Cons.prems(1) _ d1(1)]) (use Cons.prems(2) in simp)
  have s: "shape d1 = shape drv" using f by (simp add: sw_frame_def)
  have "dedicated n d1" "\<forall>i \<in> set ts. bit (tg_mask (group d1 0 ACTIVE_TCS)) i"
    using sw_frame_dedicated [OF f] shapeD(7) [OF s] Cons.prems by simp_all
  from Cons.IH [OF this d1(2)] f show ?case by (rule sw_frame_trans)
qed simp

lemma tcs_tx_done_frame:
  assumes "dedicated n drv" "active_irq drv irq" "tcs_tx_done irq drv = OK d'"
  shows "sw_frame n d' drv"
  using assms(3) unfolding tcs_tx_done_def
  by (rule tx_done_all_frame [OF assms(1), rotated]) (use active_irq_bit [OF assms(2)] in simp)

lemma find_free_group: "find_free_tcs drv g sts = OK t \<Longrightarrow> in_group g t"
  by (auto simp: find_free_tcs_def in_group_def find_next_zero_bit_def Let_def split: if_splits option.splits dest!: find_SomeD)

lemma claim_group: "claim_tcs_for_req drv g msg sts = OK t \<Longrightarrow> in_group g t"
  by (auto simp: claim_tcs_for_req_def find_free_group)

declare wait_for_tcs.simps [simp del] wait_for_completion.simps [simp del]

lemma wait_frame:
  "dedicated n drv \<Longrightarrow> list_all (\<lambda>e. active_irq drv (fst e)) events \<Longrightarrow> wait_for_tcs 0 ty msg events sts drv = Returns (r, d') \<Longrightarrow>
     sw_frame n d' drv \<and> (\<forall>t. r = OK t \<longrightarrow> in_group (group drv 0 ty) t)"
proof (induction events arbitrary: sts drv)
  case Nil
  then show ?case
    by (subst (asm) wait_for_tcs.simps) (auto split: result.splits dest: claim_group)
next
  case (Cons e es)
  obtain irq sts' where e: "e = (irq, sts')" by force
  show ?case
  proof (cases "\<exists>d1 x. claim_tcs_for_req drv (group drv 0 ty) msg sts = Err x \<and> tcs_tx_done irq drv = OK d1")
    case True
    then obtain d1 x where d1: "tcs_tx_done irq drv = OK d1" "claim_tcs_for_req drv (group drv 0 ty) msg sts = Err x" by blast
    have f: "sw_frame n d1 drv" by (rule tcs_tx_done_frame [OF Cons.prems(1) _ d1(1)]) (use Cons.prems(2) e in simp)
    have s: "shape d1 = shape drv" using f by (simp add: sw_frame_def)
    have w: "wait_for_tcs 0 ty msg es sts' d1 = Returns (r, d')"
      using Cons.prems(3) d1 by (subst (asm) wait_for_tcs.simps) (simp add: e)
    have "dedicated n d1" "list_all (\<lambda>e. active_irq d1 (fst e)) es"
      using Cons.prems(1,2) sw_frame_dedicated [OF f] sw_frame_active_irq [OF f] by simp_all
    from Cons.IH [OF this w] f show ?thesis
      unfolding in_group_shape [OF s] using sw_frame_trans by blast
  next
    case False
    then show ?thesis using Cons.prems
      by (subst (asm) wait_for_tcs.simps) (auto simp: e split: result.splits dest: claim_group)
  qed
qed

lemma completion_frame:
  "dedicated n drv \<Longrightarrow> list_all (active_irq drv) irqs \<Longrightarrow> wait_for_completion c irqs drv = (r, d') \<Longrightarrow> sw_frame n d' drv"
proof (induction irqs arbitrary: drv)
  case Nil
  then show ?case by (subst (asm) wait_for_completion.simps) (auto split: if_splits)
next
  case (Cons irq irqs)
  show ?case
  proof (cases "\<exists>d1. c \<notin> set (drv_done drv) \<and> tcs_tx_done irq drv = OK d1")
    case True
    then obtain d1 where d1: "c \<notin> set (drv_done drv)" "tcs_tx_done irq drv = OK d1" by blast
    have f: "sw_frame n d1 drv" by (rule tcs_tx_done_frame [OF Cons.prems(1) _ d1(2)]) (use Cons.prems(2) in simp)
    have w: "wait_for_completion c irqs d1 = (r, d')" using Cons.prems(3) d1 by (subst (asm) wait_for_completion.simps) simp
    have "dedicated n d1" "list_all (active_irq d1) irqs"
      using Cons.prems(1,2) sw_frame_dedicated [OF f] sw_frame_active_irq [OF f] by simp_all
    from Cons.IH [OF this w] f show ?thesis by (rule sw_frame_trans)
  next
    case False
    then show ?thesis using Cons.prems
      by (subst (asm) wait_for_completion.simps) (auto split: if_splits result.splits)
  qed
qed

lemma send_data_frame:
  assumes "dedicated n drv" "rq_state msg = RPMH_ACTIVE_ONLY_STATE" "length (rq_cmds msg) \<le> n"
    "rpmh_rsc_send_data msg 0 events sts drv = Returns (r, d')" "list_all (\<lambda>e. active_irq drv (fst e)) events"
  shows "sw_frame n d' drv"
proof (cases "drv_in_solver_mode drv")
  case True
  then show ?thesis using assms(4) by (simp add: rpmh_rsc_send_data_def)
next
  case False
  then obtain q d where w: "wait_for_tcs 0 ACTIVE_TCS msg events sts drv = Returns (q, d)"
    and k: "(case q of OK t \<Rightarrow> Returns (OK (), start_transfer 0 ACTIVE_TCS msg t d)
      | Err e \<Rightarrow> Returns (Err e, d) | UB \<Rightarrow> Returns (UB, d)) = Returns (r, d')"
    using assms(4) unfolding rpmh_rsc_send_data_def assms(2) dedicated_active [OF assms(1)] by auto
  have d': "case q of OK t \<Rightarrow> d' = start_transfer 0 ACTIVE_TCS msg t d | _ \<Rightarrow> d' = d"
    using k by (cases q) auto
  note f = wait_frame [OF assms(1,5) w]
  show ?thesis
  proof (cases q)
    case (OK t)
    have s: "shape d = shape drv" using f by (simp add: sw_frame_def)
    have "dedicated n d" using assms(1) unfolding dedicated_shape [OF s] .
    moreover have "in_group (group d 0 ACTIVE_TCS) t" unfolding in_group_shape [OF s] using f OK by blast
    ultimately have "sw_frame n (start_transfer 0 ACTIVE_TCS msg t d) d"
      using dedicatedD [of n d t] assms(3) by (intro start_transfer_frame) (auto simp: dedicated_def)
    then show ?thesis using f OK d' sw_frame_trans by auto
  qed (use f d' in auto)
qed

subsection \<open>Claiming a command set\<close>

lemma tx_done_one_shape: "tx_done_one prev i drv = OK (ch, d') \<Longrightarrow> shape d' = shape drv"
  by (auto simp: tx_done_one_def tcs_set_trigger_def rpmh_tx_done_def Let_def write_tcs_reg_sync_def split: prod.splits option.splits if_splits)

lemma tx_done_all_shape: "tx_done_all prev ts drv = OK d' \<Longrightarrow> shape d' = shape drv"
  by (induction ts arbitrary: drv prev) (auto dest!: tx_done_one_shape)

lemma tcs_tx_done_shape: "tcs_tx_done irq drv = OK d' \<Longrightarrow> shape d' = shape drv"
  unfolding tcs_tx_done_def by (rule tx_done_all_shape)

text \<open>No command set of the group that is in use holds an enabled command for a resource of the request.\<close>

definition no_conflict :: "rsc_drv \<Rightarrow> tcs_group \<Rightarrow> tcs_request \<Rightarrow> bool" where
  "no_conflict d g msg =
     (\<forall>i j. in_group g i \<and> drv_in_use d i \<and> j < tg_ncpt g \<and> enabled d i j \<longrightarrow>
        (\<forall>c \<in> set (rq_cmds msg). \<not> cmd_db_match_resource_addr (cmd_addr c) (fst (slot_cmd d i j))))"

lemma claim_safe:
  assumes "claim_tcs_for_req d g msg sts = OK t"
  shows "in_group g t" "\<not> drv_in_use d t" "no_conflict d g msg"
proof -
  have c: "check_for_req_inflight d g msg = OK ()" and f: "find_free_tcs d g sts = OK t"
    using assms by (auto simp: claim_tcs_for_req_def)
  show "in_group g t" by (rule find_free_group [OF f])
  show "\<not> drv_in_use d t"
    using f by (auto simp: find_free_tcs_def find_next_zero_bit_def Let_def split: if_splits option.splits dest!: find_SomeD)
  show "no_conflict d g msg"
    using c by (auto simp: check_for_req_inflight_def no_conflict_def list_ex_iff in_group_def enabled_def slot_cmd_def split: if_splits)
qed

lemma wait_claims:
  "wait_for_tcs ch ty msg events sts drv = Returns (OK t, d) \<Longrightarrow>
     shape d = shape drv \<and> (\<exists>sts'. claim_tcs_for_req d (group d ch ty) msg sts' = OK t)"
proof (induction events arbitrary: sts drv)
  case Nil
  then show ?case by (subst (asm) wait_for_tcs.simps) (auto split: result.splits)
next
  case (Cons e es)
  obtain irq sts' where e: "e = (irq, sts')" by force
  show ?case
  proof (cases "\<exists>x. claim_tcs_for_req drv (group drv ch ty) msg sts = Err x")
    case True
    then obtain d1 where d1: "tcs_tx_done irq drv = OK d1" "wait_for_tcs ch ty msg es sts' d1 = Returns (OK t, d)"
      using Cons.prems by (subst (asm) wait_for_tcs.simps) (auto simp: e split: result.splits)
    from Cons.IH [OF d1(2)] show ?thesis using tcs_tx_done_shape [OF d1(1)] by simp
  next
    case False
    then show ?thesis using Cons.prems by (subst (asm) wait_for_tcs.simps) (auto split: result.splits)
  qed
qed

subsection \<open>Starting a transfer\<close>

lemma start_transfer_effect:
  assumes "chan_ok drv ch n" "length (rq_cmds msg) \<le> n" "d' = start_transfer ch ty msg t drv"
  shows "shape d' = shape drv" "enabled d' t j \<longleftrightarrow> j < length (rq_cmds msg)"
    "j < length (rq_cmds msg) \<Longrightarrow> slot_cmd d' t j = (cmd_addr (rq_cmds msg ! j), cmd_data (rq_cmds msg ! j))"
    "drv_in_use d' = (drv_in_use drv)(t := rq_wait_for_compl msg)"
    "tg_req (group d' ch ty) (t - tg_offset (group drv ch ty)) = Some msg" "drv_done d' = drv_done drv"
    "read_tcs_reg d' RSC_DRV_CONTROL t = TCS_AMC_MODE_ENABLE OR TCS_AMC_MODE_TRIGGER"
proof -
  define g where "g = (group drv ch ty)\<lparr>tg_req := (tg_req (group drv ch ty))(t - tg_offset (group drv ch ty) := Some msg)\<rparr>"
  define d1 where "d1 = set_group drv ch ty g"
  define d2 where "d2 = d1\<lparr>drv_in_use := (drv_in_use d1)(t := True)\<rparr>"
  define d4 where "d4 = disable_tcs t d2"
  define d5 where "d5 = enable_tcs_irq d4 t (rq_wait_for_compl msg \<or> (rq_state msg = RPMH_ACTIVE_ONLY_STATE \<and> tg_type (group drv ch ty) \<noteq> ACTIVE_TCS))"
  define d6 where "d6 = tcs_buffer_write d5 t 0 msg"
  define d7 where "d7 = tcs_set_trigger d6 t True"
  have l: "lay drv n" "n \<le> 32" using assms(1) by (auto simp: chan_ok_def)
  have s2: "shape d2 = shape drv" unfolding d2_def shape_writes d1_def by (rule shape_set_group) (simp add: g_def static_group_def)
  have l2: "lay d2 n" unfolding lay_shape [OF s2] by (rule l(1))
  note e4 = disable_tcs_effect [OF l2 d4_def]
  have s4: "shape d4 = shape drv" using hw_onlyD(1) [OF e4(1)] s2 by simp
  have l4: "lay d4 n" unfolding lay_shape [OF s4] by (rule l(1))
  note e5 = irq_frame [OF l4]
  have h5: "hw_only d5 d4" by (simp add: d5_def)
  have s5: "shape d5 = shape drv" using hw_onlyD(1) [OF h5] s4 by simp
  have l5: "lay d5 n" unfolding lay_shape [OF s5] by (rule l(1))
  have le: "0 + length (rq_cmds msg) \<le> n" using assms(2) by simp
  note e6 = tcs_buffer_write_effect [OF l5 le l(2) d6_def]
  have l6: "lay d6 n" unfolding lay_shape [OF e6(1)] by (rule l5)
  note e7 = trigger_effect [OF l6, where t = t and b = True]
  have h: "hw_only d7 d2"
    unfolding d7_def by (rule hw_only_trans [OF e7(1) hw_only_trans [OF e6(2) hw_only_trans [OF h5 e4(1)]]])
  have en: "enabled d7 t j \<longleftrightarrow> j < length (rq_cmds msg)" for j
    unfolding d7_def e7(2) e6(3) d5_def e5 e4(2) by simp
  have sl: "slot_cmd d7 t j = (cmd_addr (rq_cmds msg ! j), cmd_data (rq_cmds msg ! j))" if "j < length (rq_cmds msg)" for j
    unfolding d7_def e7(3) [OF less_le_trans [OF that assms(2)]] e6(4) [OF less_le_trans [OF that assms(2)]] using that by simp
  have d': "d' = (if \<not> rq_wait_for_compl msg then d7\<lparr>drv_in_use := (drv_in_use d7)(t := False)\<rparr> else d7)"
    unfolding assms(3) start_transfer_def Let_def d7_def d6_def d5_def d4_def disable_tcs_def d2_def d1_def g_def ..
  have hw: "drv_hw d' = drv_hw d7" "shape d' = shape d7" "group d' ch ty = group d7 ch ty" "drv_done d' = drv_done d7" by (simp_all add: d')
  have acc: "enabled d' t j = enabled d7 t j" "slot_cmd d' t j = slot_cmd d7 t j" "read_tcs_reg d' RSC_DRV_CONTROL t = read_tcs_reg d7 RSC_DRV_CONTROL t" for j
    using shapeD(10,11) [OF hw(2)] hw(1) by (simp_all add: enabled_def slot_cmd_def read_tcs_reg_def read_tcs_cmd_def)
  show "shape d' = shape drv" using hw(2) hw_onlyD(1) [OF h] s2 by simp
  show "enabled d' t j \<longleftrightarrow> j < length (rq_cmds msg)" unfolding acc en ..
  show "slot_cmd d' t j = (cmd_addr (rq_cmds msg ! j), cmd_data (rq_cmds msg ! j))" if "j < length (rq_cmds msg)" for j
    unfolding acc by (rule sl [OF that])
  show "drv_in_use d' = (drv_in_use drv)(t := rq_wait_for_compl msg)"
    using hw_onlyD(3) [OF h] by (simp add: d' d2_def d1_def set_group_access)
  show "tg_req (group d' ch ty) (t - tg_offset (group drv ch ty)) = Some msg"
    unfolding hw(3) hw_onlyD(2) [OF h] by (simp add: d2_def d1_def set_group_access g_def)
  show "drv_done d' = drv_done drv" unfolding hw(4) hw_onlyD(5) [OF h] by (simp add: d2_def d1_def set_group_def)
  show "read_tcs_reg d' RSC_DRV_CONTROL t = TCS_AMC_MODE_ENABLE OR TCS_AMC_MODE_TRIGGER"
    unfolding acc d7_def tcs_set_trigger_def Let_def by (simp add: read_tcs_reg_def hw_write)
qed

end
