(* ===== verification/Rpmh_System.thy ===== *)
theory Rpmh_System
  imports Rpmh_Active
begin

text \<open>
  Runs of one controller: writes, batches, invalidations, flushes, interrupts and power-management
  callbacks in any order keep the invariant that a clean cache is what the command sets hold.
\<close>

subsection \<open>The vote cache\<close>

lemma index_of_Some: "index_of a rs = Some i \<Longrightarrow> i < length rs \<and> cr_addr (rs ! i) = a"
  by (induction rs arbitrary: i) (auto split: if_splits)

lemma filter_list_update:
  assumes "i < length xs" "P y = P (xs ! i)" "P y \<Longrightarrow> y = xs ! i"
  shows "filter P (xs[i := y]) = filter P xs"
proof -
  have "filter P (take i xs @ y # drop (Suc i) xs) = filter P (take i xs @ xs ! i # drop (Suc i) xs)"
    using assms(2,3) by auto
  then show ?thesis using assms(1) by (simp add: upd_conv_take_nth_drop flip: id_take_nth_drop)
qed

lemma get_cache_req_effect:
  assumes "get_non_batch_cache_req ct a = Some (i, ct1)"
  shows "i < length (ct_cache ct1)" "ct1 = ct\<lparr>ct_cache := ct_cache ct1\<rparr>" "filter is_req_valid (ct_cache ct1) = filter is_req_valid (ct_cache ct)"
    "cr_addr (ct_cache ct1 ! i) = a \<or> \<not> is_req_valid (ct_cache ct1 ! i) \<and> cr_sleep (ct_cache ct1 ! i) = UINT_MAX \<and> cr_wake (ct_cache ct1 ! i) = UINT_MAX"
  using assms by (auto simp: get_non_batch_cache_req_def is_req_valid_def split: if_splits option.splits dest: index_of_Some)

lemma cache_one_effect:
  assumes "cache_rpm_request ct st c = (r, ct')"
  shows "ct_batch ct' = ct_batch ct" "ct_flags ct' = ct_flags ct" "ct_dirty ct \<Longrightarrow> ct_dirty ct'"
    "cmd_data c \<noteq> UINT_MAX \<Longrightarrow> \<not> ct_dirty ct' \<Longrightarrow> filter is_req_valid (ct_cache ct') = filter is_req_valid (ct_cache ct)"
proof -
  show "ct_batch ct' = ct_batch ct" "ct_flags ct' = ct_flags ct" "ct_dirty ct \<Longrightarrow> ct_dirty ct'"
    using assms by (auto simp: cache_rpm_request_def get_non_batch_cache_req_def Let_def split: if_splits option.splits)
  assume ne: "cmd_data c \<noteq> UINT_MAX" and nd: "\<not> ct_dirty ct'"
  show "filter is_req_valid (ct_cache ct') = filter is_req_valid (ct_cache ct)"
  proof (cases "get_non_batch_cache_req ct (cmd_addr c)")
    case None
    then show ?thesis using assms by (simp add: cache_rpm_request_def)
  next
    case (Some p)
    obtain i ct1 where p: "p = (i, ct1)" by force
    note e = get_cache_req_effect [OF Some [unfolded p]]
    define q where "q = ct_cache ct1 ! i"
    define q' where "q' = (if st = RPMH_SLEEP_STATE then q\<lparr>cr_addr := cmd_addr c, cr_sleep := cmd_data c\<rparr>
                      else q\<lparr>cr_addr := cmd_addr c, cr_wake := cmd_data c\<rparr>)"
    have ct': "ct_cache ct' = (ct_cache ct1)[i := q']"
      and nd': "\<not> ((cr_sleep q' \<noteq> cr_sleep q \<or> cr_wake q' \<noteq> cr_wake q) \<and> cr_sleep q' \<noteq> UINT_MAX \<and> cr_wake q' \<noteq> UINT_MAX)"
      using assms nd unfolding cache_rpm_request_def Some p q'_def q_def by (auto simp: Let_def)
    have "is_req_valid q' = is_req_valid q" "is_req_valid q' \<Longrightarrow> q' = q"
      using nd' e(4) ne unfolding q_def [symmetric] q'_def is_req_valid_def by (auto split: if_splits)
    then show ?thesis unfolding ct' e(3) [symmetric] using e(1) by (intro filter_list_update) (simp_all add: q_def)
  qed
qed

lemma cache_all_effect:
  assumes "cache_rpm_requests st cs ct = (r, ct')"
  shows "ct_batch ct' = ct_batch ct \<and> ct_flags ct' = ct_flags ct \<and> (ct_dirty ct \<longrightarrow> ct_dirty ct') \<and>
    (list_all (\<lambda>c. cmd_data c \<noteq> UINT_MAX) cs \<longrightarrow> \<not> ct_dirty ct' \<longrightarrow> filter is_req_valid (ct_cache ct') = filter is_req_valid (ct_cache ct))"
  using assms
proof (induction cs arbitrary: ct)
  case (Cons c cs)
  obtain r1 ct1 where c: "cache_rpm_request ct st c = (r1, ct1)" by force
  note e = cache_one_effect [OF c]
  show ?case
  proof (cases r1)
    case (OK u)
    have "cache_rpm_requests st cs ct1 = (r, ct')" using Cons.prems c OK by simp
    from Cons.IH [OF this] e show ?thesis by auto
  qed (use Cons.prems c e in auto)
qed simp

subsection \<open>The system invariant\<close>

definition programmed :: "rsc_drv \<Rightarrow> bool" where
  "programmed drv =
     list_all (\<lambda>ty. set (tcs_contents drv 0 ty) = set (cached_votes (drv_client drv) ty)) [SLEEP_TCS, WAKE_TCS]"

definition sys_ok :: "nat \<Rightarrow> rsc_drv \<Rightarrow> bool" where
  "sys_ok n drv =
     (dedicated n drv \<and> synced drv 0 SLEEP_TCS \<and> synced drv 0 WAKE_TCS \<and> batch_ok (drv_client drv) \<and>
      (\<not> ct_dirty (drv_client drv) \<longrightarrow> programmed drv))"

lemma sys_ok_frame:
  assumes "sys_ok n d" "sw_frame n d' d"
  shows "sys_ok n d'"
proof -
  have k: "chan_ok d 0 n" using assms(1) by (simp add: sys_ok_def dedicated_def)
  have "drv_client d' = drv_client d" using assms(2) by (simp add: sw_frame_def)
  then show ?thesis
    using assms(1) sw_frame_sets [OF assms(2) k] sw_frame_dedicated [OF assms(2)]
    unfolding sys_ok_def programmed_def by auto
qed

lemma sys_ok_client:
  assumes "sys_ok n d" "batch_ok ct"
    "\<not> ct_dirty ct \<Longrightarrow> \<not> ct_dirty (drv_client d) \<and> (\<forall>ty. cached_votes ct ty = cached_votes (drv_client d) ty)"
  shows "sys_ok n (d\<lparr>drv_client := ct\<rparr>)"
proof -
  define e where "e = d\<lparr>drv_client := ct\<rparr>"
  have sh: "shape e = shape d" and cl: "drv_client e = ct" by (simp_all add: e_def)
  have ac: "enabled e = enabled d" "slot_cmd e = slot_cmd d" "drv_ch e = drv_ch d"
    by (simp_all add: e_def fun_eq_iff enabled_def slot_cmd_def read_tcs_reg_def read_tcs_cmd_def tcs_reg_addr_def tcs_cmd_addr_def tcs_stride_def)
  have "synced e 0 ty = synced d 0 ty" "tcs_contents e 0 ty = tcs_contents d 0 ty" for ty
    by (simp_all add: synced_def tcs_contents_def ac)
  then show ?thesis
    using assms unfolding e_def [symmetric] sys_ok_def dedicated_shape [OF sh] cl programmed_def by auto
qed

lemma sys_ok_flush_inv: "sys_ok n d \<Longrightarrow> flush_inv n 0 d"
  by (simp add: sys_ok_def flush_inv_def dedicated_def)

lemma sys_ok_flush:
  assumes "sys_ok n d" "do_rpmh_flush env 0 d = (r, d')"
  shows "sys_ok n d'"
proof -
  have b: "batch_ok (drv_client d)" using assms(1) by (simp add: sys_ok_def)
  note f = do_flush_step [OF sys_ok_flush_inv [OF assms(1)] b assms(2)]
  have cv: "cached_votes (drv_client d') ty = cached_votes (drv_client d) ty" for ty unfolding f(5) by (simp add: cached_votes_def)
  have "batch_ok (drv_client d')" unfolding f(5) using b by (simp add: batch_ok_def)
  moreover have "programmed d'" if "\<not> ct_dirty (drv_client d')"
  proof -
    have "r = OK ()" using f(8) that by blast
    then show ?thesis using f(6,7) assms(1) unfolding programmed_def cv
      by (cases "ct_dirty (drv_client d)") (auto simp: sys_ok_def programmed_def)
  qed
  ultimately show ?thesis
    using f(1) assms(1) unfolding sys_ok_def dedicated_shape [OF f(2)] by (auto simp: flush_inv_def)
qed

subsection \<open>Every operation keeps it\<close>

lemma dedicated_channel: "dedicated n d \<Longrightarrow> rpmh_rsc_get_channel d chn = Returns (OK 0)"
  by (simp add: dedicated_def rpmh_rsc_get_channel_def)

lemma sys_ok_dedicated: "sys_ok n d \<Longrightarrow> dedicated n d"
  by (simp add: sys_ok_def)

lemma fill_msg_effect:
  assumes "fill_rpmh_msg env req st cmd k = OK msg"
  shows "rq_state msg = st" "length (rq_cmds msg) \<le> env_max_payload env" "\<exists>cs. cmd = Some cs \<and> rq_cmds msg = take k cs"
  using assms by (auto simp: fill_rpmh_msg_def split: option.splits if_splits)

definition plain_data :: "tcs_cmd list option \<Rightarrow> bool" where
  "plain_data cmd = (case cmd of None \<Rightarrow> True | Some cs \<Rightarrow> list_all (\<lambda>c. cmd_data c \<noteq> UINT_MAX) cs)"

lemma fill_msg_plain:
  assumes "fill_rpmh_msg env req st cmd k = OK msg" "plain_data cmd"
  shows "list_all (\<lambda>c. cmd_data c \<noteq> UINT_MAX) (rq_cmds msg)"
  using fill_msg_effect(3) [OF assms(1)] assms(2) by (auto simp: plain_data_def list_all_iff) (metis in_set_takeD)

lemma sys_ok_cache:
  assumes "sys_ok n d" "cache_rpm_requests st cs (drv_client d) = (r, ct)" "list_all (\<lambda>c. cmd_data c \<noteq> UINT_MAX) cs"
  shows "sys_ok n (d\<lparr>drv_client := ct\<rparr>)"
  using cache_all_effect [OF assms(2)] assms(1,3)
  by (intro sys_ok_client) (auto simp: sys_ok_def batch_ok_def cached_votes_def)

lemma sys_ok_send:
  assumes "sys_ok n d" "rq_state msg = RPMH_ACTIVE_ONLY_STATE" "length (rq_cmds msg) \<le> n"
    "rpmh_rsc_send_data msg 0 events sts d = Returns (r, d')" "list_all (\<lambda>e. active_irq d (fst e)) events"
  shows "sys_ok n d'"
  by (rule sys_ok_frame [OF assms(1) send_data_frame [OF sys_ok_dedicated [OF assms(1)] assms(2-5)]])

text \<open>The interrupts that arrive during a call are those of the active command sets.\<close>

definition quiet_env :: "rsc_drv \<Rightarrow> rpmh_env \<Rightarrow> bool" where
  "quiet_env d env = (list_all (\<lambda>e. active_irq d (fst e)) (env_events env) \<and> list_all (active_irq d) (env_irqs env))"

lemma sys_ok_write:
  assumes "sys_ok n d" "list_all (\<lambda>c. cmd_data c \<noteq> UINT_MAX) (rq_cmds msg)" "rq_state msg = st" "length (rq_cmds msg) \<le> n"
    "do_rpmh_write env st msg d = Returns (r, d')" "quiet_env d env"
  shows "sys_ok n d'"
proof -
  obtain q ct where c: "cache_rpm_requests st (rq_cmds msg) (drv_client d) = (q, ct)" by force
  note k = sys_ok_cache [OF assms(1) c assms(2)]
  show ?thesis
  proof (cases q)
    case (OK u)
    show ?thesis
    proof (cases "st = RPMH_ACTIVE_ONLY_STATE")
      case True
      have "rpmh_rsc_send_data msg 0 (env_events env) (env_sts env) (d\<lparr>drv_client := ct\<rparr>) = Returns (r, d')"
        using assms(5) True OK c dedicated_channel [OF sys_ok_dedicated [OF k]] by (simp add: do_rpmh_write_def)
      moreover have "list_all (\<lambda>e. active_irq (d\<lparr>drv_client := ct\<rparr>) (fst e)) (env_events env)"
        using assms(6) by (simp add: quiet_env_def active_irq_def)
      ultimately show ?thesis using assms(3) True by (intro sys_ok_send [OF k _ assms(4)]) simp_all
    next
      case False
      then show ?thesis using assms(5) OK c sys_ok_frame [OF k rpmh_tx_done_frame] by (auto simp: do_rpmh_write_def)
    qed
  qed (use assms(5) c k in \<open>auto simp: do_rpmh_write_def\<close>)
qed

lemma write_shape:
  assumes "sys_ok n d" "rq_state msg = st" "length (rq_cmds msg) \<le> n" "do_rpmh_write env st msg d = Returns (r, d')" "quiet_env d env"
  shows "shape d' = shape d"
proof -
  obtain q ct where c: "cache_rpm_requests st (rq_cmds msg) (drv_client d) = (q, ct)" by force
  let ?d = "d\<lparr>drv_client := ct\<rparr>"
  have ded: "dedicated n ?d" using sys_ok_dedicated [OF assms(1)] dedicated_shape [of ?d d] by simp
  have ev: "list_all (\<lambda>e. active_irq ?d (fst e)) (env_events env)" using assms(5) by (simp add: quiet_env_def active_irq_def)
  show ?thesis
  proof (cases "st = RPMH_ACTIVE_ONLY_STATE \<and> q = OK ()")
    case True
    have "rpmh_rsc_send_data msg 0 (env_events env) (env_sts env) ?d = Returns (r, d')"
      using assms(4) True c dedicated_channel [OF ded] by (simp add: do_rpmh_write_def)
    from send_data_frame [OF ded _ assms(3) this ev] show ?thesis using assms(2) True by (simp add: sw_frame_def)
  next
    case False
    then show ?thesis using assms(4) c by (cases q) (auto simp: do_rpmh_write_def rpmh_tx_done_def Let_def split: option.splits)
  qed
qed

lemma sys_ok_filled:
  assumes "sys_ok n d" "plain_data cmd" "env_max_payload env \<le> n" "fill_rpmh_msg env req st cmd k = OK msg"
    "do_rpmh_write env st msg d = Returns (r, d')" "quiet_env d env"
  shows "sys_ok n d'"
  using fill_msg_effect [OF assms(4)] fill_msg_plain [OF assms(4,2)] assms(3)
  by (intro sys_ok_write [OF assms(1) _ _ _ assms(5,6)]) auto

lemma sys_ok_write_async:
  assumes "sys_ok n d" "plain_data cmd" "env_max_payload env \<le> n" "rpmh_write_async env st cmd k d = Returns (r, d')"
    "quiet_env d env"
  shows "sys_ok n d'"
  using assms sys_ok_filled [OF assms(1-3) _ _ assms(5)] by (auto simp: rpmh_write_async_def split: if_splits result.splits)

lemma sys_ok_completion:
  assumes "sys_ok n d" "wait_for_completion c irqs d = (r, d')" "list_all (active_irq d) irqs"
  shows "sys_ok n d'"
  by (rule sys_ok_frame [OF assms(1) completion_frame [OF sys_ok_dedicated [OF assms(1)] assms(3,2)]])

lemma sys_ok_rpmh_write:
  assumes "sys_ok n d" "plain_data cmd" "env_max_payload env \<le> n" "rpmh_write env c st cmd k d = Returns (r, d')"
    "quiet_env d env"
  shows "sys_ok n d'"
proof (cases "\<exists>msg q d1. fill_rpmh_msg env (onstack_msg st (Some c)) st cmd k = OK msg \<and> do_rpmh_write env st msg d = Returns (q, d1) \<and>
    (d' = d1 \<or> (\<exists>b. wait_for_completion c (env_irqs env) d1 = (b, d')))")
  case True
  then obtain msg q d1 where m: "fill_rpmh_msg env (onstack_msg st (Some c)) st cmd k = OK msg" "do_rpmh_write env st msg d = Returns (q, d1)"
    and d': "d' = d1 \<or> (\<exists>b. wait_for_completion c (env_irqs env) d1 = (b, d'))" by blast
  have k: "sys_ok n d1" by (rule sys_ok_filled [OF assms(1-3) m assms(5)])
  have "shape d1 = shape d"
    by (rule write_shape [OF assms(1) _ _ m(2) assms(5)]) (use fill_msg_effect [OF m(1)] assms(3) in auto)
  then have "list_all (active_irq d1) (env_irqs env)" using assms(5) active_irq_shape [of d1 d] by (simp add: quiet_env_def)
  then show ?thesis using d' k sys_ok_completion by blast
next
  case False
  then show ?thesis using assms(1,4)
    by (auto simp: rpmh_write_def split: if_splits result.splits prod.splits bool.splits) (metis result.exhaust unit.exhaust)+
qed

lemma sys_ok_batch_set:
  assumes "sys_ok n d" "rq_cmds req = [] \<or> rq_state req = st"
  shows "sys_ok n (d\<lparr>drv_client := (drv_client d)\<lparr>ct_batch := (ct_batch (drv_client d))(st := req), ct_dirty := True\<rparr>\<rparr>)"
  by (rule sys_ok_client [OF assms(1)]) (use assms in \<open>auto simp: sys_ok_def batch_ok_def\<close>)

lemma sys_ok_write_batch:
  assumes "sys_ok n d" "env_max_payload env \<le> n" "rpmh_write_batch env c st cmd ks d = Returns (r, d')"
    "quiet_env d env"
  shows "sys_ok n d'"
proof (cases "st = RPMH_ACTIVE_ONLY_STATE")
  case False
  have z: "rq_cmds zero_request = []" by (simp add: zero_request_def)
  show ?thesis using assms(3) False assms(1) sys_ok_batch_set [OF assms(1) disjI1 [OF z]] 
      sys_ok_batch_set [OF assms(1) disjI2 [OF fill_msg_effect(1)]]
    by (auto simp: rpmh_write_batch_def Let_def split: if_splits result.splits)
next
  case True
  show ?thesis
  proof (cases "\<exists>msg q d1. fill_rpmh_msg env (onstack_msg st (Some c)) st cmd (hd ks) = OK msg \<and>
      rpmh_rsc_send_data msg 0 (env_events env) (env_sts env) d = Returns (q, d1) \<and>
      (d' = d1 \<or> (\<exists>b. wait_for_completion c (env_irqs env) d1 = (b, d')))")
    case ex: True
    then obtain msg q d1 where m: "fill_rpmh_msg env (onstack_msg st (Some c)) st cmd (hd ks) = OK msg"
      and s: "rpmh_rsc_send_data msg 0 (env_events env) (env_sts env) d = Returns (q, d1)"
      and d': "d' = d1 \<or> (\<exists>b. wait_for_completion c (env_irqs env) d1 = (b, d'))" by blast
    have f: "sw_frame n d1 d"
      using fill_msg_effect [OF m] assms(2,4) by (intro send_data_frame [OF sys_ok_dedicated [OF assms(1)] _ _ s]) (auto simp: True quiet_env_def)
    have "list_all (active_irq d1) (env_irqs env)" using assms(4) sw_frame_active_irq [OF f] by (simp add: quiet_env_def)
    then show ?thesis using d' sys_ok_frame [OF assms(1) f] sys_ok_completion by blast
  next
    case False
    then show ?thesis using assms(1,3) True dedicated_channel [OF sys_ok_dedicated [OF assms(1)]]
      by (auto simp: rpmh_write_batch_def split: if_splits result.splits prod.splits bool.splits)
        (metis result.exhaust unit.exhaust)+
  qed
qed

lemma sys_ok_invalidate: "sys_ok n d \<Longrightarrow> sys_ok n (rpmh_invalidate env d)"
  unfolding rpmh_invalidate_def Let_def
  by (cases "env_standalone env", simp, simp, rule sys_ok_client) (auto simp: batch_ok_def zero_request_def)

lemma sys_ok_rpmh_flush:
  assumes "sys_ok n d" "rpmh_flush env 0 d = (r, d')"
  shows "sys_ok n d'"
  using assms sys_ok_flush [OF assms(1)] by (auto simp: rpmh_flush_def split: if_splits)

lemma sys_ok_same:
  assumes "sys_ok n d" "shape d' = shape d" "drv_client d' = drv_client d" "drv_hw d' = drv_hw d" "drv_ch d' = drv_ch d"
  shows "sys_ok n d'"
  by (rule sys_ok_frame [OF assms(1) sw_frame_same]) (use assms in auto)

lemma switch_frame:
  "rpmh_rsc_switch_channel cmpl ch d = (r, d') \<Longrightarrow>
     shape d' = shape d \<and> drv_client d' = drv_client d \<and> drv_hw d' = drv_hw d \<and> drv_ch d' = drv_ch d"
  by (auto simp: rpmh_rsc_switch_channel_def rpmh_rsc_is_tcs_completed_def write_base_def Let_def split: if_splits)

lemma sys_ok_switch: "sys_ok n d \<Longrightarrow> rpmh_rsc_switch_channel cmpl ch d = (r, d') \<Longrightarrow> sys_ok n d'"
  using switch_frame [of cmpl ch d r d'] sys_ok_same [of n d d'] by blast

lemma sys_ok_sleep_and_wake:
  assumes "sys_ok n d" "rpmh_write_sleep_and_wake env d = Returns (r, d')"
  shows "sys_ok n d'"
proof -
  obtain q d1 where f: "rpmh_flush env 0 d = (q, d1)" by force
  have k: "sys_ok n d1" by (rule sys_ok_rpmh_flush [OF assms(1) f])
  have "d' = d1 \<or> (\<exists>x. rpmh_rsc_switch_channel (env_cmpl env) 0 d1 = (x, d'))"
    using assms(2) f dedicated_channel [OF sys_ok_dedicated [OF assms(1)]]
    by (cases q) (auto simp: rpmh_write_sleep_and_wake_def split: if_splits)
  then show ?thesis using k sys_ok_switch by blast
qed

lemma sys_ok_solver:
  assumes "sys_ok n d" "rpmh_mode_solver_set env enable d = (r, d')"
  shows "sys_ok n d'"
proof -
  have k: "sys_ok n (d\<lparr>drv_in_solver_mode := enable\<rparr>)" by (rule sys_ok_same [OF assms(1)]) simp_all
  have "sys_ok n (d\<lparr>drv_in_solver_mode := enable, drv_client := (drv_client d)\<lparr>ct_in_solver_mode := enable\<rparr>\<rparr>)"
    by (rule sys_ok_client [OF k]) (use assms(1) in \<open>auto simp: sys_ok_def batch_ok_def cached_votes_def\<close>)
  then show ?thesis using assms
    by (auto simp: rpmh_mode_solver_set_def rpmh_rsc_mode_solver_set_def split: if_splits)
qed

lemma sys_ok_cpus: "sys_ok n d \<Longrightarrow> sys_ok n (d\<lparr>drv_cpus_in_pm := k\<rparr>)"
  by (rule sys_ok_same) simp_all

lemma sys_ok_cpu_pm:
  assumes "sys_ok n d" "rpmh_rsc_cpu_pm_callback env online online' action d = Returns (r, d')"
  shows "sys_ok n d'"
proof -
  define e where "e = d\<lparr>drv_cpus_in_pm := drv_cpus_in_pm d + 1\<rparr>"
  obtain q d1 where f: "rpmh_flush env 0 e = (q, d1)" by force
  have e: "sys_ok n e" unfolding e_def by (rule sys_ok_cpus [OF assms(1)])
  have d1: "sys_ok n d1" by (rule sys_ok_rpmh_flush [OF e f])
  have "\<exists>b k. b \<in> {d, e, d1} \<and> (d' = b \<or> d' = b\<lparr>drv_cpus_in_pm := k\<rparr>)"
    using assms(2) f dedicated_channel [OF sys_ok_dedicated [OF e]]
    by (cases action; cases q) (auto simp: rpmh_rsc_cpu_pm_callback_def e_def [symmetric] Let_def split: if_splits)
  then show ?thesis using assms(1) e d1 sys_ok_cpus by auto
qed

lemma sys_ok_pd:
  assumes "sys_ok n d" "rpmh_rsc_pd_callback env pre_off d = Returns (r, d')"
  shows "sys_ok n d'"
proof -
  obtain q d1 where f: "do_rpmh_flush env 0 d = (q, d1)" by force
  have "sys_ok n d1" by (rule sys_ok_flush [OF assms(1) f])
  then show ?thesis using assms f dedicated_channel [OF sys_ok_dedicated [OF assms(1)]]
    by (cases q) (auto simp: rpmh_rsc_pd_callback_def split: if_splits)
qed

lemma sys_ok_irq_mask:
  assumes "sys_ok n d"
  shows "sys_ok n (d\<lparr>drv_hw := (drv_hw d)(drv_regs d RSC_DRV_IRQ_ENABLE := v)\<rparr>)" (is "sys_ok n ?d")
proof -
  have l: "lay d n" using assms by (simp add: sys_ok_def dedicated_def chan_ok_def)
  note f = irq_write_frame [OF l disjI1 [OF refl] refl, where v = v]
  have "sw_frame n ?d d" unfolding sw_frame_def using f(3,4) by simp
  then show ?thesis by (rule sys_ok_frame [OF assms])
qed

lemma sys_ok_irq_enable: "sys_ok n d \<Longrightarrow> sys_ok n (rpmh_rsc_tcs_irq_enable d)"
  by (simp add: rpmh_rsc_tcs_irq_enable_def MAX_CHANNEL_def upt_rec Let_def sys_ok_irq_mask)

subsection \<open>Runs of the controller\<close>

inductive rpmh_step :: "nat \<Rightarrow> rsc_drv \<Rightarrow> rsc_drv \<Rightarrow> bool" for n where
  async: "quiet_env d env \<Longrightarrow> plain_data cmd \<Longrightarrow> env_max_payload env \<le> n \<Longrightarrow> rpmh_write_async env st cmd k d = Returns (r, d') \<Longrightarrow> rpmh_step n d d'"
| sync: "quiet_env d env \<Longrightarrow> plain_data cmd \<Longrightarrow> env_max_payload env \<le> n \<Longrightarrow> rpmh_write env c st cmd k d = Returns (r, d') \<Longrightarrow> rpmh_step n d d'"
| batch: "quiet_env d env \<Longrightarrow> env_max_payload env \<le> n \<Longrightarrow> rpmh_write_batch env c st cmd ks d = Returns (r, d') \<Longrightarrow> rpmh_step n d d'"
| invalidate: "rpmh_step n d (rpmh_invalidate env d)"
| flush: "rpmh_flush env 0 d = (r, d') \<Longrightarrow> rpmh_step n d d'"
| sleep_wake: "rpmh_write_sleep_and_wake env d = Returns (r, d') \<Longrightarrow> rpmh_step n d d'"
| solver: "rpmh_mode_solver_set env enable d = (r, d') \<Longrightarrow> rpmh_step n d d'"
| irq: "active_irq d status \<Longrightarrow> tcs_tx_done status d = OK d' \<Longrightarrow> rpmh_step n d d'"
| cpu_pm: "rpmh_rsc_cpu_pm_callback env online online' action d = Returns (s, d') \<Longrightarrow> rpmh_step n d d'"
| pd: "rpmh_rsc_pd_callback env pre_off d = Returns (s, d') \<Longrightarrow> rpmh_step n d d'"
| restore: "rpmh_step n d (rpmh_rsc_tcs_irq_enable d)"

lemma rpmh_step_ok: "rpmh_step n d d' \<Longrightarrow> sys_ok n d \<Longrightarrow> sys_ok n d'"
proof (induction rule: rpmh_step.induct)
  case (irq status d d')
  then show ?case using sys_ok_frame tcs_tx_done_frame sys_ok_dedicated by blast
qed (blast intro: sys_ok_write_async sys_ok_rpmh_write sys_ok_write_batch sys_ok_invalidate sys_ok_rpmh_flush
    sys_ok_sleep_and_wake sys_ok_solver sys_ok_cpu_pm sys_ok_pd sys_ok_irq_enable)+

lemma rpmh_steps_ok: "(rpmh_step n)\<^sup>*\<^sup>* d d' \<Longrightarrow> sys_ok n d \<Longrightarrow> sys_ok n d'"
  by (induction rule: rtranclp_induct) (auto dest: rpmh_step_ok)

end
