(* ===== verification/Rpmh_Probe.thy ===== *)
theory Rpmh_Probe
  imports Rpmh_System
begin

text \<open>
  Probing the controllers (\<^verbatim>\<open>rpmh_rsc_probe\<close>): the register table of the version, the TCS groups
  of the device tree and the way a controller learns about power-down. A successful set-up gives
  the groups command sets of their own and establishes the invariant of the runs.
\<close>

subsection \<open>Probing a controller\<close>

text \<open>
  A \<^verbatim>\<open>drv\<close> node of the device tree: its number, the two register windows (or the error of
  mapping them), the result of registering its device, its TCS properties and its interrupt.
\<close>

record drv_node =
  nd_id :: "nat option"
  nd_base :: "(nat \<Rightarrow> u32w) result"
  nd_tcs_base :: "nat \<Rightarrow> u32w"
  nd_device :: "unit result"
  nd_has_offset :: bool
  nd_distance :: "nat option"
  nd_cfgs :: "nat list list"

definition zero_group :: tcs_group where
  "zero_group =
     \<lparr>tg_present = False, tg_type = SLEEP_TCS, tg_mask = 0, tg_offset = 0, tg_num_tcs = 0, tg_ncpt = 0,
      tg_req = (\<lambda>_. None), tg_slots = (\<lambda>_. False)\<rparr>"

definition zero_drv :: rsc_drv where
  "zero_drv =
     \<lparr>drv_tcs_distance = 0, drv_id = 0, drv_num_tcs = 0, drv_num_channels = 0, drv_in_solver_mode = False,
      drv_cpus_in_pm = 0, drv_control_tcs = 0, drv_ch = (\<lambda>_. \<lparr>ch_tcs = (\<lambda>_. zero_group), ch_initialized = False\<rparr>),
      drv_in_use = (\<lambda>_. False), drv_regs = (\<lambda>_. 0), drv_hw = (\<lambda>_. 0), drv_base = (\<lambda>_. 0),
      drv_client = \<lparr>ct_dirty = False, ct_in_solver_mode = False, ct_flags = 0, ct_batch = (\<lambda>_. zero_request), ct_cache = []\<rparr>,
      drv_done = []\<rparr>"

text \<open>The first loop of \<^verbatim>\<open>rpmh_rsc_probe\<close>: the registers of the version and the TCS groups.\<close>

definition probe_config :: "drv_node \<Rightarrow> nat \<Rightarrow> rsc_drv \<Rightarrow> unit result \<times> rsc_drv" where
  "probe_config nd i drv =
     (case nd_base nd of
        Err e \<Rightarrow> (Err e, drv)
      | UB \<Rightarrow> (UB, drv)
      | OK base \<Rightarrow>
          let d = drv\<lparr>drv_base := base, drv_id := i\<rparr> in
          (case nd_device nd of
             OK _ \<Rightarrow>
               let rsc_id = base 0;
                   major_ver = drop_bit 16 (rsc_id AND push_bit 16 0xFF);
                   regs = (if major_ver \<ge> 3 then rpmh_rsc_reg_offset_ver_3_0 else rpmh_rsc_reg_offset_ver_2_7)
               in rpmh_probe_tcs_config (nd_has_offset nd) (nd_distance nd) (nd_cfgs nd)
                    (d\<lparr>drv_regs := regs, drv_hw := nd_tcs_base nd\<rparr>)
           | r \<Rightarrow> (r, d)))"

text \<open>The array of controllers with their \<^verbatim>\<open>initialized\<close> flags; the number of a node is not checked.\<close>

fun probe_nodes :: "drv_node list \<Rightarrow> (bool \<times> rsc_drv) list \<Rightarrow> unit result \<times> (bool \<times> rsc_drv) list" where
  "probe_nodes [] drvs = (OK (), drvs)"
| "probe_nodes (nd # nds) drvs =
     (case nd_id nd of
        None \<Rightarrow> (Err EINVAL, drvs)
      | Some i \<Rightarrow>
          if i \<ge> length drvs then (UB, drvs)
          else
            case probe_config nd i (snd (drvs ! i)) of
              (OK _, d) \<Rightarrow> probe_nodes nds (drvs[i := (True, d)])
            | (r, d) \<Rightarrow> (r, drvs[i := (fst (drvs ! i), d)]))"

text \<open>
  The second loop: how the controller learns about power-down. \<open>pd\<close> is the result of attaching to
  a power domain, if there is one, and \<open>hw_channel\<close> whether the node has that property.
\<close>

definition probe_register :: "unit result option \<Rightarrow> bool \<Rightarrow> rsc_drv \<Rightarrow> unit result \<times> rsc_drv" where
  "probe_register pd hw_channel drv =
     (let solver_config = drop_bit 24 (drv_base drv (drv_regs drv DRV_SOLVER_CONFIG) AND push_bit 24 1);
          init = (\<lambda>d. d\<lparr>drv_in_use := (\<lambda>_. False), drv_client := (drv_client d)\<lparr>ct_cache := []\<rparr>\<rparr>)
      in case pd of
           Some (OK _) \<Rightarrow> (OK (), init drv)
         | Some r \<Rightarrow> (r, drv)
         | None \<Rightarrow>
             if solver_config = 0 \<and> \<not> hw_channel then (OK (), init drv)
             else if solver_config \<noteq> 0 then (OK (), init (drv\<lparr>drv_client := (drv_client drv)\<lparr>ct_flags := SOLVER_PRESENT\<rparr>\<rparr>))
             else
               (OK (), init (drv\<lparr>drv_client := (drv_client drv)\<lparr>ct_flags := SOLVER_PRESENT OR HW_CHANNEL_PRESENT, ct_in_solver_mode := True\<rparr>,
                                drv_in_solver_mode := True, drv_regs := rpmh_rsc_reg_offset_ver_3_0_hw_channel\<rparr>)))"

text \<open>\<open>irq i\<close> is the result of looking up and requesting the interrupt of controller \<open>i\<close>.\<close>

fun probe_drvs ::
  "unit result option \<Rightarrow> bool \<Rightarrow> (nat \<Rightarrow> unit result) \<Rightarrow> nat \<Rightarrow> (bool \<times> rsc_drv) list \<Rightarrow> unit result \<times> (bool \<times> rsc_drv) list" where
  "probe_drvs pd hw_channel irq i [] = (OK (), [])"
| "probe_drvs pd hw_channel irq i ((initialized, drv) # drvs) =
     (if \<not> initialized then map_prod id ((#) (initialized, drv)) (probe_drvs pd hw_channel irq (Suc i) drvs)
      else
        case probe_register pd hw_channel drv of
          (OK _, d) \<Rightarrow>
            (case irq (drv_id d) of
               OK _ \<Rightarrow> map_prod id ((#) (initialized, d)) (probe_drvs pd hw_channel irq (Suc i) drvs)
             | r \<Rightarrow> (r, (initialized, d) # drvs))
        | (r, d) \<Rightarrow> (r, (initialized, d) # drvs))"

definition rpmh_rsc_probe ::
  "bytes option \<Rightarrow> nat option \<Rightarrow> drv_node list \<Rightarrow> unit result option \<Rightarrow> bool \<Rightarrow> (nat \<Rightarrow> unit result) \<Rightarrow>
   (bool \<times> (bool \<times> rsc_drv) list) result" where
  "rpmh_rsc_probe db drv_count nodes pd hw_channel irq =
     rbind (cmd_db_ready db) (\<lambda>_.
     rbind (cmd_db_is_standalone db) (\<lambda>standalone.
       case drv_count of
         None \<Rightarrow> Err EINVAL
       | Some count \<Rightarrow>
           (case probe_nodes nodes (replicate count (False, zero_drv)) of
              (OK _, drvs) \<Rightarrow>
                (case probe_drvs pd hw_channel irq 0 drvs of
                   (OK _, drvs') \<Rightarrow> OK (standalone, drvs')
                 | (Err e, _) \<Rightarrow> Err e
                 | (UB, _) \<Rightarrow> UB)
            | (Err e, _) \<Rightarrow> Err e
            | (UB, _) \<Rightarrow> UB)))"

definition rpmh_rsc_restore_noirq :: "(bool \<times> rsc_drv) list \<Rightarrow> (bool \<times> rsc_drv) list" where
  "rpmh_rsc_restore_noirq drvs =
     map (\<lambda>(initialized, drv). (initialized, if initialized then rpmh_rsc_tcs_irq_enable drv else drv)) drvs"

text \<open>
  The lookup of a controller by the name of its top device and its number: the devices are given as
  a list of names with their controllers.
\<close>

definition rpmh_rsc_get_top_device :: "(string \<times> (bool \<times> rsc_drv) list) list \<Rightarrow> string \<Rightarrow> (string \<times> (bool \<times> rsc_drv) list) result" where
  "rpmh_rsc_get_top_device devs name =
     (case find (\<lambda>t. fst t = name) devs of None \<Rightarrow> Err ENODEV | Some t \<Rightarrow> OK t)"

definition rpmh_rsc_get_device :: "(string \<times> (bool \<times> rsc_drv) list) list \<Rightarrow> string \<Rightarrow> nat \<Rightarrow> rsc_drv result" where
  "rpmh_rsc_get_device devs name n =
     (case rpmh_rsc_get_top_device devs name of
        OK (_, drvs) \<Rightarrow>
          if name \<noteq> ''cam_rsc'' then Err ENODEV
          else if n < length drvs \<and> fst (drvs ! n) then OK (snd (drvs ! n)) else Err ENODEV
      | Err _ \<Rightarrow> Err ENODEV
      | UB \<Rightarrow> UB)"

subsection \<open>Set-up gives the groups their own command sets\<close>

definition place_inv :: "nat \<Rightarrow> nat \<Rightarrow> nat \<Rightarrow> drv_channel \<Rightarrow> bool" where
  "place_inv base n st chan =
     ((\<forall>ty i. ty \<noteq> CONTROL_TCS \<and> in_group (ch_tcs chan ty) i \<longrightarrow> base \<le> i \<and> i < base + st) \<and>
      (\<forall>ty i. ty \<noteq> CONTROL_TCS \<and> bit (tg_mask (ch_tcs chan ty)) i \<longrightarrow> in_group (ch_tcs chan ty) i) \<and>
      (\<forall>ty ty' i. ty \<noteq> ty' \<and> ty \<noteq> CONTROL_TCS \<and> ty' \<noteq> CONTROL_TCS \<longrightarrow>
         \<not> (in_group (ch_tcs chan ty) i \<and> in_group (ch_tcs chan ty') i)) \<and>
      (\<forall>ty. tg_present (ch_tcs chan ty) \<longrightarrow> tg_ncpt (ch_tcs chan ty) = n) \<and>
      (\<forall>ty. \<not> tg_present (ch_tcs chan ty) \<longrightarrow> tg_num_tcs (ch_tcs chan ty) = 0 \<and> tg_mask (ch_tcs chan ty) = 0))"

lemma group_mask_bit: "bit (push_bit a (push_bit n 1 - 1) :: u32w) i \<Longrightarrow> a \<le> i \<and> i < a + n"
  by (auto simp: bit_push_bit_iff push_bit_of_1 bit_mask_iff simp flip: mask_eq_exp_minus_1)

lemma place_inv_skip:
  assumes "place_inv base n st chan" "\<not> tg_present (ch_tcs chan ty)" "k = 0 \<or> ty = CONTROL_TCS"
    "g = (ch_tcs chan ty)\<lparr>tg_present := True, tg_type := ty, tg_num_tcs := k, tg_ncpt := n\<rparr>"
  shows "place_inv base n st (chan\<lparr>ch_tcs := (ch_tcs chan)(ty := g)\<rparr>)"
  using assms unfolding place_inv_def in_group_def by auto

lemma place_inv_place:
  assumes "place_inv base n st chan" "\<not> tg_present (ch_tcs chan ty)" "ty \<noteq> CONTROL_TCS"
    "g = (ch_tcs chan ty)\<lparr>tg_present := True, tg_type := ty, tg_num_tcs := k, tg_ncpt := n,
       tg_mask := push_bit (st + base) (push_bit k 1 - 1), tg_offset := st + base\<rparr>"
  shows "place_inv base n (st + k) (chan\<lparr>ch_tcs := (ch_tcs chan)(ty := g)\<rparr>)"
proof -
  have g: "in_group g i \<longleftrightarrow> st + base \<le> i \<and> i < st + base + k" for i by (simp add: assms(4) in_group_def)
  have m: "bit (tg_mask g) i \<Longrightarrow> in_group g i" for i using group_mask_bit by (simp add: assms(4) in_group_def)
  have o: "base \<le> i \<and> i < base + st" if "ty' \<noteq> CONTROL_TCS" "in_group (ch_tcs chan ty') i" for ty' i
    using assms(1) that by (auto simp: place_inv_def)
  have p: "tg_present g" "tg_ncpt g = n" by (simp_all add: assms(4))
  show ?thesis using assms(1) g m p unfolding place_inv_def by (auto dest: o)
qed

lemma place_groups_inv:
  assumes "place_inv base n st chan" "place_groups base mx n cfg st chan = (OK st', chan')"
  shows "place_inv base n st' chan' \<and> ch_initialized chan' = ch_initialized chan \<and>
    (\<forall>ty. tg_present (ch_tcs chan ty) \<or> ty \<in> fst ` set cfg \<longrightarrow> tg_present (ch_tcs chan' ty)) \<and>
    (\<forall>ty \<in> fst ` set cfg. \<not> tg_present (ch_tcs chan ty)) \<and> distinct (map fst cfg) \<and>
    (\<forall>ty. ty \<notin> fst ` set cfg \<longrightarrow> ch_tcs chan' ty = ch_tcs chan ty) \<and>
    (\<forall>ty k. (ty, k) \<in> set cfg \<longrightarrow> tg_num_tcs (ch_tcs chan' ty) = k) \<and>
    (\<forall>ty. tg_slots (ch_tcs chan' ty) = tg_slots (ch_tcs chan ty))"
  using assms
proof (induction cfg arbitrary: st chan)
  case (Cons p cfg)
  obtain ty k where p: "p = (ty, k)" by force
  have np: "\<not> tg_present (ch_tcs chan ty)" using Cons.prems(2) by (auto simp: p Let_def split: if_splits)
  define g where "g = (ch_tcs chan ty)\<lparr>tg_present := True, tg_type := ty, tg_num_tcs := k, tg_ncpt := n\<rparr>"
  define g' where "g' = g\<lparr>tg_mask := push_bit (st + base) (push_bit k 1 - 1), tg_offset := st + base\<rparr>"
  define c where "c = (if k = 0 \<or> ty = CONTROL_TCS then chan\<lparr>ch_tcs := (ch_tcs chan)(ty := g)\<rparr> else chan\<lparr>ch_tcs := (ch_tcs chan)(ty := g')\<rparr>)"
  define s where "s = (if k = 0 \<or> ty = CONTROL_TCS then st else st + k)"
  have rest: "place_groups base mx n cfg s c = (OK st', chan')"
    using Cons.prems(2) np by (auto simp: p Let_def c_def s_def g_def g'_def split: if_splits)
  have inv: "place_inv base n s c"
    using place_inv_skip [OF Cons.prems(1) np] place_inv_place [OF Cons.prems(1) np]
    by (simp add: c_def s_def g_def g'_def)
  have cc: "tg_present (ch_tcs c ty)" "tg_num_tcs (ch_tcs c ty) = k" "ch_initialized c = ch_initialized chan"
    "\<And>t. tg_slots (ch_tcs c t) = tg_slots (ch_tcs chan t)" "\<And>t. t \<noteq> ty \<Longrightarrow> ch_tcs c t = ch_tcs chan t"
    by (simp_all add: c_def g_def g'_def)
  note ih = Cons.IH [OF inv rest]
  have nd: "ty \<notin> fst ` set cfg" using ih cc(1) by blast
  have all: "tg_present (ch_tcs chan' t)" if "tg_present (ch_tcs chan t) \<or> t \<in> fst ` set (p # cfg)" for t
    using ih cc that p by (cases "t = ty") auto
  have none: "\<not> tg_present (ch_tcs chan t)" if "t \<in> fst ` set (p # cfg)" for t
    using ih cc(5) [of t] that p np by (cases "t = ty") auto
  show ?case using ih cc nd all none by (auto simp: p)
qed simp

lemma tcs_type_card: "distinct (map fst cfg) \<Longrightarrow> length cfg = 5 \<Longrightarrow> ty \<in> fst ` set (cfg :: (tcs_type \<times> nat) list)"
proof -
  assume d: "distinct (map fst cfg)" "length cfg = 5"
  have u: "(UNIV :: tcs_type set) = {SLEEP_TCS, WAKE_TCS, ACTIVE_TCS, CONTROL_TCS, FAST_PATH_TCS}"
    by (auto intro: tcs_type.exhaust)
  have "card (UNIV :: tcs_type set) = 5" unfolding u by simp
  then have "card (set (map fst cfg)) = card (UNIV :: tcs_type set)" using distinct_card [OF d(1)] d(2) by simp
  then have "set (map fst cfg) = UNIV" using card_subset_eq [of "UNIV :: tcs_type set"] u by (metis finite.emptyI finite_insert subset_UNIV)
  then show ?thesis by auto
qed

lemma parse_length: "parse_tcs_config cfg = OK tcs_cfg \<Longrightarrow> length tcs_cfg = length cfg div 2"
  by (induction cfg arbitrary: tcs_cfg rule: parse_tcs_config.induct) (auto split: if_splits)

text \<open>A controller as the allocation leaves it, except for its registers.\<close>

definition fresh_chan :: "drv_channel \<Rightarrow> bool" where
  "fresh_chan chan \<longleftrightarrow> ch_tcs chan = (\<lambda>_. zero_group) \<and> \<not> ch_initialized chan"

lemma fresh_place_inv: "fresh_chan chan \<Longrightarrow> place_inv base n 0 chan"
  by (auto simp: fresh_chan_def place_inv_def zero_group_def in_group_def)

lemma probe_channel_effect:
  assumes "fresh_chan (drv_ch d 0)" "rpmh_probe_channel_tcs_config cfg mx n 0 d = (OK (), d')"
  shows "\<exists>chan st. place_inv (drv_num_tcs d) n st chan \<and> (\<forall>ty. tg_present (ch_tcs chan ty)) \<and>
    (\<forall>ty. tg_slots (ch_tcs chan ty) = (\<lambda>_. False)) \<and>
    d' = d\<lparr>drv_hw := (drv_hw d)(drv_regs d RSC_DRV_IRQ_ENABLE := drv_hw d (drv_regs d RSC_DRV_IRQ_ENABLE) OR tg_mask (ch_tcs chan ACTIVE_TCS)),
           drv_ch := (drv_ch d)(0 := chan\<lparr>ch_initialized := True\<rparr>), drv_num_tcs := drv_num_tcs d + st\<rparr>"
proof -
  obtain tc where p: "parse_tcs_config cfg = OK tc" and l: "length cfg = 10"
    using assms(2) by (auto simp: rpmh_probe_channel_tcs_config_def split: if_splits result.splits)
  obtain r chan where g: "place_groups (drv_num_tcs d) mx n tc 0 (drv_ch d 0) = (r, chan)" by force
  have ch: "MAX_CHANNEL \<noteq> 0" by (simp add: MAX_CHANNEL_def)
  obtain st where r: "r = OK st"
    using assms(2) unfolding rpmh_probe_channel_tcs_config_def p by (cases r) (simp_all add: l ch g)
  have d': "d' = d\<lparr>drv_hw := (drv_hw d)(drv_regs d RSC_DRV_IRQ_ENABLE := drv_hw d (drv_regs d RSC_DRV_IRQ_ENABLE) OR tg_mask (ch_tcs chan ACTIVE_TCS)),
           drv_ch := (drv_ch d)(0 := chan\<lparr>ch_initialized := True\<rparr>), drv_num_tcs := drv_num_tcs d + st\<rparr>"
    using assms(2) unfolding rpmh_probe_channel_tcs_config_def p by (simp add: l ch g r Let_def)
  note e = place_groups_inv [OF fresh_place_inv [OF assms(1)] g [unfolded r]]
  have len: "length tc = 5" using parse_length [OF p] l by simp
  have pr: "tg_present (ch_tcs chan ty)" for ty using e tcs_type_card [OF _ len, of ty] by blast
  have "tg_slots (ch_tcs chan ty) = (\<lambda>_. False)" for ty using e assms(1) by (simp add: fresh_chan_def zero_group_def)
  then show ?thesis using pr by (intro exI [of _ chan] exI [of _ st] conjI allI conjunct1 [OF e] d') simp_all
qed

text \<open>The number of commands per set that the configuration register announces.\<close>

definition probe_ncpt :: "rsc_drv \<Rightarrow> nat" where
  "probe_ncpt d = unat (drop_bit 27 (drv_base d (drv_regs d DRV_PRNT_CHLD_CONFIG) AND push_bit 27 0x1F))"

lemma probe_ncpt_le: "probe_ncpt d \<le> 31"
proof -
  have "drop_bit 27 (x AND push_bit 27 0x1F) = drop_bit 27 x AND (0x1F :: u32w)" for x
    by (simp add: drop_bit_and drop_bit_push_bit)
  then have "probe_ncpt d = unat (drop_bit 27 (drv_base d (drv_regs d DRV_PRNT_CHLD_CONFIG)) AND 0x1F)"
    by (simp add: probe_ncpt_def)
  also have "\<dots> \<le> unat (0x1F :: u32w)" unfolding word_le_nat_alt [symmetric] by (rule word_and_le1)
  also have "\<dots> = 31" by simp
  finally show ?thesis .
qed

lemma probe_tcs_config_steps:
  assumes "rpmh_probe_tcs_config True dist [cfg] d = (OK (), d')" "e = d\<lparr>drv_tcs_distance := (case dist of None \<Rightarrow> 0 | Some k \<Rightarrow> k)\<rparr>"
  obtains mx d1 where "rpmh_probe_channel_tcs_config cfg mx (probe_ncpt d) 0 e = (OK (), d1)" "d' = d1\<lparr>drv_num_channels := 1\<rparr>"
proof -
  have n: "unat (drop_bit 27 (drv_base e (drv_regs e DRV_PRNT_CHLD_CONFIG) AND push_bit 27 0x1F)) = probe_ncpt d"
    by (simp add: assms(2) probe_ncpt_def)
  obtain mx where p: "probe_channels [cfg] mx (probe_ncpt d) 0 e = (OK (), d')"
    using assms(1) unfolding rpmh_probe_tcs_config_def assms(2) [symmetric] Let_def n not_True_eq_False if_False
    by (rule that)
  obtain r d1 where c: "rpmh_probe_channel_tcs_config cfg mx (probe_ncpt d) 0 e = (r, d1)" by force
  have "r = OK ()" "d' = d1\<lparr>drv_num_channels := 1\<rparr>" using p c by (cases r; simp)+
  then show thesis using that c by simp
qed

lemma probe_tcs_config_same:
  assumes "\<And>ch. fresh_chan (drv_ch d ch)" "rpmh_probe_tcs_config True dist [cfg] d = (OK (), d')"
  shows "drv_client d' = drv_client d \<and> drv_regs d' = drv_regs d \<and> (\<forall>ty. tg_ncpt (group d' 0 ty) = probe_ncpt d)"
proof -
  define e where "e = d\<lparr>drv_tcs_distance := (case dist of None \<Rightarrow> 0 | Some k \<Rightarrow> k)\<rparr>"
  obtain mx d1 where c: "rpmh_probe_channel_tcs_config cfg mx (probe_ncpt d) 0 e = (OK (), d1)" and d': "d' = d1\<lparr>drv_num_channels := 1\<rparr>"
    by (rule probe_tcs_config_steps [OF assms(2) e_def])
  have f: "fresh_chan (drv_ch e 0)" using assms(1) by (simp add: e_def)
  obtain chan st where inv: "place_inv (drv_num_tcs e) (probe_ncpt d) st chan" and pr: "\<And>ty. tg_present (ch_tcs chan ty)"
    and d1: "d1 = e\<lparr>drv_hw := (drv_hw e)(drv_regs e RSC_DRV_IRQ_ENABLE := drv_hw e (drv_regs e RSC_DRV_IRQ_ENABLE) OR tg_mask (ch_tcs chan ACTIVE_TCS)),
           drv_ch := (drv_ch e)(0 := chan\<lparr>ch_initialized := True\<rparr>), drv_num_tcs := drv_num_tcs e + st\<rparr>"
    using probe_channel_effect [OF f c] by (elim exE conjE) (rule that; simp)
  show ?thesis using inv pr by (simp add: d' d1 place_inv_def) (simp add: e_def)
qed

lemma probe_tcs_config_ok:
  assumes "\<And>ch. fresh_chan (drv_ch d ch)" "rpmh_probe_tcs_config True dist [cfg] d = (OK (), d')"
    "\<And>i j. \<not> bit (drv_hw d (tcs_reg_addr d' RSC_DRV_CMD_ENABLE i)) j"
    "layout_ok (drv_regs d) (tcs_stride d') (probe_ncpt d)" "0 < tg_num_tcs (group d' 0 ACTIVE_TCS)"
    "drv_client d = drv_client zero_drv"
  shows "sys_ok (probe_ncpt d) d'"
proof -
  define e where "e = d\<lparr>drv_tcs_distance := (case dist of None \<Rightarrow> 0 | Some k \<Rightarrow> k)\<rparr>"
  define n where "n = probe_ncpt d"
  have n: "n \<le> 32" using probe_ncpt_le [of d] by (simp add: n_def)
  obtain mx d1 where c: "rpmh_probe_channel_tcs_config cfg mx n 0 e = (OK (), d1)" and d': "d' = d1\<lparr>drv_num_channels := 1\<rparr>"
    unfolding n_def by (rule probe_tcs_config_steps [OF assms(2) e_def])
  have f: "fresh_chan (drv_ch e 0)" "\<not> ch_initialized (drv_ch e 1)" using assms(1) by (simp_all add: e_def fresh_chan_def)
  obtain chan st where inv: "place_inv (drv_num_tcs e) n st chan" and pr: "\<And>ty. tg_present (ch_tcs chan ty)"
    and sl: "\<And>ty. tg_slots (ch_tcs chan ty) = (\<lambda>_. False)"
    and d1: "d1 = e\<lparr>drv_hw := (drv_hw e)(drv_regs e RSC_DRV_IRQ_ENABLE := drv_hw e (drv_regs e RSC_DRV_IRQ_ENABLE) OR tg_mask (ch_tcs chan ACTIVE_TCS)),
           drv_ch := (drv_ch e)(0 := chan\<lparr>ch_initialized := True\<rparr>), drv_num_tcs := drv_num_tcs e + st\<rparr>"
    using probe_channel_effect [OF f(1) c] by (elim exE conjE) (rule that; simp)
  have g: "group d' 0 ty = ch_tcs chan ty" for ty by (simp add: d' d1)
  have regs: "drv_regs d' = drv_regs d" by (simp add: d' d1 e_def)
  have l: "lay d' n" unfolding regs n_def by (rule assms(4))
  have k: "chan_ok d' 0 n" using l n inv pr by (simp add: chan_ok_def g place_inv_def)
  have dis: "disjoint_groups d' 0 ty ty'" if "ty \<noteq> ty'" "ty \<noteq> CONTROL_TCS" "ty' \<noteq> CONTROL_TCS" for ty ty'
    using inv that by (simp add: disjoint_groups_def g place_inv_def)
  have ded: "dedicated n d'"
    unfolding dedicated_def using k dis f(2) inv assms(5) by (auto simp: g place_inv_def) (simp_all add: d' d1)
  have irq: "tcs_reg_addr d' RSC_DRV_CMD_ENABLE i \<noteq> drv_regs d RSC_DRV_IRQ_ENABLE" for i
    using l by (simp add: layout_ok_def tcs_reg_addr_def regs)
  have hw: "drv_hw d' = (drv_hw d)(drv_regs d RSC_DRV_IRQ_ENABLE := drv_hw d (drv_regs d RSC_DRV_IRQ_ENABLE) OR tg_mask (ch_tcs chan ACTIVE_TCS))"
    by (simp add: d' d1 e_def)
  have en: "\<not> enabled d' i j" for i j
    unfolding enabled_def read_tcs_reg_def hw using irq [of i] assms(3) by simp
  have cl: "drv_client d' = drv_client zero_drv" using assms(6) by (simp add: d' d1 e_def)
  have "synced d' 0 ty" "set (tcs_contents d' 0 ty) = {}" for ty by (auto simp: synced_def tcs_contents_def en)
  then show ?thesis unfolding n_def [symmetric] sys_ok_def programmed_def cl using ded
    by (simp add: batch_ok_def cached_votes_def zero_drv_def zero_request_def votes_def)
qed

end
