(* ===== verification/Rpmh_Cache.thy ===== *)
theory Rpmh_Cache
  imports Rpmh_System
begin

text \<open>
  The cache of sleep and wake votes as a finite map: caching a request updates the votes of its
  addresses in order, and what a flush sends is determined by the map.
\<close>

subsection \<open>Keyed stores\<close>

text \<open>
  A store whose writes may be refused. A write has a key and an effect on the value under the key;
  a sequence of writes stops at the first refusal.
\<close>

locale keyed_store =
  fixes lookup :: "'s \<Rightarrow> 'k \<Rightarrow> 'v option"
    and put :: "'op \<Rightarrow> 's \<Rightarrow> 's option"
    and key :: "'op \<Rightarrow> 'k"
    and eff :: "'op \<Rightarrow> 'v option \<Rightarrow> 'v"
    and ok :: "'s \<Rightarrow> bool"
  assumes lookup_put: "ok s \<Longrightarrow> put p s = Some s' \<Longrightarrow> lookup s' = (lookup s)(key p \<mapsto> eff p (lookup s (key p)))"
    and ok_put: "ok s \<Longrightarrow> put p s = Some s' \<Longrightarrow> ok s'"
begin

fun put_all :: "'op list \<Rightarrow> 's \<Rightarrow> 's option" where
  "put_all [] s = Some s"
| "put_all (p # ps) s = (case put p s of None \<Rightarrow> None | Some s' \<Rightarrow> put_all ps s')"

lemma put_all_fold:
  "ok s \<Longrightarrow> put_all ps s = Some s' \<Longrightarrow>
     ok s' \<and> lookup s' = fold (\<lambda>p m. m(key p \<mapsto> eff p (m (key p)))) ps (lookup s)"
proof (induction ps arbitrary: s)
  case (Cons p ps)
  then obtain s1 where s1: "put p s = Some s1" "put_all ps s1 = Some s'" by (auto split: option.splits)
  from Cons.IH [OF ok_put [OF Cons.prems(1) s1(1)] s1(2)] show ?case
    by (simp add: lookup_put [OF Cons.prems(1) s1(1)])
qed simp

end

subsection \<open>The vote cache as a keyed store\<close>

definition cache_map :: "cache_req list \<Rightarrow> u32w \<Rightarrow> (u32w \<times> u32w) option" where
  "cache_map rs a = map_option (\<lambda>i. (cr_sleep (rs ! i), cr_wake (rs ! i))) (index_of a rs)"

definition vote_eff :: "rpmh_state \<times> tcs_cmd \<Rightarrow> (u32w \<times> u32w) option \<Rightarrow> u32w \<times> u32w" where
  "vote_eff p old =
     (let (s, w) = (case old of None \<Rightarrow> (UINT_MAX, UINT_MAX) | Some v \<Rightarrow> v) in
      if fst p = RPMH_SLEEP_STATE then (cmd_data (snd p), w) else (s, cmd_data (snd p)))"

definition vote_key :: "rpmh_state \<times> tcs_cmd \<Rightarrow> u32w" where
  "vote_key p = cmd_addr (snd p)"

definition cache_put :: "rpmh_state \<times> tcs_cmd \<Rightarrow> rpmh_ctrlr \<Rightarrow> rpmh_ctrlr option" where
  "cache_put p ct = (case cache_rpm_request ct (fst p) (snd p) of (OK _, ct') \<Rightarrow> Some ct' | _ \<Rightarrow> None)"

definition cache_ok :: "rpmh_ctrlr \<Rightarrow> bool" where
  "cache_ok ct = (distinct (map cr_addr (ct_cache ct)) \<and> length (ct_cache ct) \<le> CMD_DB_MAX_RESOURCES)"

lemma index_of_None: "index_of a rs = None \<longleftrightarrow> a \<notin> cr_addr ` set rs"
  by (induction rs) auto

lemma index_of_map: "map cr_addr rs = map cr_addr rs' \<Longrightarrow> index_of a rs = index_of a rs'"
proof (induction rs arbitrary: rs')
  case (Cons r rs)
  then obtain r' rs1 where r: "rs' = r' # rs1" "cr_addr r = cr_addr r'" "map cr_addr rs = map cr_addr rs1" by (cases rs') auto
  then show ?case using Cons.IH [OF r(3)] by simp
qed simp

lemma index_of_append: "index_of a (rs @ [r]) = (case index_of a rs of Some i \<Rightarrow> Some i | None \<Rightarrow> if cr_addr r = a then Some (length rs) else None)"
  by (induction rs) (auto split: option.splits)

lemma cache_map_update:
  assumes "i < length rs" "index_of (cr_addr q) rs = Some i"
  shows "cache_map (rs[i := q]) = (cache_map rs)(cr_addr q \<mapsto> (cr_sleep q, cr_wake q))"
proof -
  have a: "cr_addr (rs ! i) = cr_addr q" using index_of_Some [OF assms(2)] by simp
  have m: "map cr_addr (rs[i := q]) = map cr_addr rs"
    using a assms(1) by (metis list_update_id map_update nth_map length_map)
  have ii: "index_of x (rs[i := q]) = index_of x rs" for x by (rule index_of_map [OF m])
  show ?thesis
  proof
    fix x
    show "cache_map (rs[i := q]) x = ((cache_map rs)(cr_addr q \<mapsto> (cr_sleep q, cr_wake q))) x"
    proof (cases "x = cr_addr q")
      case True
      then show ?thesis using assms by (simp add: cache_map_def ii)
    next
      case False
      then have "index_of x rs \<noteq> Some i" using index_of_Some [of x rs i] a by auto
      then show ?thesis using False by (cases "index_of x rs") (auto simp: cache_map_def ii)
    qed
  qed
qed

lemma cache_map_append:
  assumes "cr_addr q \<notin> cr_addr ` set rs"
  shows "cache_map (rs @ [q]) = (cache_map rs)(cr_addr q \<mapsto> (cr_sleep q, cr_wake q))"
proof
  fix x
  show "cache_map (rs @ [q]) x = ((cache_map rs)(cr_addr q \<mapsto> (cr_sleep q, cr_wake q))) x"
    using assms index_of_Some [of x rs] index_of_None [of "cr_addr q" rs]
    by (cases "index_of x rs") (auto simp: cache_map_def index_of_append nth_append)
qed

lemma cache_request_map:
  assumes "cache_ok ct" "cache_rpm_request ct st c = (r, ct')"
  shows "cache_ok ct'" "r = OK () \<Longrightarrow> cache_map (ct_cache ct') =
      (cache_map (ct_cache ct))(cmd_addr c \<mapsto> vote_eff (st, c) (cache_map (ct_cache ct) (cmd_addr c)))"
    "r = OK () \<or> r = Err ENOMEM" "r = OK () \<longleftrightarrow> length (ct_cache ct) < CMD_DB_MAX_RESOURCES"
proof -
  let ?rs = "ct_cache ct"
  show *: "r = OK () \<longleftrightarrow> length ?rs < CMD_DB_MAX_RESOURCES" "r = OK () \<or> r = Err ENOMEM"
    using assms(2) by (auto simp: cache_rpm_request_def get_non_batch_cache_req_def Let_def split: option.splits if_splits)
  define upd where "upd q = (if st = RPMH_SLEEP_STATE then q\<lparr>cr_addr := cmd_addr c, cr_sleep := cmd_data c\<rparr>
      else q\<lparr>cr_addr := cmd_addr c, cr_wake := cmd_data c\<rparr>)" for q :: cache_req
  have ua: "cr_addr (upd q) = cmd_addr c" for q by (simp add: upd_def)
  show "cache_ok ct'"
  proof (cases "length ?rs < CMD_DB_MAX_RESOURCES")
    case True
    show ?thesis
    proof (cases "index_of (cmd_addr c) ?rs")
      case None
      then have "ct_cache ct' = ?rs @ [upd \<lparr>cr_addr = 0, cr_sleep = UINT_MAX, cr_wake = UINT_MAX\<rparr>]"
        using assms(2) True by (auto simp: cache_rpm_request_def get_non_batch_cache_req_def Let_def upd_def)
      then show ?thesis using assms(1) True None by (auto simp: cache_ok_def ua index_of_None)
    next
      case (Some i)
      then have c': "ct_cache ct' = ?rs[i := upd (?rs ! i)]"
        using assms(2) True by (auto simp: cache_rpm_request_def get_non_batch_cache_req_def Let_def upd_def)
      have "map cr_addr (?rs[i := upd (?rs ! i)]) = map cr_addr ?rs"
        using index_of_Some [OF Some] ua by (metis list_update_id map_update nth_map length_map)
      then show ?thesis using assms(1) by (simp add: cache_ok_def c')
    qed
  next
    case False
    then show ?thesis using assms by (auto simp: cache_rpm_request_def get_non_batch_cache_req_def)
  qed
  assume "r = OK ()"
  then have l: "length ?rs < CMD_DB_MAX_RESOURCES" using * by simp
  show "cache_map (ct_cache ct') = (cache_map ?rs)(cmd_addr c \<mapsto> vote_eff (st, c) (cache_map ?rs (cmd_addr c)))"
  proof (cases "index_of (cmd_addr c) ?rs")
    case None
    define q where "q = upd \<lparr>cr_addr = 0, cr_sleep = UINT_MAX, cr_wake = UINT_MAX\<rparr>"
    have "ct_cache ct' = ?rs @ [q]"
      using assms(2) l None by (auto simp: cache_rpm_request_def get_non_batch_cache_req_def Let_def upd_def q_def)
    moreover have "vote_eff (st, c) (cache_map ?rs (cmd_addr c)) = (cr_sleep q, cr_wake q)"
      by (simp add: cache_map_def None vote_eff_def q_def upd_def)
    ultimately show ?thesis using cache_map_append [of q ?rs] None ua by (simp add: index_of_None q_def)
  next
    case (Some i)
    define q where "q = upd (?rs ! i)"
    have "ct_cache ct' = ?rs[i := q]"
      using assms(2) l Some by (auto simp: cache_rpm_request_def get_non_batch_cache_req_def Let_def upd_def q_def)
    moreover have "vote_eff (st, c) (cache_map ?rs (cmd_addr c)) = (cr_sleep q, cr_wake q)"
      by (simp add: cache_map_def Some vote_eff_def q_def upd_def)
    ultimately show ?thesis using cache_map_update [of i ?rs q] index_of_Some [OF Some] Some ua by (simp add: q_def)
  qed
qed

interpretation votes_store: keyed_store "\<lambda>ct. cache_map (ct_cache ct)" cache_put vote_key vote_eff cache_ok
proof (unfold_locales, goal_cases)
  case (1 s p s')
  then show ?case using cache_request_map(2) [of s "fst p" "snd p" "OK ()" s']
    by (auto simp: cache_put_def vote_key_def split: prod.splits result.splits)
next
  case (2 s p s')
  then show ?case using cache_request_map(1) [of s "fst p" "snd p" "OK ()" s']
    by (auto simp: cache_put_def split: prod.splits result.splits)
qed

lemma cache_requests_put_all:
  assumes "cache_ok ct" "cache_rpm_requests st cs ct = (r, ct')"
  shows "cache_ok ct'" "r = OK () \<or> (r = Err ENOMEM \<and> length (ct_cache ct') = CMD_DB_MAX_RESOURCES)"
    "r = OK () \<Longrightarrow> votes_store.put_all (map (Pair st) cs) ct = Some ct'"
proof -
  have "cache_ok ct' \<and> (r = OK () \<or> (r = Err ENOMEM \<and> length (ct_cache ct') = CMD_DB_MAX_RESOURCES)) \<and>
      (r = OK () \<longrightarrow> votes_store.put_all (map (Pair st) cs) ct = Some ct')"
    using assms
  proof (induction cs arbitrary: ct)
    case (Cons c cs)
    obtain q ct1 where c: "cache_rpm_request ct st c = (q, ct1)" by force
    note e = cache_request_map [OF Cons.prems(1) c]
    show ?case
    proof (cases "q = OK ()")
      case True
      then have "cache_rpm_requests st cs ct1 = (r, ct')" using Cons.prems(2) c by simp
      moreover have "cache_put (st, c) ct = Some ct1" using True c by (simp add: cache_put_def)
      ultimately show ?thesis using Cons.IH [OF e(1)] by simp
    next
      case False
      then have "q = Err ENOMEM" "ct1 = ct" "length (ct_cache ct) = CMD_DB_MAX_RESOURCES"
        using e(3,4) c Cons.prems(1)
        by (auto simp: cache_ok_def cache_rpm_request_def get_non_batch_cache_req_def Let_def split: option.splits if_splits)
      then show ?thesis using Cons.prems c by auto
    qed
  qed simp
  then show "cache_ok ct'" "r = OK () \<or> (r = Err ENOMEM \<and> length (ct_cache ct') = CMD_DB_MAX_RESOURCES)"
    "r = OK () \<Longrightarrow> votes_store.put_all (map (Pair st) cs) ct = Some ct'" by auto
qed

lemma cached_votes_map:
  assumes "cache_ok ct"
  shows "set (map (\<lambda>q. (cr_addr q, cr_sleep q, cr_wake q)) (filter is_req_valid (ct_cache ct))) =
    {(a, s, w). cache_map (ct_cache ct) a = Some (s, w) \<and> s \<noteq> UINT_MAX \<and> w \<noteq> UINT_MAX \<and> s \<noteq> w}" (is "?L = ?R")
proof -
  let ?rs = "ct_cache ct"
  have u: "q = ?rs ! i" if "q \<in> set ?rs" "index_of (cr_addr q) ?rs = Some i" for q i
  proof -
    obtain k where k: "k < length ?rs" "q = ?rs ! k" using \<open>q \<in> set ?rs\<close> by (metis in_set_conv_nth)
    have "map cr_addr ?rs ! k = map cr_addr ?rs ! i" using index_of_Some [OF that(2)] k by simp
    moreover have "distinct (map cr_addr ?rs)" using assms by (simp add: cache_ok_def)
    ultimately have "k = i"
      using nth_eq_iff_index_eq [of "map cr_addr ?rs" k i] k(1) index_of_Some [OF that(2)] by (metis length_map)
    then show ?thesis using k by simp
  qed
  have m: "cache_map ?rs a = Some (s, w) \<longleftrightarrow> (\<exists>q \<in> set ?rs. cr_addr q = a \<and> cr_sleep q = s \<and> cr_wake q = w)" for a s w
  proof
    assume "cache_map ?rs a = Some (s, w)"
    then obtain i where "index_of a ?rs = Some i" "s = cr_sleep (?rs ! i)" "w = cr_wake (?rs ! i)" by (auto simp: cache_map_def)
    then show "\<exists>q \<in> set ?rs. cr_addr q = a \<and> cr_sleep q = s \<and> cr_wake q = w" using index_of_Some [of a ?rs i] by auto
  next
    assume "\<exists>q \<in> set ?rs. cr_addr q = a \<and> cr_sleep q = s \<and> cr_wake q = w"
    then obtain q where q: "q \<in> set ?rs" "cr_addr q = a" "cr_sleep q = s" "cr_wake q = w" by blast
    then obtain i where i: "index_of a ?rs = Some i" using index_of_None [of a ?rs] by (cases "index_of a ?rs") auto
    show "cache_map ?rs a = Some (s, w)" using u [of q i] q i by (simp add: cache_map_def)
  qed
  show ?thesis unfolding m by (fastforce simp: is_req_valid_def)
qed

end
