(* ===== verification/Rpmh_Props.thy ===== *)
theory Rpmh_Props
  imports Rpmh_Probe Rpmh_Cache
begin

text \<open>
  The properties of the RPMh driver: the dirty flag and the flush, the slot search, channel selection,
  active transfers and their completion, the vote cache, the register layout and the set-up of the
  groups. A small probed controller serves as the example of the witnesses.
\<close>

subsection \<open>A small controller\<close>

definition demo_node :: drv_node where
  "demo_node =
     \<lparr>nd_id = Some 0, nd_base = OK ((\<lambda>_. 0)(0x0C := 0x20000008)), nd_tcs_base = (\<lambda>_. 0), nd_device = OK (),
      nd_has_offset = True, nd_distance = None, nd_cfgs = [[2, 2, 0, 3, 1, 3, 3, 1, 4, 0]]\<rparr>"

definition demo_drv :: rsc_drv where
  "demo_drv = snd (probe_register None False (snd (probe_config demo_node 0 zero_drv)))"

definition demo_env :: rpmh_env where
  "demo_env =
     \<lparr>env_standalone = False, env_max_payload = 4, env_chn = (\<lambda>_. (0, 0)), env_sts = (\<lambda>_ _. 1), env_events = [],
      env_irqs = [], env_irq_data = False, env_cmpl = (\<lambda>_. 0), env_fast = (\<lambda>_. 1), env_trylock = True,
      env_notifier = True, env_suspended = False, env_wakeup_us = 0, env_lpj_hz = 0, env_counter = 0\<rparr>"

definition demo_cmd :: tcs_cmd where
  "demo_cmd = \<lparr>cmd_addr = 0x30000, cmd_data = 5, cmd_wait = 0\<rparr>"

definition demo_batched :: rsc_drv where
  "demo_batched =
     (case rpmh_write_batch demo_env 0 RPMH_SLEEP_STATE (Some [demo_cmd]) [1] demo_drv of Returns (_, d) \<Rightarrow> d | _ \<Rightarrow> demo_drv)"

definition demo_flushed :: rsc_drv where
  "demo_flushed = snd (rpmh_flush demo_env 0 demo_batched)"

definition demo_request :: tcs_request where
  "demo_request = \<lparr>rq_state = RPMH_ACTIVE_ONLY_STATE, rq_wait_for_compl = True, rq_cmds = [demo_cmd], rq_compl = Some 7\<rparr>"

lemma demo_probed:
  "probe_config demo_node 0 zero_drv = (OK (), snd (probe_config demo_node 0 zero_drv))"
  "probe_register None False (snd (probe_config demo_node 0 zero_drv)) = (OK (), demo_drv)"
  "tg_ncpt (group demo_drv 0 ACTIVE_TCS) = 4" "tg_num_tcs (group demo_drv 0 ACTIVE_TCS) = 2"
  "layout_ok (drv_regs demo_drv) (tcs_stride demo_drv) 4"
proof -
  show p: "probe_config demo_node 0 zero_drv = (OK (), snd (probe_config demo_node 0 zero_drv))"
    by (rule prod_eqI) (simp_all, code_simp)
  show "probe_register None False (snd (probe_config demo_node 0 zero_drv)) = (OK (), demo_drv)"
    unfolding demo_drv_def by (rule prod_eqI) (simp_all, code_simp)
qed code_simp+

lemma demo_batch:
  "rpmh_write_batch demo_env 0 RPMH_SLEEP_STATE (Some [demo_cmd]) [1] demo_drv = Returns (OK (), demo_batched)"
  by (simp add: demo_batched_def rpmh_write_batch_def demo_env_def check_ctrlr_state_def fill_rpmh_msg_def Let_def)

lemma demo_flush: "rpmh_flush demo_env 0 demo_batched = (OK (), demo_flushed)"
  unfolding demo_flushed_def by (rule prod_eqI) (simp_all, code_simp)


lemma demo_reset: "nd_cfgs demo_node = [[2, 2, 0, 3, 1, 3, 3, 1, 4, 0]]" "\<not> bit (nd_tcs_base demo_node a) j"
  by (simp_all add: demo_node_def)


subsection \<open>Supporting facts\<close>

lemma probe_register_effect:
  assumes "probe_register pd False d = (OK (), d')"
  shows "\<exists>ct. d' = d\<lparr>drv_in_use := (\<lambda>_. False), drv_client := ct\<rparr> \<and> ct_batch ct = ct_batch (drv_client d) \<and>
    ct_dirty ct = ct_dirty (drv_client d) \<and> ct_cache ct = []"
  using assms by (auto simp: probe_register_def Let_def split: option.splits result.splits if_splits)

lemma probe_config_ok:
  assumes "probe_config nd i zero_drv = (OK (), d)" "nd_cfgs nd = [cfg]" "0 < tg_num_tcs (group d 0 ACTIVE_TCS)"
    "\<forall>i j. \<not> bit (nd_tcs_base nd (tcs_reg_addr d RSC_DRV_CMD_ENABLE i)) j"
    "layout_ok (drv_regs d) (tcs_stride d) (tg_ncpt (group d 0 ACTIVE_TCS))"
  shows "sys_ok (tg_ncpt (group d 0 ACTIVE_TCS)) d" "drv_client d = drv_client zero_drv"
proof -
  obtain base regs where p: "rpmh_probe_tcs_config (nd_has_offset nd) (nd_distance nd) [cfg]
      (zero_drv\<lparr>drv_base := base, drv_id := i, drv_regs := regs, drv_hw := nd_tcs_base nd\<rparr>) = (OK (), d)"
    using assms(1,2) by (auto simp: probe_config_def Let_def split: result.splits)
  let ?z = "zero_drv\<lparr>drv_base := base, drv_id := i, drv_regs := regs, drv_hw := nd_tcs_base nd\<rparr>"
  have off: "nd_has_offset nd" using p by (auto simp: rpmh_probe_tcs_config_def split: if_splits)
  note q = p [unfolded eqTrueI [OF off]]
  have f: "fresh_chan (drv_ch ?z ch)" for ch by (simp add: fresh_chan_def zero_drv_def)
  have c: "drv_client ?z = drv_client zero_drv" by simp
  note e = probe_tcs_config_same [OF f q]
  have n: "tg_ncpt (group d 0 ACTIVE_TCS) = probe_ncpt ?z" using e by blast
  show "drv_client d = drv_client zero_drv" using e by simp
  show "sys_ok (tg_ncpt (group d 0 ACTIVE_TCS)) d" unfolding n
    by (rule probe_tcs_config_ok [OF f q _ _ assms(3) c]) (use assms(4,5) e n in auto)
qed

lemma probed_ok:
  assumes "probe_config nd i zero_drv = (OK (), d1)" "nd_cfgs nd = [cfg]" "probe_register pd False d1 = (OK (), d0)"
    "\<forall>i j. \<not> bit (nd_tcs_base nd (tcs_reg_addr d0 RSC_DRV_CMD_ENABLE i)) j"
    "layout_ok (drv_regs d0) (tcs_stride d0) (tg_ncpt (group d0 0 ACTIVE_TCS))" "0 < tg_num_tcs (group d0 0 ACTIVE_TCS)"
  shows "sys_ok (tg_ncpt (group d0 0 ACTIVE_TCS)) d0"
proof -
  obtain ct where d0: "d0 = d1\<lparr>drv_in_use := (\<lambda>_. False), drv_client := ct\<rparr>" and ct: "ct_batch ct = ct_batch (drv_client d1)"
    "ct_dirty ct = ct_dirty (drv_client d1)" "ct_cache ct = []"
    using probe_register_effect [OF assms(3)] by (elim exE conjE) (rule that; simp)
  have s: "shape d0 = shape d1" and g: "group d0 0 ty = group d1 0 ty" for ty by (simp_all add: d0)
  have a: "tcs_reg_addr d0 = tcs_reg_addr d1" "drv_regs d0 = drv_regs d1" "tcs_stride d0 = tcs_stride d1"
    using shapeD [OF s] by simp_all
  note k = probe_config_ok [OF assms(1,2) assms(6) [unfolded g] assms(4) [unfolded a] assms(5) [unfolded g a]]
  have k1: "sys_ok (tg_ncpt (group d1 0 ACTIVE_TCS)) (d1\<lparr>drv_in_use := (\<lambda>_. False)\<rparr>)"
    by (rule sys_ok_same [OF k(1)]) simp_all
  show ?thesis unfolding g unfolding d0
    by (rule sys_ok_client [OF k1]) (use ct k(2) in \<open>auto simp: batch_ok_def cached_votes_def zero_drv_def zero_request_def\<close>)
qed

subsection \<open>Properties\<close>



text \<open>C12. A flush of a dirty cache into the channel it is given either succeeds, clears the dirty flag and
  leaves exactly the cached batch and single votes enabled in the two groups, or fails with ENOMEM
  and leaves the cache dirty; a flush of a clean cache succeeds and touches no command.\<close>

theorem rpmh_flush_programs:
  assumes "flush_inv n ch drv" "batch_ok (drv_client drv)" "do_rpmh_flush env ch drv = (r, d')"
  shows "(r = OK () \<or> r = Err ENOMEM) \<and> flush_inv n ch d' \<and>
    drv_client d' = (if r = OK () then (drv_client drv)\<lparr>ct_dirty := False\<rparr> else drv_client drv) \<and>
    (if ct_dirty (drv_client drv)
     then r = OK () \<longrightarrow> set (tcs_contents d' ch SLEEP_TCS) = set (cached_votes (drv_client drv) SLEEP_TCS) \<and>
       set (tcs_contents d' ch WAKE_TCS) = set (cached_votes (drv_client drv) WAKE_TCS)
     else r = OK () \<and> (\<forall>ty. tcs_contents d' ch ty = tcs_contents drv ch ty))"
  using do_flush_step [OF assms] by auto

lemma demo_sys_ok: "sys_ok 4 demo_drv"
  using probed_ok [OF demo_probed(1) demo_reset(1) demo_probed(2)] demo_probed(3-5) demo_reset(2) by simp

lemma demo_batched_ok: "sys_ok 4 demo_batched"
proof -
  have "env_max_payload demo_env \<le> 4" "quiet_env demo_drv demo_env" by (simp_all add: demo_env_def quiet_env_def)
  then show ?thesis by (rule sys_ok_write_batch [OF demo_sys_ok _ demo_batch])
qed

lemma demo_do_flush: "do_rpmh_flush demo_env 0 demo_batched = (OK (), demo_flushed)"
  using demo_flush by (simp add: rpmh_flush_def demo_env_def)

theorem rpmh_flush_programs_witness:
  "ct_dirty (drv_client demo_batched) \<and> do_rpmh_flush demo_env 0 demo_batched = (OK (), demo_flushed) \<and>
   set (tcs_contents demo_flushed 0 SLEEP_TCS) = {(0x30000, 5)} \<and> set (tcs_contents demo_flushed 0 WAKE_TCS) = {}"
proof -
  have b: "batch_ok (drv_client demo_batched)" using demo_batched_ok by (simp add: sys_ok_def)
  have c: "ct_dirty (drv_client demo_batched)" "cached_votes (drv_client demo_batched) SLEEP_TCS = [(0x30000, 5)]"
    "cached_votes (drv_client demo_batched) WAKE_TCS = []" by code_simp+
  show ?thesis using rpmh_flush_programs [OF sys_ok_flush_inv [OF demo_batched_ok] b demo_do_flush] c demo_do_flush by simp
qed

text \<open>C29. The slot search of a group is sound and complete: it returns a run of free slots inside one
  command set and marks exactly these, and it fails only when no command set has such a run.\<close>

theorem find_slots_exact:
  assumes "rq_cmds msg \<noteq> []"
  shows "case find_slots g msg of
      OK (g', t, c) \<Rightarrow>
        in_group g t \<and> c + length (rq_cmds msg) \<le> tg_ncpt g \<and>
        area_free (tg_slots g) ((t - tg_offset g) * tg_ncpt g + c) (length (rq_cmds msg)) \<and>
        g' = g\<lparr>tg_slots := bitmap_set (tg_slots g) ((t - tg_offset g) * tg_ncpt g + c) (length (rq_cmds msg))\<rparr>
    | Err e \<Rightarrow>
        e = ENOMEM \<and> \<not> (\<exists>k < tg_num_tcs g. \<exists>c. c + length (rq_cmds msg) \<le> tg_ncpt g \<and>
          area_free (tg_slots g) (k * tg_ncpt g + c) (length (rq_cmds msg)))
    | UB \<Rightarrow> False"
proof (cases "find_slot_from g (length (rq_cmds msg)) 0")
  case None
  then show ?thesis using find_slot_complete [OF None] assms by (auto simp: find_slots_def)
next
  case (Some slot)
  let ?t = "slot div tg_ncpt g + tg_offset g" and ?c = "slot mod tg_ncpt g"
  have s: "find_slots g msg = OK (g\<lparr>tg_slots := bitmap_set (tg_slots g) slot (length (rq_cmds msg))\<rparr>, ?t, ?c)"
    by (simp add: find_slots_def Some)
  have e: "(?t - tg_offset g) * tg_ncpt g + ?c = slot" by simp
  show ?thesis unfolding s result.case prod.case e
    using find_slots_effect(2-4) [OF s assms] find_slot_sound [OF Some] assms by (simp add: in_group_def)
qed

theorem find_slots_exact_witness:
  "rq_cmds demo_request \<noteq> [] \<and> (\<exists>g' t c. find_slots (group demo_flushed 0 SLEEP_TCS) demo_request = OK (g', t, c) \<and>
     c + 1 \<le> tg_ncpt (group demo_flushed 0 SLEEP_TCS))"
proof -
  have n: "rq_cmds demo_request \<noteq> []" "length (rq_cmds demo_request) = 1" by (simp_all add: demo_request_def)
  have "find_slot_from (group demo_flushed 0 SLEEP_TCS) (length (rq_cmds demo_request)) 0 \<noteq> None" by code_simp
  then obtain q where q: "find_slots (group demo_flushed 0 SLEEP_TCS) demo_request = OK q" by (auto simp: find_slots_def)
  obtain g' t c where "q = (g', t, c)" by (cases q)
  then show ?thesis using find_slots_exact [OF n(1), of "group demo_flushed 0 SLEEP_TCS"] n q by auto
qed

subsection \<open>Channel selection\<close>

lemma chn_settle_sound:
  "chn_settle chn k = Some v \<Longrightarrow> \<exists>m \<ge> k. snd (chn m) = fst (chn m) \<and> (\<forall>i. k \<le> i \<and> i < m \<longrightarrow> snd (chn i) \<noteq> fst (chn i)) \<and> v = snd (chn m)"
proof (induction rule: chn_settle.raw_induct [rotated 1, consumes 1])
  case (1 rec chn k v)
  show ?case
  proof (cases "snd (chn k) = fst (chn k)")
    case True
    then show ?thesis using 1(2) by (intro exI [of _ k]) auto
  next
    case False
    then obtain m where "Suc k \<le> m" "snd (chn m) = fst (chn m)" "\<forall>i. Suc k \<le> i \<and> i < m \<longrightarrow> snd (chn i) \<noteq> fst (chn i)" "v = snd (chn m)"
      using 1(1) [of chn "Suc k" v] 1(2) by auto
    then show ?thesis using False by (intro exI [of _ m]) (metis Suc_leD le_antisym not_less_eq_eq)
  qed
qed

lemma chn_settle_agree: "snd (chn (k + n)) = fst (chn (k + n)) \<Longrightarrow> \<exists>v. chn_settle chn k = Some v"
proof (induction n arbitrary: k)
  case (Suc n)
  then show ?case using Suc.IH [of "Suc k"] by (subst chn_settle.simps) auto
qed (subst chn_settle.simps, simp)

text \<open>C34. Selecting a channel returns as soon as the update and busy registers agree, with the channel
  that the busy word at the first agreement leaves unused, and waits only if they never agree; with
  one channel it does not read the registers.\<close>

theorem rpmh_get_channel_settles:
  "rpmh_rsc_get_channel drv chn =
     (if drv_num_channels drv = 1 then Returns (OK 0)
      else if \<exists>k. snd (chn k) = fst (chn k) then
        (let busy = snd (chn (LEAST k. snd (chn k) = fst (chn k)))
         in Returns (if bit busy 0 then OK 1 else if bit busy 1 then OK 0 else Err EBUSY))
      else Waits)"
proof (cases "chn_settle chn 0")
  case None
  then have "\<not> (\<exists>k. snd (chn k) = fst (chn k))" using chn_settle_agree [where k = 0 and chn = chn] by fastforce
  then show ?thesis using None by (simp add: rpmh_rsc_get_channel_def)
next
  case (Some v)
  obtain m where m: "snd (chn m) = fst (chn m)" "\<And>i. i < m \<Longrightarrow> snd (chn i) \<noteq> fst (chn i)" "v = snd (chn m)"
    using chn_settle_sound [OF Some] by auto
  have "(LEAST k. snd (chn k) = fst (chn k)) = m" by (rule Least_equality) (use m not_less in blast)+
  then show ?thesis using Some m(1,3) by (auto simp: rpmh_rsc_get_channel_def)
qed



lemma filter_bit_BIT: "t < 32 \<Longrightarrow> filter (bit (BIT t)) [0..<32] = [t]"
proof -
  assume t: "t < 32"
  have "[0..<32] = [0..<t] @ t # [Suc t..<32]" using t upt_add_eq_append [of 0 t "32 - t"] by (simp add: upt_conv_Cons)
  moreover have "filter (bit (BIT t)) [0..<t] = []" "filter (bit (BIT t)) [Suc t..<32] = []" by (auto simp: filter_empty_conv bit_BIT)
  ultimately show ?thesis using t by (simp add: bit_BIT)
qed

lemma tx_done_completes:
  assumes "dedicated n d" "bit (tg_mask (group d 0 ACTIVE_TCS)) t" "tg_req (group d 0 ACTIVE_TCS) (t - tg_offset (group d 0 ACTIVE_TCS)) = Some msg"
    "rq_compl msg = Some c"
  shows "\<exists>d''. tx_done_one prev t d = OK (Some 0, d'') \<and> c \<in> set (drv_done d'') \<and> \<not> drv_in_use d'' t"
proof -
  have nb: "tg_num_tcs (group d 0 ACTIVE_TCS) \<noteq> 0" using assms(1) by (auto simp: dedicated_def)
  have q: "get_req_from_tcs d t [0..<MAX_CHANNEL] = (Some msg, Some 0)"
    using dedicated_req [OF assms(1,2)] assms(3) by simp
  show ?thesis unfolding tx_done_one_def q by (simp add: Let_def nb rpmh_tx_done_def assms(4))
qed

definition demo_sent :: rsc_drv where
  "demo_sent =
     (case rpmh_rsc_send_data demo_request 0 [] (env_sts demo_env) demo_drv of Returns (_, d) \<Rightarrow> d | _ \<Rightarrow> demo_drv)"

lemma demo_send: "rpmh_rsc_send_data demo_request 0 [] (env_sts demo_env) demo_drv = Returns (OK (), demo_sent)"
proof -
  have c: "claim_tcs_for_req demo_drv (group demo_drv 0 ACTIVE_TCS) demo_request (env_sts demo_env) = OK 0"
    "get_tcs_for_msg demo_drv RPMH_ACTIVE_ONLY_STATE 0 = ACTIVE_TCS" "\<not> drv_in_solver_mode demo_drv" by code_simp+
  have "wait_for_tcs 0 ACTIVE_TCS demo_request [] (env_sts demo_env) demo_drv = Returns (OK 0, demo_drv)"
    by (subst wait_for_tcs.simps) (simp add: c)
  moreover have "rq_state demo_request = RPMH_ACTIVE_ONLY_STATE" by (simp add: demo_request_def)
  ultimately show ?thesis by (simp add: demo_sent_def rpmh_rsc_send_data_def c)
qed



text \<open>C24. Every active request that waits for its completion gets it: after a successful send on a
  controller with active command sets of its own, the interrupt of the claimed command set is handled
  without touching an unset channel, completes the request and frees the command set.\<close>

theorem rpmh_send_data_completes:
  assumes "dedicated n drv" "rq_state msg = RPMH_ACTIVE_ONLY_STATE" "length (rq_cmds msg) \<le> n" "rq_compl msg = Some c"
    "\<forall>i. in_group (group drv 0 ACTIVE_TCS) i \<longrightarrow> bit (tg_mask (group drv 0 ACTIVE_TCS)) i"
    "list_all (\<lambda>e. active_irq drv (fst e)) events" "rpmh_rsc_send_data msg 0 events sts drv = Returns (OK (), d')"
  shows "\<exists>t d''. in_group (group drv 0 ACTIVE_TCS) t \<and> tcs_tx_done (BIT t) d' = OK d'' \<and>
    c \<in> set (drv_done d'') \<and> \<not> drv_in_use d'' t \<and> fst (wait_for_completion c [BIT t] d') = OK True"
proof -
  have ty: "get_tcs_for_msg drv (rq_state msg) 0 = ACTIVE_TCS" using dedicated_active [OF assms(1)] assms(2) by simp
  obtain q d where w: "wait_for_tcs 0 ACTIVE_TCS msg events sts drv = Returns (q, d)"
    and k: "(case q of OK t \<Rightarrow> Returns (OK (), start_transfer 0 ACTIVE_TCS msg t d)
      | Err e \<Rightarrow> Returns (Err e, d) | UB \<Rightarrow> Returns (UB, d)) = Returns (OK (), d')"
    using assms(7) unfolding rpmh_rsc_send_data_def ty Let_def by (auto split: if_splits)
  obtain t where q: "q = OK t" and d': "d' = start_transfer 0 ACTIVE_TCS msg t d" using k by (cases q) auto
  have s: "shape d = shape drv" and t: "in_group (group drv 0 ACTIVE_TCS) t"
    using wait_claims [OF w [unfolded q]] wait_frame [OF assms(1,6) w] q by auto
  have ok: "chan_ok d 0 n" unfolding chan_ok_shape [OF s] using assms(1) by (simp add: dedicated_def)
  note e = start_transfer_effect [OF ok assms(3) d']
  have s': "shape d' = shape drv" using e(1) s by simp
  have m: "bit (tg_mask (group d' 0 ACTIVE_TCS)) t" using assms(5) t shapeD(7) [OF s'] by simp
  have b: "t < 32" using bit_imp_le_length [OF m] by simp
  obtain d'' where one: "tx_done_one None t d' = OK (Some 0, d'')" "c \<in> set (drv_done d'')" "\<not> drv_in_use d'' t"
    using tx_done_completes [of n d' t msg c] m e(5) assms(1,4) dedicated_shape [OF s'] shapeD(4) [OF s] shapeD(4) [OF s'] by metis
  have "filter (bit (BIT t)) [0..<32] = [t]" using filter_bit_BIT [OF b] .
  then have tx: "tcs_tx_done (BIT t) d' = OK d''" by (simp add: tcs_tx_done_def one(1))
  have "fst (wait_for_completion c [BIT t] d') = OK True"
    by (subst wait_for_completion.simps, simp add: tx, subst wait_for_completion.simps, simp add: one(2))
  then show ?thesis using t tx one by blast
qed

theorem rpmh_send_data_completes_witness:
  "\<exists>t d''. tcs_tx_done (BIT t) demo_sent = OK d'' \<and> 7 \<in> set (drv_done d'') \<and> \<not> drv_in_use d'' t"
proof -
  have g: "tg_offset (group demo_drv 0 ACTIVE_TCS) = 0" "tg_mask (group demo_drv 0 ACTIVE_TCS) = 3" by code_simp+
  have "\<forall>i. in_group (group demo_drv 0 ACTIVE_TCS) i \<longrightarrow> bit (tg_mask (group demo_drv 0 ACTIVE_TCS)) i"
    by (auto simp: in_group_def g demo_probed(4) less_Suc_eq numeral_2_eq_2)
  then show ?thesis
    using rpmh_send_data_completes [OF sys_ok_dedicated [OF demo_sys_ok] _ _ _ _ _ demo_send, of 7] by (auto simp: demo_request_def)
qed

text \<open>C30. The cache implements a finite map from addresses to a sleep and a wake vote: caching the
  commands of a request updates the map command by command, or stops with ENOMEM when all 250 entries
  are taken; addresses stay unique, and the single votes a flush sends are those entries of the map
  whose two votes are set and differ.\<close>

theorem rpmh_cache_refines_map:
  assumes "cache_ok ct" "cache_rpm_requests st cs ct = (r, ct')"
  shows "cache_ok ct' \<and>
    (r = OK () \<longrightarrow> cache_map (ct_cache ct') =
       fold (\<lambda>c m. m(cmd_addr c \<mapsto> vote_eff (st, c) (m (cmd_addr c)))) cs (cache_map (ct_cache ct))) \<and>
    (r = OK () \<or> r = Err ENOMEM \<and> length (ct_cache ct') = CMD_DB_MAX_RESOURCES) \<and>
    set (map (\<lambda>q. (cr_addr q, cr_sleep q, cr_wake q)) (filter is_req_valid (ct_cache ct'))) =
      {(a, s, w). cache_map (ct_cache ct') a = Some (s, w) \<and> s \<noteq> UINT_MAX \<and> w \<noteq> UINT_MAX \<and> s \<noteq> w}"
proof -
  note e = cache_requests_put_all [OF assms]
  have "cache_map (ct_cache ct') = fold (\<lambda>c m. m(cmd_addr c \<mapsto> vote_eff (st, c) (m (cmd_addr c)))) cs (cache_map (ct_cache ct))" if "r = OK ()"
    using votes_store.put_all_fold [OF assms(1) e(3) [OF that]] by (simp add: fold_map vote_key_def comp_def)
  then show ?thesis using e(1,2) cached_votes_map [OF e(1)] by blast
qed

definition demo_client :: rpmh_ctrlr where
  "demo_client = snd (cache_rpm_requests RPMH_WAKE_ONLY_STATE [demo_cmd, demo_cmd\<lparr>cmd_data := 6\<rparr>] (drv_client demo_drv))"

theorem rpmh_cache_refines_map_witness:
  "cache_ok (drv_client demo_drv) \<and> cache_map (ct_cache demo_client) 0x30000 = Some (UINT_MAX, 6)"
proof -
  have ok: "cache_ok (drv_client demo_drv)" "cache_map (ct_cache (drv_client demo_drv)) = (\<lambda>_. None)"
    by (code_simp, rule ext, simp add: cache_map_def) code_simp
  have c: "cache_rpm_requests RPMH_WAKE_ONLY_STATE [demo_cmd, demo_cmd\<lparr>cmd_data := 6\<rparr>] (drv_client demo_drv) = (OK (), demo_client)"
    unfolding demo_client_def by (rule prod_eqI) (simp_all, code_simp)
  show ?thesis using rpmh_cache_refines_map [OF ok(1) c] ok by (simp add: vote_eff_def demo_cmd_def)
qed




end
