(* ===== verification/Bcm_Voter.thy ===== *)
theory Bcm_Voter
  imports Rpmh
begin

text \<open>
  The bandwidth voter of the interconnect (\<^verbatim>\<open>drivers/interconnect/qcom/bcm-voter.c\<close>): bus clock
  managers (BCM) aggregate the bandwidth of their nodes into votes, and a voter turns the votes into
  batches of commands for RPMh. Nodes, BCMs and voters are shared objects, kept in stores by number;
  the lists of a voter are lists of BCM numbers.
\<close>

subsection \<open>Data\<close>

text \<open>
  What the headers \<^verbatim>\<open>tcs.h\<close> and \<^verbatim>\<open>qcom,icc.h\<close> define: the buckets and tags, the largest
  vote and the layout of a command word.
\<close>

record icc_h =
  NUM_BUCKETS :: nat
  BUCKET_AMC :: nat
  BUCKET_WAKE :: nat
  BUCKET_SLEEP :: nat
  TAG_ALWAYS :: u32w
  TAG_PERF_MODE :: u32w
  TAG_ACTIVE_ONLY :: u32w
  VOTE_MASK :: nat
  BCM_TCS_CMD :: "bool \<Rightarrow> bool \<Rightarrow> nat \<Rightarrow> nat \<Rightarrow> u32w"

definition MAX_BCMS :: nat where "MAX_BCMS = 64"
definition MAX_VCD :: nat where "MAX_VCD = 10"

record qcom_icc_node =
  qn_channels :: nat
  qn_buswidth :: nat
  qn_sum_avg :: "nat \<Rightarrow> nat"
  qn_max_peak :: "nat \<Rightarrow> nat"
  qn_perf_mode :: "nat \<Rightarrow> bool"
  qn_init_avg :: nat
  qn_init_peak :: nat
  qn_bcms :: "nat list"
  qn_qosbox :: bool
  qn_clk :: bool
  qn_toggle_clk :: bool
  qn_clk_enabled :: bool
  qn_bw_scale_numerator :: nat
  qn_bw_scale_denominator :: nat

datatype qcom_icc_bcm_type = QCOM_ICC_BCM_TYPE_BW | QCOM_ICC_BCM_TYPE_MASK

record qcom_icc_bcm =
  bcm_name :: bytes
  bcm_type :: qcom_icc_bcm_type
  bcm_addr :: u32w
  bcm_vote_x :: "nat \<Rightarrow> nat"
  bcm_vote_y :: "nat \<Rightarrow> nat"
  bcm_vote_scale :: nat
  bcm_enable_mask :: nat
  bcm_perf_mode_mask :: nat
  bcm_keepalive :: bool
  bcm_qos_proxy :: bool
  bcm_disabled :: bool
  bcm_unit :: nat
  bcm_width :: nat
  bcm_vcd :: nat
  bcm_voter_idx :: nat
  bcm_crm_node :: nat
  bcm_nodes :: "nat list"
  bcm_lists_init :: bool

datatype crm_drv_type = CRM_HW_DRV | CRM_SW_DRV

record crm_cmd =
  crm_pwr_state :: nat
  crm_resource_idx :: nat
  crm_data :: u32w
  crm_wait :: bool

record qcom_icc_crm_voter =
  crm_client_type :: crm_drv_type
  crm_client_idx :: nat
  crm_pwr_states :: nat

text \<open>
  A voter; \<open>bv_np\<close> is its device node, \<open>bv_registered\<close> is its membership in the list of all voters, \<open>bv_rsc\<close> the RPMh controller
  behind its device and \<open>bv_crm_log\<close> the commands written to the CRM.
\<close>

record bcm_voter =
  bv_np :: nat
  bv_registered :: bool
  bv_rsc :: rsc_drv
  bv_crm :: "qcom_icc_crm_voter option"
  bv_commit_list :: "nat list"
  bv_ws_list :: "nat list"
  bv_tcs_wait :: u32w
  bv_has_amc :: bool
  bv_crm_log :: "crm_cmd list"

record icc =
  icc_nodes :: "nat \<Rightarrow> qcom_icc_node"
  icc_bcms :: "nat \<Rightarrow> qcom_icc_bcm"
  icc_voters :: "bcm_voter list"

subsection \<open>Aggregation\<close>

definition bcm_div :: "nat \<Rightarrow> nat \<Rightarrow> nat result" where
  "bcm_div n base = (if n \<noteq> 0 \<and> n < base then OK 1 else if base = 0 then UB else OK (n div base))"

definition mask_bucket :: "qcom_icc_bcm \<Rightarrow> qcom_icc_node list \<Rightarrow> nat \<Rightarrow> nat" where
  "mask_bucket bcm nodes bucket =
     fold (\<lambda>node y.
         let y1 = (if qn_sum_avg node bucket \<noteq> 0 \<or> qn_max_peak node bucket \<noteq> 0 then y OR bcm_enable_mask bcm else y)
         in if qn_perf_mode node bucket then y1 OR bcm_perf_mode_mask bcm else y1)
       nodes 0"

definition bcm_aggregate_mask :: "icc_h \<Rightarrow> qcom_icc_node list \<Rightarrow> qcom_icc_bcm \<Rightarrow> qcom_icc_bcm" where
  "bcm_aggregate_mask h nodes bcm =
     (let x = (\<lambda>b. if b < NUM_BUCKETS h then 0 else bcm_vote_x bcm b);
          y = (\<lambda>b. if b < NUM_BUCKETS h then mask_bucket bcm nodes b else bcm_vote_y bcm b);
          y1 = y(BUCKET_AMC h := y (BUCKET_AMC h) OR bcm_enable_mask bcm);
          y2 = y1(BUCKET_WAKE h := y1 (BUCKET_WAKE h) OR bcm_enable_mask bcm)
      in bcm\<lparr>bcm_vote_x := x, bcm_vote_y := (if bcm_keepalive bcm then y2 else y)\<rparr>)"

fun agg_nodes :: "nat \<Rightarrow> nat \<Rightarrow> qcom_icc_node list \<Rightarrow> nat \<times> nat \<Rightarrow> (nat \<times> nat) result" where
  "agg_nodes width bucket [] (agg_avg, agg_peak) = OK (agg_avg, agg_peak)"
| "agg_nodes width bucket (node # nodes) (agg_avg, agg_peak) =
     rbind (bcm_div (u64 (qn_sum_avg node bucket * width)) (u32 (qn_buswidth node * qn_channels node))) (\<lambda>t.
     rbind (bcm_div (u64 (qn_max_peak node bucket * width)) (qn_buswidth node)) (\<lambda>t'.
       agg_nodes width bucket nodes (max agg_avg t, max agg_peak t')))"

definition agg_bucket :: "qcom_icc_node list \<Rightarrow> qcom_icc_bcm \<Rightarrow> nat \<Rightarrow> (nat \<times> nat) result" where
  "agg_bucket nodes bcm bucket =
     rbind (agg_nodes (bcm_width bcm) bucket nodes (0, 0)) (\<lambda>(agg_avg, agg_peak).
     rbind (bcm_div (u64 (agg_avg * bcm_vote_scale bcm)) (bcm_unit bcm)) (\<lambda>x.
     rbind (bcm_div (u64 (agg_peak * bcm_vote_scale bcm)) (bcm_unit bcm)) (\<lambda>y. OK (x, y))))"

fun agg_buckets :: "qcom_icc_node list \<Rightarrow> nat list \<Rightarrow> qcom_icc_bcm \<Rightarrow> qcom_icc_bcm result" where
  "agg_buckets nodes [] bcm = OK bcm"
| "agg_buckets nodes (b # bs) bcm =
     rbind (agg_bucket nodes bcm b) (\<lambda>(x, y).
       agg_buckets nodes bs (bcm\<lparr>bcm_vote_x := (bcm_vote_x bcm)(b := x), bcm_vote_y := (bcm_vote_y bcm)(b := y)\<rparr>))"

definition bcm_aggregate :: "icc_h \<Rightarrow> qcom_icc_node list \<Rightarrow> qcom_icc_bcm \<Rightarrow> qcom_icc_bcm result" where
  "bcm_aggregate h nodes bcm =
     rbind (agg_buckets nodes [0..<NUM_BUCKETS h] bcm) (\<lambda>b.
       OK (if bcm_keepalive b \<and> bcm_vote_x b (BUCKET_AMC h) = 0 \<and> bcm_vote_y b (BUCKET_AMC h) = 0
           then b\<lparr>bcm_vote_x := (bcm_vote_x b)(BUCKET_AMC h := 1, BUCKET_WAKE h := 1),
                  bcm_vote_y := (bcm_vote_y b)(BUCKET_AMC h := 1, BUCKET_WAKE h := 1)\<rparr>
           else b))"

subsection \<open>Command lists\<close>

definition tcs_cmd_gen :: "icc_h \<Rightarrow> nat \<Rightarrow> nat \<Rightarrow> u32w \<Rightarrow> bool \<Rightarrow> bool \<Rightarrow> tcs_cmd" where
  "tcs_cmd_gen h vote_x vote_y addr commit wait =
     \<lparr>cmd_addr = addr,
      cmd_data = BCM_TCS_CMD h commit (\<not> (vote_x = 0 \<and> vote_y = 0)) (min vote_x (VOTE_MASK h)) (min vote_y (VOTE_MASK h)),
      cmd_wait = of_bool wait\<rparr>"

text \<open>
  The loop of \<^verbatim>\<open>tcs_list_gen\<close> over the rest of the list: \<open>cmds\<close> holds the commands written so far
  and \<open>n\<close> the counts of the batches. Both arrays have a fixed size.
\<close>

fun tcs_list_loop ::
  "icc_h \<Rightarrow> nat \<Rightarrow> u32w \<Rightarrow> nat \<Rightarrow> qcom_icc_bcm list \<Rightarrow> nat \<Rightarrow> nat \<Rightarrow> nat list \<Rightarrow> tcs_cmd list \<Rightarrow> (tcs_cmd list \<times> nat list) result" where
  "tcs_list_loop h payload tcs_wait bucket [] batch cur_vcd_size n cmds = OK (cmds, n)"
| "tcs_list_loop h payload tcs_wait bucket (bcm # bcms) batch cur_vcd_size n cmds =
     (let commit = (bcms = [] \<or> bcm_vcd bcm \<noteq> bcm_vcd (hd bcms));
          cur = (if commit then 0 else cur_vcd_size + 1);
          wait = (commit \<and> bit tcs_wait bucket);
          cmd = tcs_cmd_gen h (bcm_vote_x bcm bucket) (bcm_vote_y bcm bucket) (bcm_addr bcm) commit wait
      in if length cmds \<ge> MAX_BCMS \<or> batch \<ge> length n then UB
         else
           let n1 = n[batch := n ! batch + 1] in
           if n1 ! batch \<ge> payload then
             if \<not> commit then
               if batch + 1 \<ge> length n then UB
               else tcs_list_loop h payload tcs_wait bucket bcms (batch + 1) cur
                      (n1[batch := n1 ! batch - cur, batch + 1 := cur]) (cmds @ [cmd])
             else tcs_list_loop h payload tcs_wait bucket bcms (batch + 1) cur n1 (cmds @ [cmd])
           else tcs_list_loop h payload tcs_wait bucket bcms batch cur n1 (cmds @ [cmd]))"

definition tcs_list_gen :: "icc_h \<Rightarrow> nat \<Rightarrow> u32w \<Rightarrow> nat \<Rightarrow> qcom_icc_bcm list \<Rightarrow> (tcs_cmd list \<times> nat list) result" where
  "tcs_list_gen h payload tcs_wait bucket bcms = tcs_list_loop h payload tcs_wait bucket bcms 0 0 (replicate (MAX_VCD + 1) 0) []"

subsection \<open>Voters\<close>

text \<open>
  A list node of a BCM is empty when it was initialised and the BCM is in no voter's list. A node that
  is still zero is not empty for \<^verbatim>\<open>list_empty\<close>, which compares it with its own address.
\<close>

definition on_commit_list :: "icc \<Rightarrow> nat \<Rightarrow> bool" where
  "on_commit_list s b = list_ex (\<lambda>v. b \<in> set (bv_commit_list v)) (icc_voters s)"

definition on_ws_list :: "icc \<Rightarrow> nat \<Rightarrow> bool" where
  "on_ws_list s b = list_ex (\<lambda>v. b \<in> set (bv_ws_list v)) (icc_voters s)"

definition set_voter :: "icc \<Rightarrow> nat \<Rightarrow> bcm_voter \<Rightarrow> icc" where
  "set_voter s v voter = s\<lparr>icc_voters := (icc_voters s)[v := voter]\<rparr>"

definition qcom_icc_bcm_voter_exist :: "icc \<Rightarrow> nat option \<Rightarrow> bool" where
  "qcom_icc_bcm_voter_exist s voter =
     (case voter of None \<Rightarrow> False | Some v \<Rightarrow> v < length (icc_voters s) \<and> bv_registered (icc_voters s ! v))"

definition qcom_icc_bcm_voter_add :: "nat option \<Rightarrow> nat \<Rightarrow> icc \<Rightarrow> icc" where
  "qcom_icc_bcm_voter_add voter b s =
     (case voter of
        None \<Rightarrow> s
      | Some v \<Rightarrow>
          if \<not> qcom_icc_bcm_voter_exist s voter then s
          else
            let vt = icc_voters s ! v;
                vt1 = (if bcm_lists_init (icc_bcms s b) \<and> \<not> on_commit_list s b then vt\<lparr>bv_commit_list := bv_commit_list vt @ [b]\<rparr> else vt);
                vt2 = (if bcm_lists_init (icc_bcms s b) \<and> \<not> on_ws_list s b then vt1\<lparr>bv_ws_list := bv_ws_list vt1 @ [b]\<rparr> else vt1)
            in set_voter s v vt2)"

definition sort_vcd :: "icc \<Rightarrow> nat list \<Rightarrow> nat list" where
  "sort_vcd s bs = sort_key (\<lambda>b. bcm_vcd (icc_bcms s b)) bs"

definition ws_differ :: "icc_h \<Rightarrow> bool \<Rightarrow> qcom_icc_bcm \<Rightarrow> bool" where
  "ws_differ h has_amc bcm \<longleftrightarrow>
     \<not> has_amc \<or> bcm_vote_x bcm (BUCKET_WAKE h) \<noteq> bcm_vote_x bcm (BUCKET_SLEEP h) \<or>
     bcm_vote_y bcm (BUCKET_WAKE h) \<noteq> bcm_vote_y bcm (BUCKET_SLEEP h)"

text \<open>The trace looks for the first count that is zero; with none it reads past the array.\<close>

definition qcom_icc_bcm_log :: "nat list \<Rightarrow> unit result" where
  "qcom_icc_bcm_log commit_idx = (if list_ex (\<lambda>k. k = 0) commit_idx then OK () else UB)"

text \<open>Generating and writing the commands of one bucket for the commit list of a voter.\<close>

definition send_bucket ::
  "icc_h \<Rightarrow> rpmh_env \<Rightarrow> nat \<Rightarrow> rpmh_state \<Rightarrow> nat \<Rightarrow> (nat \<Rightarrow> qcom_icc_bcm) \<Rightarrow> bcm_voter \<Rightarrow> (unit result \<times> bcm_voter) outcome" where
  "send_bucket h env compl state bucket bcms vt =
     (case tcs_list_gen h (env_max_payload env) (bv_tcs_wait vt) bucket (map bcms (bv_commit_list vt)) of
        OK (cmds, n) \<Rightarrow>
          if qcom_icc_bcm_log n = UB then Returns (UB, vt)
          else obind (rpmh_write_batch env compl state (Some cmds) n (bv_rsc vt)) (\<lambda>(r, d). Returns (r, vt\<lparr>bv_rsc := d\<rparr>))
      | Err e \<Rightarrow> Returns (Err e, vt)
      | UB \<Rightarrow> Returns (UB, vt))"

text \<open>The part of \<^verbatim>\<open>commit_rpmh\<close> after the active votes; \<open>ret\<close> is the value the active votes left.\<close>

definition commit_wake_sleep ::
  "icc_h \<Rightarrow> rpmh_env \<Rightarrow> nat \<Rightarrow> icc \<Rightarrow> unit result \<Rightarrow> bcm_voter \<Rightarrow> (unit result \<times> bcm_voter) outcome" where
  "commit_wake_sleep h env compl s ret vt =
     (let differ = filter (\<lambda>b. ws_differ h (bv_has_amc vt) (icc_bcms s b)) (bv_ws_list vt);
          vt1 = vt\<lparr>bv_rsc := rpmh_invalidate env (bv_rsc vt), bv_commit_list := differ, bv_ws_list := differ\<rparr>
      in if differ = [] then Returns (ret, vt1)
         else
           let vt2 = vt1\<lparr>bv_commit_list := sort_vcd s differ\<rparr> in
           obind (send_bucket h env compl RPMH_WAKE_ONLY_STATE (BUCKET_WAKE h) (icc_bcms s) vt2) (\<lambda>(r, vt3).
             case r of
               OK _ \<Rightarrow> send_bucket h env compl RPMH_SLEEP_STATE (BUCKET_SLEEP h) (icc_bcms s) vt3
             | _ \<Rightarrow> Returns (r, vt3)))"

definition commit_rpmh :: "icc_h \<Rightarrow> rpmh_env \<Rightarrow> nat \<Rightarrow> icc \<Rightarrow> bcm_voter \<Rightarrow> (unit result \<times> bcm_voter) outcome" where
  "commit_rpmh h env compl s vt =
     (if bv_has_amc vt then
        let vt1 = vt\<lparr>bv_commit_list := sort_vcd s (bv_commit_list vt)\<rparr> in
        (case tcs_list_gen h (env_max_payload env) (bv_tcs_wait vt1) (BUCKET_AMC h) (map (icc_bcms s) (bv_commit_list vt1)) of
           OK (cmds, n) \<Rightarrow>
             if hd n = 0 then Returns (OK (), vt1)
             else if qcom_icc_bcm_log n = UB then Returns (UB, vt1)
             else
               obind (rpmh_write_batch env compl RPMH_ACTIVE_ONLY_STATE (Some cmds) n (bv_rsc vt1)) (\<lambda>(r, d).
                 let vt2 = vt1\<lparr>bv_rsc := d\<rparr> in
                 case r of
                   UB \<Rightarrow> Returns (UB, vt2)
                 | Err e \<Rightarrow> if e \<noteq> EBUSY then Returns (Err e, vt2) else commit_wake_sleep h env compl s r vt2
                 | OK _ \<Rightarrow> commit_wake_sleep h env compl s r vt2)
         | Err e \<Rightarrow> Returns (Err e, vt1)
         | UB \<Rightarrow> Returns (UB, vt1))
      else commit_wake_sleep h env compl s (OK ()) vt)"

subsection \<open>Votes through the CRM\<close>

definition map_crm_pwr_state :: "icc_h \<Rightarrow> crm_drv_type \<Rightarrow> nat \<Rightarrow> nat result" where
  "map_crm_pwr_state h client_type bucket =
     (if client_type = CRM_HW_DRV then OK bucket
      else if bucket = BUCKET_AMC h then OK 0
      else if bucket = BUCKET_WAKE h then OK 2
      else if bucket = BUCKET_SLEEP h then OK 1
      else Err EINVAL)"

definition crm_cmd_gen :: "icc_h \<Rightarrow> crm_drv_type \<Rightarrow> nat \<Rightarrow> nat \<Rightarrow> nat \<Rightarrow> nat \<Rightarrow> crm_cmd result" where
  "crm_cmd_gen h client_type bucket node vote_x vote_y =
     rbind (map_crm_pwr_state h client_type bucket) (\<lambda>pwr_state.
       OK \<lparr>crm_pwr_state = pwr_state, crm_resource_idx = node,
           crm_data = BCM_TCS_CMD h True True (min vote_x (VOTE_MASK h)) (min vote_y (VOTE_MASK h)), crm_wait = True\<rparr>)"

text \<open>
  \<open>write\<close> stands for \<^verbatim>\<open>crm_write_bw_pt_vote\<close>: it answers a write of a client, given the writes
  before. The votes have one entry per bucket.
\<close>

type_synonym crm_write = "crm_cmd list \<Rightarrow> crm_drv_type \<Rightarrow> nat \<Rightarrow> crm_cmd \<Rightarrow> unit result"

fun commit_crm_states ::
  "icc_h \<Rightarrow> crm_write \<Rightarrow> qcom_icc_crm_voter \<Rightarrow> qcom_icc_bcm \<Rightarrow> nat list \<Rightarrow> crm_cmd list \<Rightarrow>
   unit result \<times> crm_cmd list" where
  "commit_crm_states h write crm bcm [] log = (OK (), log)"
| "commit_crm_states h write crm bcm (i # is) log =
     (if i \<ge> NUM_BUCKETS h then (UB, log)
      else
        case crm_cmd_gen h (crm_client_type crm) i (bcm_crm_node bcm) (bcm_vote_x bcm i) (bcm_vote_y bcm i) of
          OK cmd \<Rightarrow>
            (case write log (crm_client_type crm) (crm_client_idx crm) cmd of
               OK _ \<Rightarrow> commit_crm_states h write crm bcm is (log @ [cmd])
             | r \<Rightarrow> (r, log @ [cmd]))
        | Err e \<Rightarrow> (Err e, log)
        | UB \<Rightarrow> (UB, log))"

fun commit_crm ::
  "icc_h \<Rightarrow> crm_write \<Rightarrow> qcom_icc_crm_voter \<Rightarrow> qcom_icc_bcm list \<Rightarrow> crm_cmd list \<Rightarrow>
   unit result \<times> crm_cmd list" where
  "commit_crm h write crm [] log = (OK (), log)"
| "commit_crm h write crm (bcm # bcms) log =
     (case commit_crm_states h write crm bcm [0..<crm_pwr_states crm] log of
        (OK _, log') \<Rightarrow> commit_crm h write crm bcms log'
      | r \<Rightarrow> r)"

subsection \<open>Committing\<close>

definition aggregate_one :: "icc_h \<Rightarrow> icc \<Rightarrow> nat \<Rightarrow> qcom_icc_bcm result" where
  "aggregate_one h s b =
     (let bcm = icc_bcms s b; nodes = map (icc_nodes s) (bcm_nodes bcm) in
      if bcm_type bcm = QCOM_ICC_BCM_TYPE_MASK \<or> bcm_enable_mask bcm \<noteq> 0 then OK (bcm_aggregate_mask h nodes bcm)
      else bcm_aggregate h nodes bcm)"

fun aggregate_list :: "icc_h \<Rightarrow> nat list \<Rightarrow> icc \<Rightarrow> icc result" where
  "aggregate_list h [] s = OK s"
| "aggregate_list h (b # bs) s =
     rbind (aggregate_one h s b) (\<lambda>bcm. aggregate_list h bs (s\<lparr>icc_bcms := (icc_bcms s)(b := bcm)\<rparr>))"

definition qcom_icc_bcm_voter_commit ::
  "icc_h \<Rightarrow> rpmh_env \<Rightarrow> nat \<Rightarrow> crm_write \<Rightarrow> nat option \<Rightarrow> icc \<Rightarrow> (unit result \<times> icc) outcome" where
  "qcom_icc_bcm_voter_commit h env compl write voter s =
     (case voter of
        None \<Rightarrow> Returns (OK (), s)
      | Some v \<Rightarrow>
          if \<not> qcom_icc_bcm_voter_exist s voter then Returns (Err ENODEV, s)
          else
            case aggregate_list h (bv_commit_list (icc_voters s ! v)) s of
              UB \<Rightarrow> Returns (UB, s)
            | Err e \<Rightarrow> Returns (Err e, s)
            | OK s1 \<Rightarrow>
                let vt = icc_voters s1 ! v;
                    finish = (\<lambda>r vt'. Returns (r, set_voter s1 v (vt'\<lparr>bv_commit_list := []\<rparr>)))
                in case bv_crm vt of
                     Some crm \<Rightarrow>
                       (case commit_crm h write crm (map (icc_bcms s1) (bv_commit_list vt)) (bv_crm_log vt) of
                          (r, log) \<Rightarrow> finish r (vt\<lparr>bv_crm_log := log\<rparr>))
                   | None \<Rightarrow> obind (commit_rpmh h env compl s1 vt) (\<lambda>(r, vt'). finish r vt'))"

subsection \<open>Registration\<close>

text \<open>
  What the kernel and the device tree answer to the probe of a voter: its node, whether the two
  allocations succeed, its attributes, and the CRM if there is a name for it (its device or the error
  of getting it).
\<close>

record voter_node =
  vn_np :: nat
  vn_alloc :: bool
  vn_no_amc :: bool
  vn_tcs_wait :: "u32w option"
  vn_crm :: "unit result option"
  vn_crm_alloc :: bool
  vn_crm_sw :: bool
  vn_crm_idx :: "nat result"
  vn_crm_states :: "nat result"

definition probe_crm :: "voter_node \<Rightarrow> qcom_icc_crm_voter option result" where
  "probe_crm vn =
     (case vn_crm vn of
        None \<Rightarrow> OK None
      | Some dev \<Rightarrow>
          if \<not> vn_crm_alloc vn then Err ENOMEM
          else
            rbind (case dev of Err e \<Rightarrow> Err (if e = ENODEV then EPROBE_DEFER else e) | _ \<Rightarrow> dev) (\<lambda>_.
            rbind (vn_crm_idx vn) (\<lambda>idx.
            rbind (vn_crm_states vn) (\<lambda>states.
              OK (Some \<lparr>crm_client_type = (if vn_crm_sw vn then CRM_SW_DRV else CRM_HW_DRV),
                        crm_client_idx = idx, crm_pwr_states = states\<rparr>)))))"

definition qcom_icc_bcm_voter_probe :: "icc_h \<Rightarrow> voter_node \<Rightarrow> rsc_drv \<Rightarrow> icc \<Rightarrow> unit result \<times> icc" where
  "qcom_icc_bcm_voter_probe h vn rsc s =
     (if \<not> vn_alloc vn then (Err ENOMEM, s)
      else
        case probe_crm vn of
          OK crm \<Rightarrow>
            (OK (), s\<lparr>icc_voters := icc_voters s @
               [\<lparr>bv_np = vn_np vn, bv_registered = True, bv_rsc = rsc, bv_crm = crm, bv_commit_list = [], bv_ws_list = [],
                 bv_tcs_wait = (case vn_tcs_wait vn of None \<Rightarrow> TAG_ACTIVE_ONLY h | Some w \<Rightarrow> w),
                 bv_has_amc = (\<not> vn_no_amc vn), bv_crm_log = []\<rparr>]\<rparr>)
        | Err e \<Rightarrow> (Err e, s)
        | UB \<Rightarrow> (UB, s))"

text \<open>
  The list of all voters in its order: voters are only appended to it, and a removed voter keeps its
  number, which stands for its address.
\<close>

definition find_voter :: "nat option \<Rightarrow> icc \<Rightarrow> nat option" where
  "find_voter node s =
     find (\<lambda>v. bv_registered (icc_voters s ! v) \<and> node = Some (bv_np (icc_voters s ! v))) [0..<length (icc_voters s)]"

definition qcom_icc_bcm_voter_remove :: "nat \<Rightarrow> icc \<Rightarrow> icc" where
  "qcom_icc_bcm_voter_remove np s =
     (case find_voter (Some np) s of
        None \<Rightarrow> s
      | Some v \<Rightarrow> set_voter s v ((icc_voters s ! v)\<lparr>bv_registered := False\<rparr>))"

text \<open>
  The consumer has a node or not; \<open>idx\<close> is the position of the name in its list of names, or the
  error of matching it, if a name is given; \<open>phandle\<close> are the nodes it refers to.
\<close>

definition of_bcm_voter_get :: "bool \<Rightarrow> nat result option \<Rightarrow> (nat \<Rightarrow> nat option) \<Rightarrow> icc \<Rightarrow> nat result" where
  "of_bcm_voter_get has_node idx phandle s =
     (if \<not> has_node then Err ENODEV
      else
        rbind (case idx of None \<Rightarrow> OK 0 | Some r \<Rightarrow> r) (\<lambda>i.
          case find_voter (phandle i) s of Some v \<Rightarrow> OK v | None \<Rightarrow> Err EPROBE_DEFER))"

end
