(* ===== verification/Bcm_Batch.thy ===== *)
theory Bcm_Batch
  imports Bcm_Voter
begin

text \<open>
  The batches \<^verbatim>\<open>tcs_list_gen\<close> cuts a list of BCMs into: a loop invariant on the counts, and what
  follows from it for the result, for lists that fit one payload and for the first batch.
\<close>

text \<open>A cut at position \<open>p\<close> of a list of BCMs separates no two neighbours of one VCD.\<close>

definition vcd_cut :: "qcom_icc_bcm list \<Rightarrow> nat \<Rightarrow> bool" where
  "vcd_cut bcms p = (p = 0 \<or> p \<ge> length bcms \<or> bcm_vcd (bcms ! (p - 1)) \<noteq> bcm_vcd (bcms ! p))"

text \<open>
  The state of the loop after \<open>p\<close> BCMs: the counts add up to \<open>p\<close>, the batches before the current one
  end at a cut, nothing is counted after it, and the last \<open>cur\<close> BCMs belong to an unfinished VCD that
  started at a cut and lies in the current batch.
\<close>

definition batch_inv :: "qcom_icc_bcm list \<Rightarrow> nat \<Rightarrow> nat \<Rightarrow> nat \<Rightarrow> nat list \<Rightarrow> bool" where
  "batch_inv bcms p batch cur n \<longleftrightarrow>
     sum_list n = p \<and> p \<le> length bcms \<and>
     (\<forall>k \<le> batch. vcd_cut bcms (sum_list (take k n))) \<and>
     (\<forall>k. batch < k \<longrightarrow> k < length n \<longrightarrow> n ! k = 0) \<and>
     vcd_cut bcms (p - cur) \<and> cur \<le> p \<and> (batch < length n \<longrightarrow> cur \<le> n ! batch) \<and> (length n \<le> batch \<longrightarrow> cur = 0)"

lemma sum_list_inc: "i < length n \<Longrightarrow> sum_list (n[i := Suc (n ! i)]) = Suc (sum_list n)"
  using member_le_sum_list [of "n ! i" n] by (simp add: sum_list_update)

lemma sum_take_zeros:
  assumes "\<forall>k. b < k \<longrightarrow> k < length n \<longrightarrow> n ! k = (0::nat)" "b < length n"
  shows "sum_list (take (Suc b) n) = sum_list n"
proof -
  have "sum_list (drop (Suc b) n) = 0"
    using assms by (auto simp: sum_list_eq_0_iff in_set_conv_nth)
  then show ?thesis
    by (metis add.right_neutral append_take_drop_id sum_list.append)
qed

lemma sum_take_before:
  assumes "\<forall>k. b < k \<longrightarrow> k < length n \<longrightarrow> n ! k = (0::nat)" "b < length n"
  shows "sum_list (take b n) + n ! b = sum_list n"
  using sum_take_zeros [OF assms] assms(2) by (simp add: take_Suc_conv_app_nth)


lemma batch_inv_count:
  assumes inv: "batch_inv bcms p batch cur n" and p: "p < length bcms" and b: "batch < length n"
  shows "batch_inv bcms (Suc p) batch (if vcd_cut bcms (Suc p) then 0 else cur + 1) (n[batch := n ! batch + 1])"
  using inv p b unfolding batch_inv_def by (auto simp: sum_list_inc nth_list_update)

lemma batch_inv_advance:
  assumes inv: "batch_inv bcms p batch 0 n" and b: "batch < length n"
  shows "batch_inv bcms p (Suc batch) 0 n"
proof -
  have "sum_list (take (Suc batch) n) = p"
    using inv b sum_take_zeros [of batch n] by (simp add: batch_inv_def)
  with inv b show ?thesis
    unfolding batch_inv_def by (auto simp: le_Suc_eq)
qed

lemma batch_inv_split:
  assumes inv: "batch_inv bcms p batch cur n" and b: "Suc batch < length n"
  shows "batch_inv bcms p (Suc batch) cur (n[batch := n ! batch - cur, Suc batch := cur])"
proof -
  let ?m = "n[batch := n ! batch - cur, Suc batch := cur]"
  have z: "\<forall>k. batch < k \<longrightarrow> k < length n \<longrightarrow> n ! k = 0" and s: "sum_list n = p" and c: "cur \<le> n ! batch"
    using inv b by (auto simp: batch_inv_def)
  have tb: "sum_list (take batch n) + n ! batch = p"
    using sum_take_before [OF z] b s by simp
  have t: "sum_list (take (Suc batch) ?m) = p - cur"
    using b c tb by (simp add: take_Suc_conv_app_nth)
  have z': "\<forall>k. Suc batch < k \<longrightarrow> k < length ?m \<longrightarrow> ?m ! k = 0"
    using z by simp
  have "sum_list (take (Suc batch) ?m) + ?m ! Suc batch = sum_list ?m"
    using sum_take_before [OF z'] b by simp
  then have "sum_list ?m = p"
    using t b c tb by simp
  with inv b t z' show ?thesis
    unfolding batch_inv_def by (auto simp: le_Suc_eq)
qed

lemma vcd_cut_next:
  "drop p bcms = b # rest \<Longrightarrow> (rest = [] \<or> bcm_vcd b \<noteq> bcm_vcd (hd rest)) = vcd_cut bcms (Suc p)"
proof -
  assume d: "drop p bcms = b # rest"
  then have p: "p < length bcms" by (metis drop_all list.distinct(1) not_le)
  have "b = bcms ! p" "rest = drop (Suc p) bcms"
    using d p by (metis Cons_nth_drop_Suc list.inject)+
  then show ?thesis
    by (auto simp: vcd_cut_def hd_drop_conv_nth)
qed

text \<open>The command of the BCM at a position: the commit bit is set exactly where its VCD ends.\<close>

definition cmd_at :: "icc_h \<Rightarrow> u32w \<Rightarrow> nat \<Rightarrow> qcom_icc_bcm list \<Rightarrow> nat \<Rightarrow> tcs_cmd" where
  "cmd_at h w bucket bcms i =
     (let b = bcms ! i; commit = vcd_cut bcms (Suc i) in
      tcs_cmd_gen h (bcm_vote_x b bucket) (bcm_vote_y b bucket) (bcm_addr b) commit (commit \<and> bit w bucket))"

lemma tcs_list_loop_inv:
  assumes "drop p bcms = rest" "batch_inv bcms p batch cur n" "cmds = map (cmd_at h w bucket bcms) [0..<p]"
    "tcs_list_loop h payload w bucket rest batch cur n cmds = OK (cs, m)" "p \<le> length bcms"
  shows "\<exists>k c. batch_inv bcms (length bcms) k c m \<and> cs = map (cmd_at h w bucket bcms) [0..<length bcms] \<and> length m = length n"
  using assms
proof (induction rest arbitrary: p batch cur n cmds)
  case Nil
  then have "p = length bcms" by simp
  with Nil show ?case by auto
next
  case (Cons b rest)
  let ?cur = "if vcd_cut bcms (Suc p) then 0 else cur + 1"
  let ?n = "n[batch := n ! batch + 1]"
  let ?cmds = "cmds @ [cmd_at h w bucket bcms p]"
  have p: "p < length bcms" and b: "b = bcms ! p" and rest: "drop (Suc p) bcms = rest"
    using Cons.prems(1) by (metis drop_all list.distinct(1) not_le, metis Cons_nth_drop_Suc drop_all leI list.inject list.distinct(1), metis drop_Suc list.sel(3) tl_drop)
  note cut = vcd_cut_next [OF Cons.prems(1)]
  have ok: "batch < length n" and cases:
    "if ?n ! batch \<ge> payload then
       if vcd_cut bcms (Suc p) then tcs_list_loop h payload w bucket rest (Suc batch) ?cur ?n ?cmds = OK (cs, m)
       else Suc batch < length n \<and> tcs_list_loop h payload w bucket rest (Suc batch) ?cur (?n[batch := ?n ! batch - ?cur, Suc batch := ?cur]) ?cmds = OK (cs, m)
     else tcs_list_loop h payload w bucket rest batch ?cur ?n ?cmds = OK (cs, m)"
    using Cons.prems(4) unfolding tcs_list_loop.simps Let_def cut b [symmetric]
    by (auto simp: cmd_at_def Let_def b split: if_splits)
  have inv: "batch_inv bcms (Suc p) batch ?cur ?n"
    by (rule batch_inv_count [OF Cons.prems(2) p ok])
  have cmds: "?cmds = map (cmd_at h w bucket bcms) [0..<Suc p]"
    using Cons.prems(3) by simp
  note IH = Cons.IH [OF rest _ cmds _ Suc_leI [OF p]]
  consider (stay) "\<not> ?n ! batch \<ge> payload" | (adv) "?n ! batch \<ge> payload" "vcd_cut bcms (Suc p)"
    | (split) "?n ! batch \<ge> payload" "\<not> vcd_cut bcms (Suc p)" by blast
  then show ?case
  proof cases
    case stay
    with IH [OF inv] cases show ?thesis by auto
  next
    case adv
    then have "batch_inv bcms (Suc p) (Suc batch) ?cur ?n"
      using batch_inv_advance [of bcms "Suc p" batch ?n] inv ok by simp
    from IH [OF this] adv cases show ?thesis by auto
  next
    case split
    then have "batch_inv bcms (Suc p) (Suc batch) ?cur (?n[batch := ?n ! batch - ?cur, Suc batch := ?cur])"
      using batch_inv_split [OF inv] cases by simp
    from IH [OF this] split cases show ?thesis by auto
  qed
qed


lemma batch_inv_start: "batch_inv bcms 0 0 0 (replicate k 0)"
  by (simp add: batch_inv_def vcd_cut_def sum_list_replicate)

lemma batch_inv_cuts:
  assumes inv: "batch_inv bcms (length bcms) batch cur n" and k: "k \<le> length n"
  shows "vcd_cut bcms (sum_list (take k n))"
proof (cases "k \<le> batch")
  case True
  with inv show ?thesis by (simp add: batch_inv_def)
next
  case False
  then have "\<forall>i. k - 1 < i \<longrightarrow> i < length n \<longrightarrow> n ! i = 0"
    using inv by (simp add: batch_inv_def)
  then have "sum_list (take k n) = length bcms"
    using sum_take_zeros [of "k - 1" n] False k inv by (simp add: batch_inv_def)
  then show ?thesis by (simp add: vcd_cut_def)
qed

lemma tcs_list_gen_result:
  assumes "tcs_list_gen h payload w bucket bcms = OK (cs, n)"
  shows "cs = map (cmd_at h w bucket bcms) [0..<length bcms] \<and> length n = MAX_VCD + 1 \<and>
    sum_list n = length bcms \<and> (\<forall>k \<le> length n. vcd_cut bcms (sum_list (take k n)))"
proof -
  obtain k c where inv: "batch_inv bcms (length bcms) k c n"
    and cs: "cs = map (cmd_at h w bucket bcms) [0..<length bcms]" and len: "length n = MAX_VCD + 1"
    using tcs_list_loop_inv [OF drop_0 batch_inv_start, of "[]" h w bucket bcms payload "MAX_VCD + 1" cs n] assms
    by (auto simp: tcs_list_gen_def)
  have "sum_list n = length bcms"
    using inv by (simp add: batch_inv_def)
  with cs len batch_inv_cuts [OF inv] show ?thesis by blast
qed

subsection \<open>The first batch\<close>

lemma tcs_list_loop_first:
  assumes "tcs_list_loop h payload w bucket rest batch cur n cmds = OK (cs, m)" "n \<noteq> []"
    "n ! 0 \<le> payload" "batch = 0 \<longrightarrow> n ! 0 < payload"
  shows "m ! 0 \<le> payload"
  using assms
proof (induction rest arbitrary: batch cur n cmds)
  case (Cons b rest)
  show ?case
    using Cons.prems
    by (auto simp: Let_def nth_list_update split: if_splits intro!: Cons.IH)
qed simp

lemma first_batch_le:
  "tcs_list_gen h payload w bucket bcms = OK (cs, n) \<Longrightarrow> 0 < payload \<Longrightarrow> n ! 0 \<le> payload"
  unfolding tcs_list_gen_def by (erule tcs_list_loop_first) auto

lemma one_vcd_first_batch:
  assumes gen: "tcs_list_gen h payload w bucket bcms = OK (cs, n)" and pl: "0 < payload" "payload < length bcms"
    and vcd: "\<forall>b \<in> set bcms. bcm_vcd b = v"
  shows "n ! 0 = 0"
proof -
  note r = tcs_list_gen_result [OF gen]
  have "vcd_cut bcms (sum_list (take 1 n))" "n \<noteq> []"
    using r by (auto simp: MAX_VCD_def)
  then have "vcd_cut bcms (n ! 0)"
    by (cases n) auto
  then show ?thesis
    using first_batch_le [OF gen pl(1)] pl vcd by (auto simp: vcd_cut_def)
qed

text \<open>Up to a payload of BCMs are generated as one batch.\<close>

lemma tcs_list_loop_small:
  assumes "drop p bcms = rest" "cmds = map (cmd_at h w bucket bcms) [0..<p]" "p \<le> length bcms"
    "length bcms \<le> payload" "length bcms \<le> MAX_BCMS" "p = length bcms \<longrightarrow> batch \<le> 1" "p < length bcms \<longrightarrow> batch = 0"
  shows "tcs_list_loop h payload w bucket rest batch cur (p # ns) cmds =
    OK (map (cmd_at h w bucket bcms) [0..<length bcms], length bcms # ns)"
  using assms
proof (induction rest arbitrary: p batch cur cmds)
  case Nil
  then have "p = length bcms" by simp
  with Nil show ?case by simp
next
  case (Cons b rest)
  have p: "p < length bcms" and b: "b = bcms ! p" and rest: "drop (Suc p) bcms = rest"
    using Cons.prems(1) by (metis drop_all list.distinct(1) not_le, metis Cons_nth_drop_Suc drop_all leI list.inject list.distinct(1), metis drop_Suc list.sel(3) tl_drop)
  note cut = vcd_cut_next [OF Cons.prems(1)]
  have cmds: "cmds @ [cmd_at h w bucket bcms p] = map (cmd_at h w bucket bcms) [0..<Suc p]"
    using Cons.prems(2) by simp
  note IH = Cons.IH [OF rest cmds Suc_leI [OF p] Cons.prems(4,5)]
  have cmd: "tcs_cmd_gen h (bcm_vote_x b bucket) (bcm_vote_y b bucket) (bcm_addr b) (vcd_cut bcms (Suc p)) (vcd_cut bcms (Suc p) \<and> bit w bucket) = cmd_at h w bucket bcms p"
    by (simp add: cmd_at_def Let_def b)
  have len: "length cmds < MAX_BCMS" and b0: "batch = 0"
    using Cons.prems p by auto
  have last: "Suc p \<ge> payload \<Longrightarrow> vcd_cut bcms (Suc p) \<and> Suc p = length bcms"
    using p Cons.prems(4) by (simp add: vcd_cut_def)
  show ?case
    unfolding tcs_list_loop.simps Let_def cut cmd
    using len b0 last IH [of 0] IH [of 1] p by auto
qed

lemma tcs_list_gen_small:
  assumes "length bcms \<le> payload" "length bcms \<le> MAX_BCMS"
  shows "tcs_list_gen h payload w bucket bcms =
    OK (map (cmd_at h w bucket bcms) [0..<length bcms], length bcms # replicate MAX_VCD 0)"
  unfolding tcs_list_gen_def
  using tcs_list_loop_small [of 0 bcms bcms "[]" h w bucket payload 0 0 "replicate MAX_VCD 0"] assms by simp

end
