(* ===== verification/Bcm_Agg.thy ===== *)
theory Bcm_Agg
  imports Bcm_Voter
begin

text \<open>
  The votes of a BCM: aggregating never divides by zero on an initialised BCM, and a demand of a node
  is never rounded to no vote.
\<close>

subsection \<open>Aggregation\<close>

lemma bcm_div_OK: "0 < base \<Longrightarrow> bcm_div n base = OK (if n \<noteq> 0 \<and> n < base then 1 else n div base)"
  by (simp add: bcm_div_def)

lemma bcm_div_bounds:
  assumes "0 < base" "bcm_div n base = OK q"
  shows "q \<le> n" "0 < n \<Longrightarrow> 0 < q"
  using assms by (auto simp: bcm_div_OK div_greater_zero_iff split: if_splits)

text \<open>A node a BCM can aggregate: a bus of positive width with channels, and products that fit their type.\<close>

definition node_fits :: "nat \<Rightarrow> nat \<Rightarrow> nat \<Rightarrow> qcom_icc_node \<Rightarrow> bool" where
  "node_fits width scale bucket node \<longleftrightarrow>
     0 < qn_buswidth node \<and> 0 < qn_channels node \<and> qn_buswidth node * qn_channels node < 2 ^ 32 \<and>
     qn_sum_avg node bucket * width * scale < 2 ^ 64 \<and> qn_max_peak node bucket * width * scale < 2 ^ 64"

lemma mul_less_pos: "a * s < m \<Longrightarrow> 0 < s \<Longrightarrow> a < (m :: nat)"
  by (metis le_less_trans mult.right_neutral mult_le_mono2 Suc_leI One_nat_def)

lemma agg_nodes_OK:
  assumes "\<forall>node \<in> set nodes. node_fits width scale bucket node" "0 < scale"
    "avg * scale < 2 ^ 64" "peak * scale < 2 ^ 64"
  shows "\<exists>x y. agg_nodes width bucket nodes (avg, peak) = OK (x, y) \<and> x * scale < 2 ^ 64 \<and> y * scale < 2 ^ 64 \<and>
    avg \<le> x \<and> peak \<le> y \<and>
    (\<forall>node \<in> set nodes. 0 < width \<longrightarrow> (0 < qn_sum_avg node bucket \<longrightarrow> 0 < x) \<and> (0 < qn_max_peak node bucket \<longrightarrow> 0 < y))"
  using assms
proof (induction nodes arbitrary: avg peak)
  case (Cons node nodes)
  have fit: "node_fits width scale bucket node" using Cons.prems by simp
  let ?a = "qn_sum_avg node bucket * width" let ?p = "qn_max_peak node bucket * width"
  have u: "u64 ?a = ?a" "u64 ?p = ?p" "u32 (qn_buswidth node * qn_channels node) = qn_buswidth node * qn_channels node"
    using fit mul_less_pos [of ?a scale "2 ^ 64"] mul_less_pos [of ?p scale "2 ^ 64"] Cons.prems(2)
    by (simp_all add: node_fits_def u64_def u32_def)
  have pos: "0 < qn_buswidth node * qn_channels node" "0 < qn_buswidth node"
    using fit by (simp_all add: node_fits_def)
  obtain t t' where t: "bcm_div ?a (qn_buswidth node * qn_channels node) = OK t" "bcm_div ?p (qn_buswidth node) = OK t'"
    using pos by (simp add: bcm_div_OK)
  note bt = bcm_div_bounds [OF pos(1) t(1)] bcm_div_bounds [OF pos(2) t(2)]
  have "t * scale < 2 ^ 64" "t' * scale < 2 ^ 64"
    using le_less_trans [OF mult_le_mono1 [OF bt(1)]] le_less_trans [OF mult_le_mono1 [OF bt(3)]] fit
    unfolding node_fits_def by blast+
  then have le: "max avg t * scale < 2 ^ 64" "max peak t' * scale < 2 ^ 64"
    using Cons.prems(3,4) by (simp_all add: max_def)
  from Cons.IH [OF _ Cons.prems(2) le] Cons.prems(1) obtain x y where
    xy: "agg_nodes width bucket nodes (max avg t, max peak t') = OK (x, y)" "x * scale < 2 ^ 64" "y * scale < 2 ^ 64"
      "max avg t \<le> x" "max peak t' \<le> y"
      "\<forall>node \<in> set nodes. 0 < width \<longrightarrow> (0 < qn_sum_avg node bucket \<longrightarrow> 0 < x) \<and> (0 < qn_max_peak node bucket \<longrightarrow> 0 < y)"
    by auto
  then show ?case
    using t u bt by (auto intro: less_le_trans)
qed simp

lemma agg_bucket_OK:
  assumes "\<forall>node \<in> set nodes. node_fits (bcm_width bcm) (bcm_vote_scale bcm) bucket node" "0 < bcm_vote_scale bcm" "0 < bcm_unit bcm"
  shows "\<exists>x y. agg_bucket nodes bcm bucket = OK (x, y) \<and>
    (\<forall>node \<in> set nodes. 0 < bcm_width bcm \<longrightarrow> (0 < qn_sum_avg node bucket \<longrightarrow> 0 < x) \<and> (0 < qn_max_peak node bucket \<longrightarrow> 0 < y))"
proof -
  obtain a p where ap: "agg_nodes (bcm_width bcm) bucket nodes (0, 0) = OK (a, p)"
      "a * bcm_vote_scale bcm < 2 ^ 64" "p * bcm_vote_scale bcm < 2 ^ 64"
      "\<forall>node \<in> set nodes. 0 < bcm_width bcm \<longrightarrow> (0 < qn_sum_avg node bucket \<longrightarrow> 0 < a) \<and> (0 < qn_max_peak node bucket \<longrightarrow> 0 < p)"
    using agg_nodes_OK [OF assms(1,2), of 0 0] by auto
  obtain x y where xy: "bcm_div (a * bcm_vote_scale bcm) (bcm_unit bcm) = OK x" "bcm_div (p * bcm_vote_scale bcm) (bcm_unit bcm) = OK y"
    using assms(3) by (simp add: bcm_div_OK)
  have "0 < a \<Longrightarrow> 0 < x" "0 < p \<Longrightarrow> 0 < y"
    using bcm_div_bounds(2) [OF assms(3) xy(1)] bcm_div_bounds(2) [OF assms(3) xy(2)] assms(2) by simp_all
  with ap xy show ?thesis
    by (auto simp: agg_bucket_def u64_def)
qed

lemma agg_bucket_votes [simp]: "agg_bucket nodes (bcm\<lparr>bcm_vote_x := x, bcm_vote_y := y\<rparr>) b = agg_bucket nodes bcm b"
  by (simp add: agg_bucket_def)

lemma agg_buckets_OK:
  assumes "\<forall>b \<in> set bs. \<exists>x y. agg_bucket nodes bcm b = OK (x, y)" "distinct bs"
  shows "\<exists>vx vy. agg_buckets nodes bs bcm = OK (bcm\<lparr>bcm_vote_x := vx, bcm_vote_y := vy\<rparr>) \<and>
    (\<forall>b \<in> set bs. agg_bucket nodes bcm b = OK (vx b, vy b)) \<and>
    (\<forall>b. b \<notin> set bs \<longrightarrow> vx b = bcm_vote_x bcm b \<and> vy b = bcm_vote_y bcm b)"
  using assms
proof (induction bs arbitrary: bcm)
  case Nil
  show ?case by (intro exI [where x = "bcm_vote_x bcm"] exI [where x = "bcm_vote_y bcm"]) simp
next
  case (Cons b bs)
  obtain x y where xy: "agg_bucket nodes bcm b = OK (x, y)" using Cons.prems by auto
  let ?bcm = "bcm\<lparr>bcm_vote_x := (bcm_vote_x bcm)(b := x), bcm_vote_y := (bcm_vote_y bcm)(b := y)\<rparr>"
  obtain vx vy where v: "agg_buckets nodes bs ?bcm = OK (?bcm\<lparr>bcm_vote_x := vx, bcm_vote_y := vy\<rparr>)"
      "\<forall>c \<in> set bs. agg_bucket nodes ?bcm c = OK (vx c, vy c)"
      "\<forall>c. c \<notin> set bs \<longrightarrow> vx c = bcm_vote_x ?bcm c \<and> vy c = bcm_vote_y ?bcm c"
    using Cons.IH [of ?bcm] Cons.prems by auto
  show ?case
    using v xy Cons.prems(2) by (intro exI [where x = vx] exI [where x = vy]) auto
qed

lemma bcm_aggregate_demand:
  assumes fits: "\<forall>bucket < NUM_BUCKETS h. \<forall>node \<in> set nodes. node_fits (bcm_width bcm) (bcm_vote_scale bcm) bucket node"
    and pos: "0 < bcm_vote_scale bcm" "0 < bcm_unit bcm" "0 < bcm_width bcm"
  shows "\<exists>bcm'. bcm_aggregate h nodes bcm = OK bcm' \<and>
    (\<forall>bucket < NUM_BUCKETS h. \<forall>node \<in> set nodes.
       (0 < qn_sum_avg node bucket \<longrightarrow> 0 < bcm_vote_x bcm' bucket) \<and> (0 < qn_max_peak node bucket \<longrightarrow> 0 < bcm_vote_y bcm' bucket))"
proof -
  have ok: "\<exists>x y. agg_bucket nodes bcm b = OK (x, y) \<and>
      (\<forall>node \<in> set nodes. (0 < qn_sum_avg node b \<longrightarrow> 0 < x) \<and> (0 < qn_max_peak node b \<longrightarrow> 0 < y))" if "b < NUM_BUCKETS h" for b
    using agg_bucket_OK [of nodes bcm b] fits pos that by auto
  then have "\<forall>b \<in> set [0..<NUM_BUCKETS h]. \<exists>x y. agg_bucket nodes bcm b = OK (x, y)"
    by (auto, blast)
  then obtain vx vy where v: "agg_buckets nodes [0..<NUM_BUCKETS h] bcm = OK (bcm\<lparr>bcm_vote_x := vx, bcm_vote_y := vy\<rparr>)"
      "\<forall>b < NUM_BUCKETS h. agg_bucket nodes bcm b = OK (vx b, vy b)"
    using agg_buckets_OK [of "[0..<NUM_BUCKETS h]" nodes bcm] by auto
  have d: "(0 < qn_sum_avg node b \<longrightarrow> 0 < vx b) \<and> (0 < qn_max_peak node b \<longrightarrow> 0 < vy b)"
    if "b < NUM_BUCKETS h" "node \<in> set nodes" for b node
    using ok [OF that(1)] v(2) that by fastforce
  show ?thesis
    using v(1) d by (auto simp: bcm_aggregate_def)
qed

end
