(* ===== verification/Icc_Rpmh.thy ===== *)
theory Icc_Rpmh
  imports Bcm_Voter Cmd_Db
begin

text \<open>
  The interconnect provider (\<^verbatim>\<open>drivers/interconnect/qcom/icc-rpmh.c\<close>): it collects the bandwidth
  requests of the framework in its nodes, queues the BCMs of a node at their voters and commits the
  voters. The clock framework and the QoS registers are arguments or results of the operations.
\<close>

subsection \<open>Data\<close>

text \<open>
  A provider names its voters (none for a voter that is disabled), BCMs and nodes. The fields of a
  node of the framework that the provider uses have 32 bits.
\<close>

record qcom_icc_provider =
  qp_voters :: "nat option list"
  qp_bcms :: "nat list"
  qp_nodes :: "nat option list"

record icc_node =
  nd_avg_bw :: nat
  nd_peak_bw :: nat
  nd_init_avg :: nat
  nd_init_peak :: nat

definition MAX_BCM_PER_NODE :: nat where "MAX_BCM_PER_NODE = 3"
definition U32_MAX :: nat where "U32_MAX = 2 ^ 32 - 1"
definition INT_MAX :: nat where "INT_MAX = 2 ^ 31 - 1"

definition voter_of :: "qcom_icc_provider \<Rightarrow> qcom_icc_bcm \<Rightarrow> nat option result" where
  "voter_of qp bcm = (if bcm_voter_idx bcm < length (qp_voters qp) then OK (qp_voters qp ! bcm_voter_idx bcm) else UB)"

subsection \<open>Aggregation of requests\<close>

fun add_bcms :: "qcom_icc_provider \<Rightarrow> nat list \<Rightarrow> icc \<Rightarrow> icc result" where
  "add_bcms qp [] s = OK s"
| "add_bcms qp (b # bs) s =
     rbind (voter_of qp (icc_bcms s b)) (\<lambda>v. add_bcms qp bs (qcom_icc_bcm_voter_add v b s))"

definition qcom_icc_pre_aggregate :: "icc_h \<Rightarrow> qcom_icc_provider \<Rightarrow> nat \<Rightarrow> icc \<Rightarrow> icc result" where
  "qcom_icc_pre_aggregate h qp n s =
     (let qn = icc_nodes s n;
          clear = qn\<lparr>qn_sum_avg := (\<lambda>i. if i < NUM_BUCKETS h then 0 else qn_sum_avg qn i),
                     qn_max_peak := (\<lambda>i. if i < NUM_BUCKETS h then 0 else qn_max_peak qn i),
                     qn_perf_mode := (\<lambda>i. if i < NUM_BUCKETS h then False else qn_perf_mode qn i)\<rparr>
      in add_bcms qp (qn_bcms qn) (s\<lparr>icc_nodes := (icc_nodes s)(n := clear)\<rparr>))"

definition agg_tag :: "icc_h \<Rightarrow> u32w \<Rightarrow> u32w" where
  "agg_tag h tag = (if tag = 0 then TAG_ALWAYS h else tag)"

text \<open>One bucket of a node: the sum, the peak (compared as 32 bits) and the mode.\<close>

definition agg_request ::
  "icc_h \<Rightarrow> icc_node \<Rightarrow> u32w \<Rightarrow> nat \<Rightarrow> nat \<Rightarrow> nat \<Rightarrow> nat \<times> nat \<times> bool \<Rightarrow> nat \<times> nat \<times> bool" where
  "agg_request h nd tag avg_bw peak_bw i = (\<lambda>(sum, peak, perf).
     let (sum1, peak1, perf1) =
           (if bit tag i then
              (u64 (sum + avg_bw), max (u32 peak) peak_bw,
               perf \<or> (tag AND TAG_PERF_MODE h \<noteq> 0 \<and> (avg_bw \<noteq> 0 \<or> peak_bw \<noteq> 0)))
            else (sum, peak, perf))
     in if nd_init_avg nd \<noteq> 0 \<or> nd_init_peak nd \<noteq> 0
        then (max sum1 (nd_init_avg nd), max peak1 (nd_init_peak nd), perf1)
        else (sum1, peak1, perf1))"

definition qcom_icc_aggregate ::
  "icc_h \<Rightarrow> icc_node \<Rightarrow> u32w \<Rightarrow> nat \<Rightarrow> nat \<Rightarrow> nat \<times> nat \<Rightarrow> qcom_icc_node \<Rightarrow> qcom_icc_node \<times> nat \<times> nat" where
  "qcom_icc_aggregate h nd tag0 avg_bw peak_bw agg qn =
     (let tag = agg_tag h tag0;
          new = (\<lambda>i. if i < NUM_BUCKETS h
                     then agg_request h nd tag avg_bw peak_bw i (qn_sum_avg qn i, qn_max_peak qn i, qn_perf_mode qn i)
                     else (qn_sum_avg qn i, qn_max_peak qn i, qn_perf_mode qn i))
      in (qn\<lparr>qn_sum_avg := (\<lambda>i. fst (new i)), qn_max_peak := (\<lambda>i. fst (snd (new i))), qn_perf_mode := (\<lambda>i. snd (snd (new i)))\<rparr>,
          u32 (fst agg + avg_bw), max (snd agg) peak_bw))"

definition qcom_icc_get_bw :: "qcom_icc_node \<Rightarrow> nat \<times> nat" where
  "qcom_icc_get_bw qn = (qn_init_avg qn, qn_init_peak qn)"

subsection \<open>Setting the constraints\<close>

definition scale_bw :: "qcom_icc_node \<Rightarrow> icc_node \<Rightarrow> icc_node" where
  "scale_bw qn nd =
     (if qn_bw_scale_numerator qn \<noteq> 0 \<and> qn_bw_scale_denominator qn \<noteq> 0 then
        nd\<lparr>nd_avg_bw := u32 (nd_avg_bw nd * qn_bw_scale_numerator qn) div qn_bw_scale_denominator qn,
           nd_peak_bw := u32 (nd_peak_bw nd * qn_bw_scale_numerator qn) div qn_bw_scale_denominator qn\<rparr>
      else nd)"

text \<open>\<open>enable\<close> is the answer of the clock framework; the rate asked for is the second result.\<close>

definition set_clk :: "unit result \<Rightarrow> icc_node \<Rightarrow> qcom_icc_node \<Rightarrow> unit result \<times> nat option \<times> qcom_icc_node" where
  "set_clk enable nd qn =
     (if \<not> qn_clk qn then (OK (), None, qn)
      else if qn_buswidth qn = 0 then (UB, None, qn)
      else
        let clk_rate = min (u64 (max (nd_avg_bw nd) (nd_peak_bw nd) * 1000) div qn_buswidth qn) U32_MAX in
        if clk_rate > 0 then
          if qn_toggle_clk qn \<and> \<not> qn_clk_enabled qn then
            (case enable of
               OK _ \<Rightarrow> (OK (), Some clk_rate, qn\<lparr>qn_clk_enabled := True\<rparr>)
             | r \<Rightarrow> (r, Some clk_rate, qn))
          else (OK (), Some clk_rate, qn)
        else if qn_toggle_clk qn \<and> qn_clk_enabled qn then (OK (), None, qn\<lparr>qn_clk_enabled := False\<rparr>)
        else (OK (), None, qn))"

fun commit_voters ::
  "icc_h \<Rightarrow> rpmh_env \<Rightarrow> nat \<Rightarrow> crm_write \<Rightarrow> nat option list \<Rightarrow> icc \<Rightarrow> (unit result \<times> icc) outcome" where
  "commit_voters h env compl write [] s = Returns (OK (), s)"
| "commit_voters h env compl write (v # vs) s =
     obind (qcom_icc_bcm_voter_commit h env compl write v s) (\<lambda>(r, s').
       if r = UB then Returns (UB, s') else commit_voters h env compl write vs s')"

text \<open>\<open>n\<close> is the number of the node's data; the result has the node of the framework too.\<close>

definition qcom_icc_set ::
  "icc_h \<Rightarrow> rpmh_env \<Rightarrow> nat \<Rightarrow> crm_write \<Rightarrow> unit result \<Rightarrow> qcom_icc_provider \<Rightarrow> nat \<Rightarrow> icc_node \<Rightarrow> icc \<Rightarrow>
   (unit result \<times> icc_node \<times> nat option \<times> icc) outcome" where
  "qcom_icc_set h env compl write enable qp n nd s =
     (let nd1 = scale_bw (icc_nodes s n) nd in
      case set_clk enable nd1 (icc_nodes s n) of
        (r, rate, qn) \<Rightarrow>
          let s1 = s\<lparr>icc_nodes := (icc_nodes s)(n := qn)\<rparr> in
          case r of
            OK _ \<Rightarrow> obind (commit_voters h env compl write (qp_voters qp) s1) (\<lambda>(r', s'). Returns (r', nd1, rate, s'))
          | _ \<Rightarrow> Returns (r, nd1, rate, s1))"

subsection \<open>Initialisation of a BCM\<close>

fun link_nodes :: "nat \<Rightarrow> nat list \<Rightarrow> (nat \<Rightarrow> qcom_icc_node) \<Rightarrow> (nat \<Rightarrow> qcom_icc_node) result" where
  "link_nodes b [] nodes = OK nodes"
| "link_nodes b (n # ns) nodes =
     (if length (qn_bcms (nodes n)) \<ge> MAX_BCM_PER_NODE then UB
      else link_nodes b ns (nodes(n := (nodes n)\<lparr>qn_bcms := qn_bcms (nodes n) @ [b]\<rparr>)))"

definition read_bcm_db :: "bytes \<Rightarrow> nat \<Rightarrow> (nat \<times> nat \<times> nat) result" where
  "read_bcm_db db p =
     rbind (of_opt (num db p 4)) (\<lambda>unit.
     rbind (of_opt (num db (p + 4) 2)) (\<lambda>width.
     rbind (of_opt (num db (p + 6) 1)) (\<lambda>vcd. OK (max 1 unit, max 1 width, vcd))))"

definition keepalive_vote :: "qcom_icc_provider \<Rightarrow> nat \<Rightarrow> icc \<Rightarrow> icc result" where
  "keepalive_vote qp b s =
     (case bcm_nodes (icc_bcms s b) of
        [] \<Rightarrow> UB
      | n # _ \<Rightarrow>
          let s1 = s\<lparr>icc_nodes := (icc_nodes s)(n := (icc_nodes s n)\<lparr>qn_init_avg := INT_MAX, qn_init_peak := INT_MAX\<rparr>)\<rparr> in
          rbind (voter_of qp (icc_bcms s b)) (\<lambda>v. OK (qcom_icc_bcm_voter_add v b s1)))"

text \<open>The part after the aux data of the BCM is known.\<close>

definition bcm_setup :: "qcom_icc_provider \<Rightarrow> nat \<Rightarrow> nat \<times> nat \<times> nat \<Rightarrow> icc \<Rightarrow> icc result" where
  "bcm_setup qp b = (\<lambda>(unit, width, vcd) s.
     let bcm = (icc_bcms s b)\<lparr>bcm_unit := unit, bcm_width := width, bcm_vcd := vcd, bcm_lists_init := True\<rparr>;
         bcm1 = (if bcm_vote_scale bcm = 0 then bcm\<lparr>bcm_vote_scale := 1000\<rparr> else bcm)
     in rbind (link_nodes b (bcm_nodes bcm1) (icc_nodes s)) (\<lambda>nodes.
        let s1 = s\<lparr>icc_bcms := (icc_bcms s)(b := bcm1), icc_nodes := nodes\<rparr> in
        if bcm_keepalive bcm1 then keepalive_vote qp b s1 else OK s1))"

definition qcom_icc_bcm_init :: "bytes option \<Rightarrow> qcom_icc_provider \<Rightarrow> nat \<Rightarrow> icc \<Rightarrow> unit result \<times> icc" where
  "qcom_icc_bcm_init db qp b s =
     (let bcm = icc_bcms s b in
      if bcm_disabled bcm \<or> bcm_addr bcm \<noteq> 0 then (OK (), s)
      else
        case cmd_db_read_addr db (bcm_name bcm) of
          UB \<Rightarrow> (UB, s)
        | Err e \<Rightarrow> (Err e, s)
        | OK addr \<Rightarrow>
            let s1 = s\<lparr>icc_bcms := (icc_bcms s)(b := bcm\<lparr>bcm_addr := of_nat addr\<rparr>)\<rparr> in
            if of_nat addr = (0 :: u32w) then (Err EINVAL, s1)
            else
              case cmd_db_read_aux_data db (bcm_name bcm) of
                UB \<Rightarrow> (UB, s1)
              | Err e \<Rightarrow> (Err e, s1)
              | OK (p, data_count) \<Rightarrow>
                  if data_count = 0 then (Err EINVAL, s1)
                  else
                    case rbind (read_bcm_db (the db) p) (\<lambda>aux. bcm_setup qp b aux s1) of
                      OK s2 \<Rightarrow> (OK (), s2)
                    | Err e \<Rightarrow> (Err e, s1)
                    | UB \<Rightarrow> (UB, s1))"

subsection \<open>Quality of service\<close>

definition bcm_needs_qos_proxy :: "icc \<Rightarrow> qcom_icc_bcm \<Rightarrow> bool" where
  "bcm_needs_qos_proxy s bcm =
     (bcm_qos_proxy bcm \<or> bcm_voter_idx bcm = 0 \<and> list_ex (\<lambda>n. qn_qosbox (icc_nodes s n)) (bcm_nodes bcm))"

definition set_keepalive :: "nat \<Rightarrow> bool \<Rightarrow> icc \<Rightarrow> icc" where
  "set_keepalive b k s = s\<lparr>icc_bcms := (icc_bcms s)(b := (icc_bcms s b)\<lparr>bcm_keepalive := k\<rparr>)\<rparr>"

text \<open>Adding a BCM to its voter and committing the voter.\<close>

definition add_commit :: "icc_h \<Rightarrow> rpmh_env \<Rightarrow> nat \<Rightarrow> crm_write \<Rightarrow> qcom_icc_provider \<Rightarrow> nat \<Rightarrow> icc \<Rightarrow> (unit result \<times> icc) outcome" where
  "add_commit h env compl write qp b s =
     (case voter_of qp (icc_bcms s b) of
        OK v \<Rightarrow> qcom_icc_bcm_voter_commit h env compl write v (qcom_icc_bcm_voter_add v b s)
      | _ \<Rightarrow> Returns (UB, s))"

fun enable_qos_bcms ::
  "icc_h \<Rightarrow> rpmh_env \<Rightarrow> nat \<Rightarrow> crm_write \<Rightarrow> qcom_icc_provider \<Rightarrow> nat list \<Rightarrow> icc \<Rightarrow> (unit result \<times> icc) outcome" where
  "enable_qos_bcms h env compl write qp [] s = Returns (OK (), s)"
| "enable_qos_bcms h env compl write qp (b # bs) s =
     (if bcm_needs_qos_proxy s (icc_bcms s b) then
        obind (add_commit h env compl write qp b (set_keepalive b True s)) (\<lambda>(r, s').
          let s1 = set_keepalive b (bcm_keepalive (icc_bcms s b)) s' in
          case r of OK _ \<Rightarrow> enable_qos_bcms h env compl write qp bs s1 | _ \<Rightarrow> Returns (r, s1))
      else enable_qos_bcms h env compl write qp bs s)"

definition enable_qos_deps ::
  "icc_h \<Rightarrow> rpmh_env \<Rightarrow> nat \<Rightarrow> crm_write \<Rightarrow> unit result \<Rightarrow> qcom_icc_provider \<Rightarrow> icc \<Rightarrow> (unit result \<times> icc) outcome" where
  "enable_qos_deps h env compl write clks qp s =
     obind (enable_qos_bcms h env compl write qp (qp_bcms qp) s) (\<lambda>(r, s').
       case r of OK _ \<Rightarrow> Returns (clks, s') | _ \<Rightarrow> Returns (r, s'))"

fun disable_qos_bcms ::
  "icc_h \<Rightarrow> rpmh_env \<Rightarrow> nat \<Rightarrow> crm_write \<Rightarrow> qcom_icc_provider \<Rightarrow> nat list \<Rightarrow> icc \<Rightarrow> (unit result \<times> icc) outcome" where
  "disable_qos_bcms h env compl write qp [] s = Returns (OK (), s)"
| "disable_qos_bcms h env compl write qp (b # bs) s =
     (if bcm_needs_qos_proxy s (icc_bcms s b) then
        obind (add_commit h env compl write qp b s) (\<lambda>(r, s').
          if r = UB then Returns (UB, s') else disable_qos_bcms h env compl write qp bs s')
      else disable_qos_bcms h env compl write qp bs s)"

text \<open>The second result are the nodes whose QoS registers are written, in order.\<close>

definition qcom_icc_rpmh_configure_qos ::
  "icc_h \<Rightarrow> rpmh_env \<Rightarrow> nat \<Rightarrow> crm_write \<Rightarrow> unit result \<Rightarrow> qcom_icc_provider \<Rightarrow> icc \<Rightarrow> (unit result \<times> nat list \<times> icc) outcome" where
  "qcom_icc_rpmh_configure_qos h env compl write clks qp s =
     obind (enable_qos_deps h env compl write clks qp s) (\<lambda>(r, s1).
       case r of
         OK _ \<Rightarrow>
           obind (disable_qos_bcms h env compl write qp (qp_bcms qp) s1) (\<lambda>(r', s2).
             Returns (r', filter (\<lambda>n. qn_qosbox (icc_nodes s1 n)) (List.map_filter (\<lambda>n. n) (qp_nodes qp)), s2))
       | _ \<Rightarrow> Returns (r, [], s1))"

end
