(* ===== verification/Icc_Inv.thy ===== *)
theory Icc_Inv
  imports Icc_Rpmh
begin

text \<open>
  The invariant of the interconnect: a BCM is queued at most once and at one voter, and only after its
  data was read from the command database. Every operation of the voters and the provider keeps it.
\<close>

subsection \<open>The queues of the voters\<close>

lemma distinct_concat_update:
  assumes "i < length xs" "distinct (concat xs)" "distinct ys" "set ys \<subseteq> set (xs ! i) \<union> B" "B \<inter> set (concat xs) = {}"
  shows "distinct (concat (xs[i := ys]))"
proof -
  have xs: "xs = take i xs @ xs ! i # drop (Suc i) xs"
    using assms(1) by (rule id_take_nth_drop)
  have c: "concat xs = concat (take i xs) @ xs ! i @ concat (drop (Suc i) xs)"
    by (subst xs) simp
  show ?thesis
    using assms(2-5) unfolding upd_conv_take_nth_drop [OF assms(1)] c
    by (simp del: set_concat) blast
qed

definition bcm_ready :: "qcom_icc_bcm \<Rightarrow> bool" where
  "bcm_ready bcm \<longleftrightarrow> (bcm_lists_init bcm \<longrightarrow>
     bcm_addr bcm \<noteq> 0 \<and> 0 < bcm_unit bcm \<and> 0 < bcm_width bcm \<and> 0 < bcm_vote_scale bcm)"

definition icc_ok :: "icc \<Rightarrow> bool" where
  "icc_ok s \<longleftrightarrow>
     distinct (concat (map bv_commit_list (icc_voters s))) \<and> distinct (concat (map bv_ws_list (icc_voters s))) \<and>
     (\<forall>v \<in> set (icc_voters s). \<forall>b \<in> set (bv_commit_list v) \<union> set (bv_ws_list v). bcm_lists_init (icc_bcms s b)) \<and>
     (\<forall>b. bcm_ready (icc_bcms s b))"

lemma icc_okI:
  assumes "icc_ok s" "v < length (icc_voters s)"
    "distinct (bv_commit_list vt)" "set (bv_commit_list vt) \<subseteq> set (bv_commit_list (icc_voters s ! v)) \<union> B"
    "distinct (bv_ws_list vt)" "set (bv_ws_list vt) \<subseteq> set (bv_ws_list (icc_voters s ! v)) \<union> C"
    "B \<inter> set (concat (map bv_commit_list (icc_voters s))) = {}" "C \<inter> set (concat (map bv_ws_list (icc_voters s))) = {}"
    "\<forall>b \<in> B \<union> C. bcm_lists_init (icc_bcms s b)"
  shows "icc_ok (set_voter s v vt)"
proof -
  have "distinct (concat (map bv_commit_list ((icc_voters s)[v := vt])))" "distinct (concat (map bv_ws_list ((icc_voters s)[v := vt])))"
    using assms distinct_concat_update [of v "map bv_commit_list (icc_voters s)" "bv_commit_list vt" B]
      distinct_concat_update [of v "map bv_ws_list (icc_voters s)" "bv_ws_list vt" C]
    by (simp_all add: icc_ok_def map_update)
  moreover have "\<forall>w \<in> set ((icc_voters s)[v := vt]). \<forall>b \<in> set (bv_commit_list w) \<union> set (bv_ws_list w). bcm_lists_init (icc_bcms s b)"
  proof
    fix w assume "w \<in> set ((icc_voters s)[v := vt])"
    then consider "w \<in> set (icc_voters s)" | "w = vt" by (meson insert_iff set_update_subset_insert subsetD)
    then show "\<forall>b \<in> set (bv_commit_list w) \<union> set (bv_ws_list w). bcm_lists_init (icc_bcms s b)"
    proof cases
      case 2
      moreover have "icc_voters s ! v \<in> set (icc_voters s)" using assms(2) by simp
      ultimately show ?thesis using assms(1,4,6,9) unfolding icc_ok_def by blast
    qed (use assms(1) in \<open>simp add: icc_ok_def\<close>)
  qed
  ultimately show ?thesis
    using assms(1) by (simp add: icc_ok_def set_voter_def)
qed

lemma icc_ok_distinct:
  assumes "icc_ok s" "v < length (icc_voters s)"
  shows "distinct (bv_commit_list (icc_voters s ! v))" "distinct (bv_ws_list (icc_voters s ! v))"
proof -
  have d: "distinct (xs ! v)" if "distinct (concat xs)" "v < length xs" for xs :: "nat list list"
    using that by (metis distinct_append concat.simps(2) concat_append id_take_nth_drop)
  show "distinct (bv_commit_list (icc_voters s ! v))" "distinct (bv_ws_list (icc_voters s ! v))"
    using d [of "map bv_commit_list (icc_voters s)"] d [of "map bv_ws_list (icc_voters s)"] assms by (simp_all add: icc_ok_def)
qed

lemma exist_length: "qcom_icc_bcm_voter_exist s (Some v) \<Longrightarrow> v < length (icc_voters s)"
  by (simp add: qcom_icc_bcm_voter_exist_def)

lemma voter_add_ok: "icc_ok s \<Longrightarrow> icc_ok (qcom_icc_bcm_voter_add voter b s)"
proof (cases voter)
  case (Some v)
  assume ok: "icc_ok s"
  show ?thesis
  proof (cases "qcom_icc_bcm_voter_exist s voter")
    case True
    then have v: "v < length (icc_voters s)" using Some by (simp add: exist_length)
    note d = icc_ok_distinct [OF ok v]
    let ?B = "if bcm_lists_init (icc_bcms s b) \<and> \<not> on_commit_list s b then {b} else {}"
    let ?C = "if bcm_lists_init (icc_bcms s b) \<and> \<not> on_ws_list s b then {b} else {}"
    have m: "icc_voters s ! v \<in> set (icc_voters s)" using v by simp
    obtain vt where eq: "qcom_icc_bcm_voter_add voter b s = set_voter s v vt"
        and c: "bv_commit_list vt = bv_commit_list (icc_voters s ! v) @ (if ?B = {} then [] else [b])"
        and w: "bv_ws_list vt = bv_ws_list (icc_voters s ! v) @ (if ?C = {} then [] else [b])"
      using True Some by (fastforce simp: qcom_icc_bcm_voter_add_def Let_def)
    show ?thesis
      unfolding eq by (rule icc_okI [OF ok v, where B = ?B and C = ?C])
        (use d m in \<open>auto simp: c w on_commit_list_def on_ws_list_def list_ex_iff\<close>)
  qed (simp add: qcom_icc_bcm_voter_add_def Some ok)
qed (simp add: qcom_icc_bcm_voter_add_def)

text \<open>The invariant looks at the voters, the list nodes and the aux data only.\<close>

definition same_bcm :: "qcom_icc_bcm \<Rightarrow> qcom_icc_bcm \<Rightarrow> bool" where
  "same_bcm b b' \<longleftrightarrow> bcm_lists_init b' = bcm_lists_init b \<and> bcm_ready b' = bcm_ready b"

lemma same_bcm_simps [simp]:
  "same_bcm b b" "same_bcm b (b\<lparr>bcm_vote_x := x\<rparr>) = True" "same_bcm b (b\<lparr>bcm_vote_x := x, bcm_vote_y := y\<rparr>)"
  "same_bcm b (b\<lparr>bcm_keepalive := k\<rparr>)"
  by (simp_all add: same_bcm_def bcm_ready_def)

lemma same_bcm_trans: "same_bcm a b \<Longrightarrow> same_bcm b c \<Longrightarrow> same_bcm a c"
  by (simp add: same_bcm_def)

lemma icc_ok_frame:
  assumes "icc_ok s" "icc_voters s' = icc_voters s" "\<forall>b. same_bcm (icc_bcms s b) (icc_bcms s' b)"
  shows "icc_ok s'"
  using assms by (simp add: icc_ok_def same_bcm_def)

lemma agg_buckets_same: "agg_buckets nodes bs bcm = OK bcm' \<Longrightarrow> same_bcm bcm bcm'"
proof (induction bs arbitrary: bcm)
  case (Cons b bs)
  then obtain x y where
    "agg_buckets nodes bs (bcm\<lparr>bcm_vote_x := (bcm_vote_x bcm)(b := x), bcm_vote_y := (bcm_vote_y bcm)(b := y)\<rparr>) = OK bcm'"
    by (cases "agg_bucket nodes bcm b") auto
  from Cons.IH [OF this] show ?case
    by (rule same_bcm_trans [rotated]) simp
qed simp

lemma aggregate_one_same:
  assumes "aggregate_one h s b = OK bcm" shows "same_bcm (icc_bcms s b) bcm"
proof (cases "bcm_type (icc_bcms s b) = QCOM_ICC_BCM_TYPE_MASK \<or> bcm_enable_mask (icc_bcms s b) \<noteq> 0")
  case True
  with assms have "bcm = bcm_aggregate_mask h (map (icc_nodes s) (bcm_nodes (icc_bcms s b))) (icc_bcms s b)"
    by (simp add: aggregate_one_def Let_def)
  then show ?thesis by (simp add: bcm_aggregate_mask_def Let_def)
next
  case False
  with assms obtain b1 where "agg_buckets (map (icc_nodes s) (bcm_nodes (icc_bcms s b))) [0..<NUM_BUCKETS h] (icc_bcms s b) = OK b1"
      and r: "bcm = b1 \<or> (\<exists>x y. bcm = b1\<lparr>bcm_vote_x := x, bcm_vote_y := y\<rparr>)"
    by (cases "agg_buckets (map (icc_nodes s) (bcm_nodes (icc_bcms s b))) [0..<NUM_BUCKETS h] (icc_bcms s b)")
      (auto simp: aggregate_one_def bcm_aggregate_def Let_def split: if_splits)
  from agg_buckets_same [OF this(1)] have "same_bcm (icc_bcms s b) b1" .
  with r show ?thesis by (auto intro: same_bcm_trans)
qed

lemma aggregate_list_ok:
  "aggregate_list h bs s = OK s' \<Longrightarrow> icc_ok s \<Longrightarrow> icc_ok s' \<and> icc_voters s' = icc_voters s"
proof (induction bs arbitrary: s)
  case (Cons b bs)
  then obtain bcm where b: "aggregate_one h s b = OK bcm" and r: "aggregate_list h bs (s\<lparr>icc_bcms := (icc_bcms s)(b := bcm)\<rparr>) = OK s'"
    by (cases "aggregate_one h s b") auto
  have "icc_ok (s\<lparr>icc_bcms := (icc_bcms s)(b := bcm)\<rparr>)"
    by (rule icc_ok_frame [OF Cons.prems(2)]) (simp_all add: aggregate_one_same [OF b])
  from Cons.IH [OF r this] show ?case by simp
qed simp

text \<open>A commit only takes BCMs from the wake and sleep list of its voter.\<close>

definition shrinks :: "bcm_voter \<Rightarrow> bcm_voter \<Rightarrow> bool" where
  "shrinks vt vt' \<longleftrightarrow> set (bv_ws_list vt') \<subseteq> set (bv_ws_list vt) \<and> (distinct (bv_ws_list vt) \<longrightarrow> distinct (bv_ws_list vt'))"

lemma shrinks_simps [simp]: "shrinks vt vt" "shrinks vt (vt'\<lparr>bv_commit_list := l\<rparr>) = shrinks vt vt'" "shrinks vt (vt'\<lparr>bv_rsc := d\<rparr>) = shrinks vt vt'"
  "shrinks vt (vt'\<lparr>bv_crm_log := c\<rparr>) = shrinks vt vt'" "shrinks (vt\<lparr>bv_commit_list := l\<rparr>) vt' = shrinks vt vt'" "shrinks (vt\<lparr>bv_rsc := d\<rparr>) vt' = shrinks vt vt'"
  by (simp_all add: shrinks_def)

lemma send_bucket_ws: "send_bucket h env compl st bucket bcms vt = Returns (r, vt') \<Longrightarrow> bv_ws_list vt' = bv_ws_list vt"
  by (auto simp: send_bucket_def split: result.splits prod.splits if_splits)

lemma commit_wake_sleep_shrinks:
  assumes "commit_wake_sleep h env compl s ret vt = Returns (r, vt')" shows "shrinks vt vt'"
proof -
  let ?d = "filter (\<lambda>b. ws_differ h (bv_has_amc vt) (icc_bcms s b)) (bv_ws_list vt)"
  have "bv_ws_list vt' = ?d"
  proof (cases "?d = []")
    case True
    with assms show ?thesis by (auto simp: commit_wake_sleep_def Let_def)
  next
    case False
    let ?vt = "vt\<lparr>bv_rsc := rpmh_invalidate env (bv_rsc vt), bv_ws_list := ?d, bv_commit_list := sort_vcd s ?d\<rparr>"
    from False assms obtain q v where qv: "send_bucket h env compl RPMH_WAKE_ONLY_STATE (BUCKET_WAKE h) (icc_bcms s) ?vt = Returns (q, v)"
        "(case q of OK _ \<Rightarrow> send_bucket h env compl RPMH_SLEEP_STATE (BUCKET_SLEEP h) (icc_bcms s) v | _ \<Rightarrow> Returns (q, v)) = Returns (r, vt')"
      by (auto simp: commit_wake_sleep_def Let_def)
    from qv(2) send_bucket_ws [OF qv(1)] show ?thesis
      by (cases q) (auto dest: send_bucket_ws)
  qed
  then show ?thesis by (auto simp: shrinks_def)
qed

lemma commit_rpmh_shrinks:
  assumes r: "commit_rpmh h env compl s vt = Returns (r, vt')" shows "shrinks vt vt'"
proof (cases "bv_has_amc vt")
  case amc: True
  let ?vt = "vt\<lparr>bv_commit_list := sort_vcd s (bv_commit_list vt)\<rparr>"
  show ?thesis
  proof (cases "tcs_list_gen h (env_max_payload env) (bv_tcs_wait vt) (BUCKET_AMC h) (map (icc_bcms s) (sort_vcd s (bv_commit_list vt)))")
    case (OK cn)
    obtain cmds n where cn: "cn = (cmds, n)" by fastforce
    show ?thesis
    proof (cases "hd n = 0 \<or> qcom_icc_bcm_log n = UB")
      case False
      with r amc OK cn obtain q d where "(case q of UB \<Rightarrow> Returns (UB, ?vt\<lparr>bv_rsc := d\<rparr>)
          | Err e \<Rightarrow> if e \<noteq> EBUSY then Returns (Err e, ?vt\<lparr>bv_rsc := d\<rparr>) else commit_wake_sleep h env compl s q (?vt\<lparr>bv_rsc := d\<rparr>)
          | OK _ \<Rightarrow> commit_wake_sleep h env compl s q (?vt\<lparr>bv_rsc := d\<rparr>)) = Returns (r, vt')"
        by (auto simp: commit_rpmh_def Let_def)
      then show ?thesis
        by (cases q) (auto split: if_splits dest!: commit_wake_sleep_shrinks)
    qed (use r amc OK cn in \<open>auto simp: commit_rpmh_def Let_def split: if_splits\<close>)
  qed (use r amc in \<open>auto simp: commit_rpmh_def Let_def\<close>)
qed (use r in \<open>auto simp: commit_rpmh_def dest: commit_wake_sleep_shrinks\<close>)

lemma set_voter_commit_ok:
  assumes "icc_ok s" "v < length (icc_voters s)" "shrinks (icc_voters s ! v) vt"
  shows "icc_ok (set_voter s v (vt\<lparr>bv_commit_list := []\<rparr>))"
  using assms icc_ok_distinct [OF assms(1,2)]
  by (intro icc_okI [OF assms(1,2), where B = "{}" and C = "{}"]) (auto simp: shrinks_def)

lemma voter_commit_ok:
  assumes ok: "icc_ok s" and r: "qcom_icc_bcm_voter_commit h env compl write voter s = Returns (r, s')"
  shows "icc_ok s'"
proof (cases "voter = None \<or> \<not> qcom_icc_bcm_voter_exist s voter")
  case True
  with r ok show ?thesis by (auto simp: qcom_icc_bcm_voter_commit_def split: option.splits)
next
  case False
  then obtain v where v: "voter = Some v" "v < length (icc_voters s)" and e: "qcom_icc_bcm_voter_exist s (Some v)"
    by (auto dest: exist_length)
  show ?thesis
  proof (cases "aggregate_list h (bv_commit_list (icc_voters s ! v)) s")
    case (OK s1)
    note a = aggregate_list_ok [OF OK ok]
    have v1: "v < length (icc_voters s1)" using a v by simp
    obtain vt where "shrinks (icc_voters s1 ! v) vt" "s' = set_voter s1 v (vt\<lparr>bv_commit_list := []\<rparr>)"
    proof (cases "bv_crm (icc_voters s1 ! v)")
      case None
      with r v e OK that show ?thesis
        by (auto simp: qcom_icc_bcm_voter_commit_def Let_def dest: commit_rpmh_shrinks)
    next
      case (Some crm)
      with r v e OK obtain log where "s' = set_voter s1 v ((icc_voters s1 ! v)\<lparr>bv_crm_log := log\<rparr>\<lparr>bv_commit_list := []\<rparr>)"
        by (auto simp: qcom_icc_bcm_voter_commit_def Let_def split: prod.splits)
      then show ?thesis by (rule that [rotated]) simp
    qed
    with set_voter_commit_ok [OF conjunct1 [OF a] v1] show ?thesis by simp
  qed (use r v e ok in \<open>auto simp: qcom_icc_bcm_voter_commit_def\<close>)
qed

lemma probe_voter_ok: "icc_ok s \<Longrightarrow> icc_ok (snd (qcom_icc_bcm_voter_probe h vn rsc s))"
  by (auto simp: qcom_icc_bcm_voter_probe_def icc_ok_def split: result.splits)

lemma remove_voter_ok: "icc_ok s \<Longrightarrow> icc_ok (qcom_icc_bcm_voter_remove np s)"
proof (cases "find_voter (Some np) s")
  case (Some v)
  assume ok: "icc_ok s"
  have v: "v < length (icc_voters s)"
    using Some by (auto simp: find_voter_def find_Some_iff)
  show ?thesis
    using icc_okI [OF ok v, of "(icc_voters s ! v)\<lparr>bv_registered := False\<rparr>" "{}" "{}"] icc_ok_distinct [OF ok v]
    by (simp add: qcom_icc_bcm_voter_remove_def Some)
qed (simp add: qcom_icc_bcm_voter_remove_def)

text \<open>Initialising a BCM: it was in no queue, as its address was not known.\<close>

lemma icc_ok_nodes [simp]: "icc_ok (s\<lparr>icc_nodes := ns\<rparr>) = icc_ok s"
  by (simp add: icc_ok_def)

lemma icc_ok_bcm:
  assumes "icc_ok s" "bcm_ready bcm" "bcm_lists_init (icc_bcms s b) \<longrightarrow> bcm_lists_init bcm"
  shows "icc_ok (s\<lparr>icc_bcms := (icc_bcms s)(b := bcm)\<rparr>)"
  using assms unfolding icc_ok_def by auto

lemma keepalive_vote_ok: "keepalive_vote qp b s = OK s' \<Longrightarrow> icc_ok s \<Longrightarrow> icc_ok s'"
  by (cases "voter_of qp (icc_bcms s b)") (auto simp: keepalive_vote_def Let_def voter_add_ok split: list.splits)

lemma read_bcm_db_pos: "read_bcm_db db p = OK (unit, width, vcd) \<Longrightarrow> 0 < unit \<and> 0 < width"
  by (cases "num db p 4"; cases "num db (p + 4) 2"; cases "num db (p + 6) 1") (auto simp: read_bcm_db_def of_opt_def)

lemma bcm_setup_ok:
  assumes r: "bcm_setup qp b (unit, width, vcd) s = OK s'" and ok: "icc_ok s" and a: "bcm_addr (icc_bcms s b) \<noteq> 0" "0 < unit" "0 < width"
  shows "icc_ok s'"
proof -
  let ?bcm = "(icc_bcms s b)\<lparr>bcm_unit := unit, bcm_width := width, bcm_vcd := vcd, bcm_lists_init := True\<rparr>"
  let ?bcm1 = "if bcm_vote_scale ?bcm = 0 then ?bcm\<lparr>bcm_vote_scale := 1000\<rparr> else ?bcm"
  have "icc_ok (s\<lparr>icc_bcms := (icc_bcms s)(b := ?bcm1)\<rparr>)"
    by (rule icc_ok_bcm [OF ok]) (use a in \<open>auto simp: bcm_ready_def\<close>)
  then have "icc_ok (s\<lparr>icc_bcms := (icc_bcms s)(b := ?bcm1), icc_nodes := ns\<rparr>)" for ns
    by simp
  with r show ?thesis
    by (cases "link_nodes b (bcm_nodes ?bcm1) (icc_nodes s)")
      (auto simp: bcm_setup_def Let_def split: if_splits dest!: keepalive_vote_ok)
qed

lemma bcm_init_ok:
  assumes ok: "icc_ok s" shows "icc_ok (snd (qcom_icc_bcm_init db qp b s))"
proof (cases "bcm_disabled (icc_bcms s b) \<or> bcm_addr (icc_bcms s b) \<noteq> 0")
  case False
  have off: "\<not> bcm_lists_init (icc_bcms s b)"
    using ok False by (auto simp: icc_ok_def bcm_ready_def)
  let ?s = "\<lambda>addr. s\<lparr>icc_bcms := (icc_bcms s)(b := (icc_bcms s b)\<lparr>bcm_addr := addr\<rparr>)\<rparr>"
  have s1: "icc_ok (?s addr)" for addr
    by (rule icc_ok_bcm [OF ok]) (use off in \<open>auto simp: bcm_ready_def\<close>)
  have s2: "icc_ok s2" if "rbind (read_bcm_db d p) (\<lambda>aux. bcm_setup qp b aux (?s addr)) = OK s2" "addr \<noteq> 0" for d p addr s2
  proof (cases "read_bcm_db d p")
    case (OK aux)
    obtain u w c where aux: "aux = (u, w, c)" by (cases aux) auto
    show ?thesis
      using bcm_setup_ok [OF _ s1, of qp b u w c addr s2] that OK aux read_bcm_db_pos [of d p u w c] by simp
  qed (use that in auto)
  from False s1 s2 ok show ?thesis
    by (auto simp: qcom_icc_bcm_init_def Let_def split: result.splits)
qed (simp add: qcom_icc_bcm_init_def Let_def ok)

lemma add_bcms_ok: "add_bcms qp bs s = OK s' \<Longrightarrow> icc_ok s \<Longrightarrow> icc_ok s'"
proof (induction bs arbitrary: s)
  case (Cons b bs)
  then show ?case by (cases "voter_of qp (icc_bcms s b)") (auto simp: voter_add_ok)
qed simp

lemma commit_voters_ok: "commit_voters h env compl write vs s = Returns (r, s') \<Longrightarrow> icc_ok s \<Longrightarrow> icc_ok s'"
proof (induction vs arbitrary: s)
  case (Cons v vs)
  then obtain q t where "qcom_icc_bcm_voter_commit h env compl write v s = Returns (q, t)"
      "if q = UB then r = UB \<and> s' = t else commit_voters h env compl write vs t = Returns (r, s')"
    by (auto split: if_splits)
  with Cons.IH Cons.prems(2) voter_commit_ok show ?case by (metis (full_types))
qed simp

subsection \<open>Runs\<close>

inductive icc_step :: "icc \<Rightarrow> icc \<Rightarrow> bool" where
  voter_probe: "qcom_icc_bcm_voter_probe h vn rsc s = (r, s') \<Longrightarrow> icc_step s s'"
| voter_remove: "icc_step s (qcom_icc_bcm_voter_remove np s)"
| bcm_init: "qcom_icc_bcm_init db qp b s = (r, s') \<Longrightarrow> icc_step s s'"
| pre_aggregate: "qcom_icc_pre_aggregate h qp n s = OK s' \<Longrightarrow> icc_step s s'"
| aggregate: "icc_step s (s\<lparr>icc_nodes := (icc_nodes s)(n := fst (qcom_icc_aggregate h nd tag avg peak agg (icc_nodes s n)))\<rparr>)"
| icc_set: "qcom_icc_set h env compl write enable qp n nd s = Returns (r, nd', rate, s') \<Longrightarrow> icc_step s s'"
| configure_qos: "qcom_icc_rpmh_configure_qos h env compl write clks qp s = Returns (r, ns, s') \<Longrightarrow> icc_step s s'"

lemma set_keepalive_ok [simp]: "icc_ok s \<Longrightarrow> icc_ok (set_keepalive b k s)"
  by (erule icc_ok_frame) (simp_all add: set_keepalive_def)

lemma add_commit_ok: "add_commit h env compl write qp b s = Returns (r, s') \<Longrightarrow> icc_ok s \<Longrightarrow> icc_ok s'"
  by (cases "voter_of qp (icc_bcms s b)") (auto simp: add_commit_def dest: voter_commit_ok [OF voter_add_ok])

lemma enable_qos_bcms_ok: "enable_qos_bcms h env compl write qp bs s = Returns (r, s') \<Longrightarrow> icc_ok s \<Longrightarrow> icc_ok s'"
proof (induction bs arbitrary: s)
  case (Cons b bs)
  show ?case
  proof (cases "bcm_needs_qos_proxy s (icc_bcms s b)")
    case True
    with Cons.prems(1) obtain q t where a: "add_commit h env compl write qp b (set_keepalive b True s) = Returns (q, t)"
        and c: "(case q of OK _ \<Rightarrow> enable_qos_bcms h env compl write qp bs (set_keepalive b (bcm_keepalive (icc_bcms s b)) t)
          | _ \<Rightarrow> Returns (q, set_keepalive b (bcm_keepalive (icc_bcms s b)) t)) = Returns (r, s')"
      by (auto simp: Let_def)
    have "icc_ok t" using add_commit_ok [OF a] Cons.prems(2) by simp
    with c Cons.IH show ?thesis by (cases q) auto
  qed (use Cons in simp)
qed simp

lemma disable_qos_bcms_ok: "disable_qos_bcms h env compl write qp bs s = Returns (r, s') \<Longrightarrow> icc_ok s \<Longrightarrow> icc_ok s'"
proof (induction bs arbitrary: s)
  case (Cons b bs)
  then show ?case by (auto split: if_splits dest: add_commit_ok)
qed simp

lemma configure_qos_ok:
  assumes "qcom_icc_rpmh_configure_qos h env compl write clks qp s = Returns (r, ns, s')" "icc_ok s" shows "icc_ok s'"
proof -
  obtain q t where e: "enable_qos_bcms h env compl write qp (qp_bcms qp) s = Returns (q, t)"
    and c: "t = s' \<or> (\<exists>q'. disable_qos_bcms h env compl write qp (qp_bcms qp) t = Returns (q', s'))"
  proof -
    from assms(1) obtain q t q1 t1 where e: "enable_qos_bcms h env compl write qp (qp_bcms qp) s = Returns (q, t)"
        and d: "(case q of OK _ \<Rightarrow> Returns (clks, t) | _ \<Rightarrow> Returns (q, t)) = Returns (q1, t1)"
        and f: "(case q1 of OK _ \<Rightarrow> obind (disable_qos_bcms h env compl write qp (qp_bcms qp) t1) (\<lambda>(r', s2).
             Returns (r', filter (\<lambda>n. qn_qosbox (icc_nodes t1 n)) (List.map_filter (\<lambda>n. n) (qp_nodes qp)), s2))
          | _ \<Rightarrow> Returns (q1, [], t1)) = Returns (r, ns, s')"
      by (auto simp: qcom_icc_rpmh_configure_qos_def enable_qos_deps_def)
    have "t1 = t" using d by (cases q) auto
    with f e that show ?thesis by (cases q1) auto
  qed
  show ?thesis
    using c enable_qos_bcms_ok [OF e assms(2)] disable_qos_bcms_ok by blast
qed

lemma icc_set_ok:
  assumes "qcom_icc_set h env compl write enable qp n nd s = Returns (r, nd', rate, s')" "icc_ok s" shows "icc_ok s'"
proof -
  obtain q rt qn where q: "set_clk enable (scale_bw (icc_nodes s n) nd) (icc_nodes s n) = (q, rt, qn)" by (cases "set_clk enable (scale_bw (icc_nodes s n) nd) (icc_nodes s n)") auto
  with assms show ?thesis
    by (cases q) (auto simp: qcom_icc_set_def Let_def dest: commit_voters_ok)
qed

lemma icc_step_ok: "icc_step s s' \<Longrightarrow> icc_ok s \<Longrightarrow> icc_ok s'"
proof (induction rule: icc_step.induct)
  case (voter_probe h vn rsc s r s')
  then show ?case using probe_voter_ok [of s h vn rsc] by simp
next
  case (bcm_init db qp b s r s')
  then show ?case using bcm_init_ok [of s db qp b] by simp
next
  case (pre_aggregate h qp n s s')
  then show ?case by (auto simp: qcom_icc_pre_aggregate_def Let_def dest: add_bcms_ok)
qed (simp_all add: remove_voter_ok icc_set_ok configure_qos_ok)

lemma icc_run_ok: "icc_step\<^sup>*\<^sup>* s s' \<Longrightarrow> icc_ok s \<Longrightarrow> icc_ok s'"
  by (induction rule: rtranclp_induct) (auto intro: icc_step_ok)

end
