(* ===== verification/Icc_Props.thy ===== *)
theory Icc_Props
  imports Rpmh_Props Bcm_Batch Bcm_Agg Icc_Inv
begin

text \<open>
  What the interconnect promises: whole clock domains per batch, votes that reach the sleep and wake
  caches of RPMh, requests that are summed up, demand that is never lost, and queues that stay apart.
\<close>

subsection \<open>Commits\<close>

text \<open>The commands of a bucket for a list of BCMs, and the BCMs with different wake and sleep votes.\<close>

definition bucket_cmds :: "icc_h \<Rightarrow> u32w \<Rightarrow> nat \<Rightarrow> qcom_icc_bcm list \<Rightarrow> tcs_cmd list" where
  "bucket_cmds h w bucket bcms = map (cmd_at h w bucket bcms) [0..<length bcms]"

definition ws_votes :: "icc_h \<Rightarrow> icc \<Rightarrow> bcm_voter \<Rightarrow> nat list" where
  "ws_votes h s vt = filter (\<lambda>b. ws_differ h (bv_has_amc vt) (icc_bcms s b)) (bv_ws_list vt)"

lemma sort_vcd_simps [simp]: "length (sort_vcd s bs) = length bs" "set (sort_vcd s bs) = set bs" "sort_vcd s bs = [] \<longleftrightarrow> bs = []"
  by (simp_all add: sort_vcd_def) (metis length_0_conv length_sort)

lemma log_small [simp]: "qcom_icc_bcm_log (k # replicate MAX_VCD 0) = OK ()"
  by (simp add: qcom_icc_bcm_log_def MAX_VCD_def list_ex_iff)

lemma send_bucket_cached:
  assumes "\<not> env_standalone env" "state \<noteq> RPMH_ACTIVE_ONLY_STATE" "bv_commit_list vt \<noteq> []"
    "length (bv_commit_list vt) \<le> env_max_payload env" "length (bv_commit_list vt) \<le> MAX_BCMS"
  shows "send_bucket h env compl state bucket bcms vt =
    Returns (OK (), vt\<lparr>bv_rsc := (bv_rsc vt)\<lparr>drv_client := (drv_client (bv_rsc vt))\<lparr>
      ct_batch := (ct_batch (drv_client (bv_rsc vt)))(state := zero_request\<lparr>rq_state := state,
        rq_cmds := bucket_cmds h (bv_tcs_wait vt) bucket (map bcms (bv_commit_list vt))\<rparr>), ct_dirty := True\<rparr>\<rparr>\<rparr>)"
  using assms
  by (simp add: send_bucket_def tcs_list_gen_small rpmh_write_batch_def check_ctrlr_state_def fill_rpmh_msg_def
      bucket_cmds_def Let_def)

lemma commit_wake_sleep_cached:
  assumes "\<not> env_standalone env" "length (ws_votes h s vt) \<le> env_max_payload env" "length (ws_votes h s vt) \<le> MAX_BCMS"
  shows "\<exists>vt' ret'. commit_wake_sleep h env compl s ret vt = Returns (ret', vt') \<and>
    ret' = (if ws_votes h s vt = [] then ret else OK ()) \<and> bv_ws_list vt' = ws_votes h s vt \<and>
    ct_dirty (drv_client (bv_rsc vt')) \<and>
    rq_cmds (ct_batch (drv_client (bv_rsc vt')) RPMH_WAKE_ONLY_STATE) =
      bucket_cmds h (bv_tcs_wait vt) (BUCKET_WAKE h) (map (icc_bcms s) (sort_vcd s (ws_votes h s vt))) \<and>
    rq_cmds (ct_batch (drv_client (bv_rsc vt')) RPMH_SLEEP_STATE) =
      bucket_cmds h (bv_tcs_wait vt) (BUCKET_SLEEP h) (map (icc_bcms s) (sort_vcd s (ws_votes h s vt)))"
proof (cases "ws_votes h s vt = []")
  case True
  then show ?thesis
    using assms
    by (simp add: commit_wake_sleep_def ws_votes_def [symmetric] Let_def rpmh_invalidate_def zero_request_def bucket_cmds_def sort_vcd_def)
next
  case False
  then show ?thesis
    using assms
    by (simp add: commit_wake_sleep_def ws_votes_def [symmetric] Let_def rpmh_invalidate_def send_bucket_cached)
qed

text \<open>With an active set, the rest of the commit runs after the active votes, on a controller they changed.\<close>

lemma commit_rpmh_active:
  assumes "bv_has_amc vt" "bv_commit_list vt \<noteq> []" "length (bv_commit_list vt) \<le> env_max_payload env"
    "length (bv_commit_list vt) \<le> MAX_BCMS" "commit_rpmh h env compl s vt = Returns (OK (), vt')"
  shows "\<exists>r d. commit_wake_sleep h env compl s r (vt\<lparr>bv_commit_list := sort_vcd s (bv_commit_list vt), bv_rsc := d\<rparr>) = Returns (OK (), vt')"
proof -
  let ?vt = "\<lambda>d. vt\<lparr>bv_commit_list := sort_vcd s (bv_commit_list vt), bv_rsc := d\<rparr>"
  obtain r d where rd: "(case r of UB \<Rightarrow> Returns (UB, ?vt d)
      | Err e \<Rightarrow> if e \<noteq> EBUSY then Returns (Err e, ?vt d) else commit_wake_sleep h env compl s r (?vt d)
      | OK _ \<Rightarrow> commit_wake_sleep h env compl s r (?vt d)) = Returns (OK (), vt')"
    using assms by (auto simp: commit_rpmh_def Let_def tcs_list_gen_small)
  then show ?thesis
    by (cases r) (auto split: if_splits)
qed

lemma commit_caches_votes_lemma:
  assumes env: "\<not> env_standalone env" and c: "bv_commit_list vt \<noteq> []" "length (bv_commit_list vt) \<le> env_max_payload env"
    "length (bv_commit_list vt) \<le> MAX_BCMS"
    and ws: "length (ws_votes h s vt) \<le> env_max_payload env" "length (ws_votes h s vt) \<le> MAX_BCMS"
    and r: "commit_rpmh h env compl s vt = Returns (OK (), vt')"
  shows "bv_ws_list vt' = ws_votes h s vt \<and> ct_dirty (drv_client (bv_rsc vt')) \<and>
    rq_cmds (ct_batch (drv_client (bv_rsc vt')) RPMH_WAKE_ONLY_STATE) =
      bucket_cmds h (bv_tcs_wait vt) (BUCKET_WAKE h) (map (icc_bcms s) (sort_vcd s (ws_votes h s vt))) \<and>
    rq_cmds (ct_batch (drv_client (bv_rsc vt')) RPMH_SLEEP_STATE) =
      bucket_cmds h (bv_tcs_wait vt) (BUCKET_SLEEP h) (map (icc_bcms s) (sort_vcd s (ws_votes h s vt)))"
proof -
  have *: "ws_votes h s (vt\<lparr>bv_commit_list := l, bv_rsc := d\<rparr>) = ws_votes h s vt" for l d
    by (simp add: ws_votes_def)
  obtain ret l d where "commit_wake_sleep h env compl s ret (vt\<lparr>bv_commit_list := l, bv_rsc := d\<rparr>) = Returns (OK (), vt')"
  proof (cases "bv_has_amc vt")
    case True
    with commit_rpmh_active [OF _ c r] that show ?thesis by blast
  next
    case False
    with r that [where ret = "OK ()" and l = "bv_commit_list vt" and d = "bv_rsc vt"] show ?thesis by (simp add: commit_rpmh_def)
  qed
  with commit_wake_sleep_cached [OF env, of h s "vt\<lparr>bv_commit_list := l, bv_rsc := d\<rparr>" compl ret] ws
  show ?thesis unfolding * by auto
qed

lemma commit_no_active_returns:
  assumes "\<not> env_standalone env" "\<not> bv_has_amc vt" "length (ws_votes h s vt) \<le> env_max_payload env"
    "length (ws_votes h s vt) \<le> MAX_BCMS"
  shows "\<exists>vt'. commit_rpmh h env compl s vt = Returns (OK (), vt')"
  using commit_wake_sleep_cached [OF assms(1,3,4), of compl "OK ()"] assms(2) by (auto simp: commit_rpmh_def)

lemma tcs_list_loop_not_Err: "tcs_list_loop h payload w bucket rest batch cur n cmds \<noteq> Err e"
  by (induction rest arbitrary: batch cur n cmds) (simp_all add: Let_def)

subsection \<open>Requests\<close>






subsection \<open>An example\<close>

definition demo_h :: icc_h where
  "demo_h = \<lparr>NUM_BUCKETS = 3, BUCKET_AMC = 0, BUCKET_WAKE = 1, BUCKET_SLEEP = 2, TAG_ALWAYS = 7, TAG_PERF_MODE = 8,
     TAG_ACTIVE_ONLY = 3, VOTE_MASK = 7,
     BCM_TCS_CMD = (\<lambda>c v x y. push_bit 30 (of_bool c) OR push_bit 29 (of_bool v) OR push_bit 14 (of_nat x) OR of_nat y)\<rparr>"

definition demo_qn :: qcom_icc_node where
  "demo_qn = \<lparr>qn_channels = 1, qn_buswidth = 4, qn_sum_avg = (\<lambda>_. 1), qn_max_peak = (\<lambda>_. 0), qn_perf_mode = (\<lambda>_. False),
     qn_init_avg = 0, qn_init_peak = 0, qn_bcms = [], qn_qosbox = False, qn_clk = False, qn_toggle_clk = False,
     qn_clk_enabled = False, qn_bw_scale_numerator = 0, qn_bw_scale_denominator = 0\<rparr>"

definition demo_bcm :: "nat \<Rightarrow> qcom_icc_bcm" where
  "demo_bcm i = \<lparr>bcm_name = [], bcm_type = QCOM_ICC_BCM_TYPE_BW, bcm_addr = 0x50000 + of_nat i, bcm_vote_x = (\<lambda>b. b), bcm_vote_y = (\<lambda>_. 0),
     bcm_vote_scale = 2, bcm_enable_mask = 0, bcm_perf_mode_mask = 0, bcm_keepalive = False, bcm_qos_proxy = False,
     bcm_disabled = False, bcm_unit = 3, bcm_width = 1, bcm_vcd = i, bcm_voter_idx = 0, bcm_crm_node = 0, bcm_nodes = [0],
     bcm_lists_init = True\<rparr>"

definition demo_voter :: bcm_voter where
  "demo_voter = \<lparr>bv_np = 9, bv_registered = True, bv_rsc = demo_drv, bv_crm = None, bv_commit_list = [1, 0], bv_ws_list = [1, 0],
     bv_tcs_wait = 3, bv_has_amc = False, bv_crm_log = []\<rparr>"

definition demo_icc :: icc where
  "demo_icc = \<lparr>icc_nodes = (\<lambda>_. demo_qn), icc_bcms = demo_bcm, icc_voters = [demo_voter]\<rparr>"



subsection \<open>Properties\<close>

text \<open>
  C15. When the command list is generated, it has one command for each BCM in order, with the commit
  bit exactly at the last BCM of each run of one clock domain; the batch counts add up to the number
  of BCMs, and no batch ends inside a clock domain.
\<close>

theorem bcm_batches_whole_vcds:
  assumes "tcs_list_gen h payload w bucket bcms = OK (cs, n)"
  shows "cs = map (cmd_at h w bucket bcms) [0..<length bcms] \<and> length n = MAX_VCD + 1 \<and>
    sum_list n = length bcms \<and> (\<forall>k \<le> length n. vcd_cut bcms (sum_list (take k n)))"
  by (rule tcs_list_gen_result [OF assms])

theorem bcm_batches_whole_vcds_witness:
  "\<exists>cs. tcs_list_gen demo_h 2 3 1 [demo_bcm 1, demo_bcm 2, demo_bcm 2] = OK (cs, [1, 2, 0, 0, 0, 0, 0, 0, 0, 0, 0]) \<and>
     length cs = 3 \<and> vcd_cut [demo_bcm 1, demo_bcm 2, demo_bcm 2] 1"
proof -
  have g: "\<exists>cs. tcs_list_gen demo_h 2 3 1 [demo_bcm 1, demo_bcm 2, demo_bcm 2] = OK (cs, [1, 2, 0, 0, 0, 0, 0, 0, 0, 0, 0])"
  proof -
    have "case tcs_list_gen demo_h 2 3 1 [demo_bcm 1, demo_bcm 2, demo_bcm 2] of
        OK (cs, n) \<Rightarrow> n = [1, 2, 0, 0, 0, 0, 0, 0, 0, 0, 0] | _ \<Rightarrow> False"
      by code_simp
    then show ?thesis by (auto split: result.splits)
  qed
  then obtain cs where cs: "tcs_list_gen demo_h 2 3 1 [demo_bcm 1, demo_bcm 2, demo_bcm 2] = OK (cs, [1, 2, 0, 0, 0, 0, 0, 0, 0, 0, 0])" ..
  note r = bcm_batches_whole_vcds [OF cs]
  have "\<forall>k \<le> 11. vcd_cut [demo_bcm 1, demo_bcm 2, demo_bcm 2] (sum_list (take k [1, 2, 0, 0, 0, 0, 0, 0, 0, 0, 0]))"
    using r by (simp only: list.size) simp
  from spec [OF this, of 1] have "vcd_cut [demo_bcm 1, demo_bcm 2, demo_bcm 2] 1" by simp
  moreover have "length cs = 3" using r by simp
  ultimately show ?thesis using cs by blast
qed

text \<open>
  C14. A commit of up to one payload of BCMs leaves, when it succeeds, in the wake and sleep batches of
  the RPMh cache exactly the votes of the BCMs whose wake and sleep votes differ, by clock domain, and
  the cache is marked for the next flush. Without an active set it always succeeds.
\<close>

theorem bcm_commit_caches_votes:
  assumes "\<not> env_standalone env" "bv_commit_list vt \<noteq> []"
    "length (bv_commit_list vt) \<le> min (env_max_payload env) MAX_BCMS" "length (ws_votes h s vt) \<le> min (env_max_payload env) MAX_BCMS"
  shows "(\<not> bv_has_amc vt \<longrightarrow> (\<exists>vt'. commit_rpmh h env compl s vt = Returns (OK (), vt'))) \<and>
    (\<forall>vt'. commit_rpmh h env compl s vt = Returns (OK (), vt') \<longrightarrow>
       bv_ws_list vt' = ws_votes h s vt \<and> ct_dirty (drv_client (bv_rsc vt')) \<and>
       rq_cmds (ct_batch (drv_client (bv_rsc vt')) RPMH_WAKE_ONLY_STATE) =
         bucket_cmds h (bv_tcs_wait vt) (BUCKET_WAKE h) (map (icc_bcms s) (sort_vcd s (ws_votes h s vt))) \<and>
       rq_cmds (ct_batch (drv_client (bv_rsc vt')) RPMH_SLEEP_STATE) =
         bucket_cmds h (bv_tcs_wait vt) (BUCKET_SLEEP h) (map (icc_bcms s) (sort_vcd s (ws_votes h s vt))))"
  using assms commit_no_active_returns [of env vt h s compl] commit_caches_votes_lemma [of env vt h s compl] by simp

theorem bcm_commit_caches_votes_witness:
  "\<exists>vt'. commit_rpmh demo_h demo_env 0 demo_icc demo_voter = Returns (OK (), vt') \<and> bv_ws_list vt' = [1, 0] \<and>
    rq_cmds (ct_batch (drv_client (bv_rsc vt')) RPMH_SLEEP_STATE) = bucket_cmds demo_h 3 2 (map demo_bcm [0, 1])"
proof -
  have w: "ws_votes demo_h demo_icc demo_voter = [1, 0]" "sort_vcd demo_icc [1, 0] = [0, 1]"
    by (simp_all add: ws_votes_def ws_differ_def sort_vcd_def demo_voter_def demo_icc_def demo_bcm_def demo_h_def)
  have d: "\<not> env_standalone demo_env" "env_max_payload demo_env = 4" "bv_commit_list demo_voter = [1, 0]" "\<not> bv_has_amc demo_voter"
    "bv_tcs_wait demo_voter = 3" "BUCKET_SLEEP demo_h = 2" "icc_bcms demo_icc = demo_bcm"
    by (simp_all add: demo_env_def demo_voter_def demo_h_def demo_icc_def)
  have "length (bv_commit_list demo_voter) \<le> min (env_max_payload demo_env) MAX_BCMS"
      "length (ws_votes demo_h demo_icc demo_voter) \<le> min (env_max_payload demo_env) MAX_BCMS" "bv_commit_list demo_voter \<noteq> []"
    unfolding w d by (simp_all add: MAX_BCMS_def)
  note c = bcm_commit_caches_votes [OF d(1) this(3,1,2), of 0]
  from c d(4) obtain vt' where vt': "commit_rpmh demo_h demo_env 0 demo_icc demo_voter = Returns (OK (), vt')" by blast
  from c vt' have "bv_ws_list vt' = ws_votes demo_h demo_icc demo_voter"
      "rq_cmds (ct_batch (drv_client (bv_rsc vt')) RPMH_SLEEP_STATE) =
        bucket_cmds demo_h (bv_tcs_wait demo_voter) (BUCKET_SLEEP demo_h) (map (icc_bcms demo_icc) (sort_vcd demo_icc (ws_votes demo_h demo_icc demo_voter)))"
    by blast+
  with vt' show ?thesis unfolding w d by blast
qed



text \<open>
  C31. A BCM with its data, whose nodes have a bus and votes within 64 bits, is aggregated without a
  division by zero, and no demand is lost: a node with average or peak bandwidth in a bucket gives the
  BCM a vote there.
\<close>

theorem bcm_aggregate_keeps_demand:
  assumes "\<forall>bucket < NUM_BUCKETS h. \<forall>node \<in> set nodes. node_fits (bcm_width bcm) (bcm_vote_scale bcm) bucket node"
    "0 < bcm_vote_scale bcm" "0 < bcm_unit bcm" "0 < bcm_width bcm"
  shows "\<exists>bcm'. bcm_aggregate h nodes bcm = OK bcm' \<and>
    (\<forall>bucket < NUM_BUCKETS h. \<forall>node \<in> set nodes.
       (0 < qn_sum_avg node bucket \<longrightarrow> 0 < bcm_vote_x bcm' bucket) \<and> (0 < qn_max_peak node bucket \<longrightarrow> 0 < bcm_vote_y bcm' bucket))"
  by (rule bcm_aggregate_demand [OF assms])

theorem bcm_aggregate_keeps_demand_witness:
  "\<exists>bcm'. bcm_aggregate demo_h [demo_qn] (demo_bcm 0) = OK bcm' \<and> 0 < bcm_vote_x bcm' 1"
  using bcm_aggregate_keeps_demand [of demo_h "[demo_qn]" "demo_bcm 0"]
  by (auto simp: node_fits_def demo_h_def demo_qn_def demo_bcm_def)



subsection \<open>Deviations\<close>

text \<open>
  The batches after the first are never sent. With more BCMs of one clock domain than a payload, the
  first batch is empty and the commit reports success without sending anything.
\<close>

theorem bcm_commit_large_vcd:
  assumes "bv_has_amc vt" "0 < env_max_payload env" "env_max_payload env < length (bv_commit_list vt)"
    "\<forall>b \<in> set (bv_commit_list vt). bcm_vcd (icc_bcms s b) = v"
  shows "\<exists>r. commit_rpmh h env compl s vt = Returns (r, vt\<lparr>bv_commit_list := sort_vcd s (bv_commit_list vt)\<rparr>) \<and> (r = OK () \<or> r = UB)"
proof -
  let ?gen = "tcs_list_gen h (env_max_payload env) (bv_tcs_wait vt) (BUCKET_AMC h) (map (icc_bcms s) (sort_vcd s (bv_commit_list vt)))"
  have "hd n = 0" if "?gen = OK (cs, n)" for cs n
  proof -
    have "n ! 0 = 0" "n \<noteq> []"
      using one_vcd_first_batch [OF that, of v] tcs_list_gen_result [OF that] assms by (auto simp: MAX_VCD_def)
    then show ?thesis by (simp add: hd_conv_nth)
  qed
  moreover have "?gen \<noteq> Err e" for e
    by (simp add: tcs_list_gen_def tcs_list_loop_not_Err)
  ultimately show ?thesis
    using assms(1) by (auto simp: commit_rpmh_def Let_def split: result.splits)
qed

text \<open>
  The busy error of a controller in solver mode, which the active votes are to ignore, is the result of
  the commit when no BCM has different wake and sleep votes.
\<close>

theorem bcm_commit_busy_leaks:
  assumes "\<not> env_standalone env" "bv_has_amc vt" "bv_commit_list vt \<noteq> []"
    "length (bv_commit_list vt) \<le> min (env_max_payload env) MAX_BCMS" "ws_votes h s vt = []"
    "ct_flags (drv_client (bv_rsc vt)) AND SOLVER_PRESENT \<noteq> 0" "ct_in_solver_mode (drv_client (bv_rsc vt))"
  shows "\<exists>vt'. commit_rpmh h env compl s vt = Returns (Err EBUSY, vt')"
  using assms
  by (simp add: commit_rpmh_def Let_def tcs_list_gen_small rpmh_write_batch_def check_ctrlr_state_def
      commit_wake_sleep_def ws_votes_def)

text \<open>
  A BCM whose aux data cannot be read keeps the address it was given, so that the next attempt takes it
  for initialised and succeeds without its data.
\<close>

theorem bcm_init_retry_succeeds:
  assumes "\<not> bcm_disabled (icc_bcms s b)" "bcm_addr (icc_bcms s b) = 0"
    "cmd_db_read_addr db (bcm_name (icc_bcms s b)) = OK addr" "of_nat addr \<noteq> (0 :: u32w)"
    "cmd_db_read_aux_data db (bcm_name (icc_bcms s b)) = Err e"
  shows "\<exists>s'. qcom_icc_bcm_init db qp b s = (Err e, s') \<and> qcom_icc_bcm_init db qp b s' = (OK (), s') \<and>
    bcm_lists_init (icc_bcms s' b) = bcm_lists_init (icc_bcms s b)"
  using assms by (simp add: qcom_icc_bcm_init_def Let_def)

end
