(* ===== verification/Spec2Isabelle.thy ===== *)
theory Spec2Isabelle
  imports Qmi_Props Smp2p_Outbound Qrtr_Ns_Props Cmd_Db Mdt_Props Rpmh_Props Icc_Props
begin

text \<open>
  \<^bold>\<open>Verification of the Qualcomm platform services of this kernel tree.\<close>

  \<^bold>\<open>Parts and how they interact.\<close> Processors of the chip exchange data through a heap in shared memory
  (SMEM), signal each other with bits of items in it (SMP2P), and find each other's services through the
  QRTR name service; the messages of the services are
  encoded as QMI. The command database (cmd-db) is a read-only table in memory that gives the address
  and the data of each power resource. Votes on the resources go through the RPMh interface, which caches
  them and programs them into the command sets (TCS) of a resource state coordinator (RSC). The
  interconnect aggregates bandwidth requests into votes of bus clock managers (BCM), whose address and
  data it reads from cmd-db, and commits them through RPMh. The images of the other processors are placed
  in memory by the MDT loader.

  \<^bold>\<open>Conventions\<close> (\<^verbatim>\<open>Prelude\<close>). A fallible operation returns \<^verbatim>\<open>OK\<close>, \<^verbatim>\<open>Err\<close> with an error number, or
  \<^verbatim>\<open>UB\<close> for an access outside an object, a division by zero or the like, so that a result other than
  \<^verbatim>\<open>UB\<close> is memory safety. Memory is a list of bytes. Integers of 32 and 64 bits are words, or natural
  numbers with the wrap-around written out (\<^verbatim>\<open>u32\<close>, \<^verbatim>\<open>u64\<close>). Operations of RPMh that may stop or wait have
  an outcome \<^verbatim>\<open>Returns\<close>, \<^verbatim>\<open>Bug\<close> or \<^verbatim>\<open>Waits\<close>.

  \<^bold>\<open>Theories.\<close>

  \<^item> \<^verbatim>\<open>drivers/soc/qcom/qmi_encdec.c\<close>: \<^verbatim>\<open>Qmi_Desc\<close> has the element descriptions, \<^verbatim>\<open>Qmi_Encode\<close> and
    \<^verbatim>\<open>Qmi_Decode\<close> the two directions, \<^verbatim>\<open>Qmi_Message\<close> the entry points. \<^verbatim>\<open>Qmi_Safety\<close>, \<^verbatim>\<open>Qmi_Bounds\<close> and
    \<^verbatim>\<open>Qmi_Props\<close> show that decoding stays inside the message and the structure for a descriptor that fits
    the structure and a message of at least a header, that encoding stays inside its buffer for encodable
    descriptors and terminated strings (with a string below the top level it may not), a round trip of the
    standard response, and what happens on malformed input.
  \<^item> \<^verbatim>\<open>drivers/soc/qcom/smem.c\<close>: \<^verbatim>\<open>Smem_Private\<close> has the partitions between two processors,
    \<^verbatim>\<open>Smem_Global\<close> the old heap, \<^verbatim>\<open>Smem\<close> the probe and the exported functions. The interface of a heap
    of items is the locale \<^verbatim>\<open>item_heap\<close> of \<^verbatim>\<open>Smem_Heap\<close>, interpreted on both heaps. Shown are: a lookup
    after an allocation finds the item, items of a well-formed heap never overlap, the partitions found by
    the probe are valid, and a lookup in a partition is memory safe whatever was written to it since.
  \<^item> \<^verbatim>\<open>drivers/soc/qcom/smp2p.c\<close>: \<^verbatim>\<open>Smp2p\<close> has the driver, with its items in the memory of \<^verbatim>\<open>Smem\<close>.
    \<^verbatim>\<open>Smp2p_Item\<close> shows that the windows of shared memory are byte memories (locale \<^verbatim>\<open>byte_memory\<close>) and
    treats the loops over entries. \<^verbatim>\<open>Smp2p_Props\<close> shows, for an inbound item of at most 16 entries with
    terminated names that lies apart from the outbound item, that the interrupt handler is safe, that
    restarts are acknowledged and that signals are delivered; and that published entries are found by the
    other side. \<^verbatim>\<open>Smp2p_Outbound\<close> and this theory show how a new driver publishes its item through the
    heap.
  \<^item> \<^verbatim>\<open>net/qrtr/ns.c\<close>: \<^verbatim>\<open>Qrtr_Ns\<close> has the tables and handlers, over the index maps of \<^verbatim>\<open>Xarray\<close> (locale
    \<^verbatim>\<open>index_map\<close>). \<^verbatim>\<open>Qrtr_Ns_Inv\<close>, \<^verbatim>\<open>Qrtr_Ns_View\<close> and \<^verbatim>\<open>Qrtr_Ns_Props\<close> show the invariant of reachable
    states, the refinement of an abstract registry, and what a subscriber is told.
  \<^item> \<^verbatim>\<open>drivers/soc/qcom/cmd-db.c\<close>: \<^verbatim>\<open>Cmd_Db\<close>, with the lookup as a function of the table it stores.
  \<^item> \<^verbatim>\<open>drivers/soc/qcom/mdt_loader.c\<close>: \<^verbatim>\<open>Mdt_Loader\<close> has the image and the loader. \<^verbatim>\<open>Mdt_Load\<close> and
    \<^verbatim>\<open>Mdt_Props\<close> show, for an image with room for at most 100 program headers that is below 4 GiB together
    with the region, that loading stays inside the image and the region, that the segments are placed as
    the headers say, that the computed size is enough, and a copy past the end of the file.
  \<^item> \<^verbatim>\<open>drivers/soc/qcom/rpmh.c\<close>, \<^verbatim>\<open>rpmh-rsc.c\<close>, \<^verbatim>\<open>rpmh-internal.h\<close>: \<^verbatim>\<open>Rpmh_Data\<close> has the controllers and
    registers, \<^verbatim>\<open>Rpmh_Rsc\<close> the driver, \<^verbatim>\<open>Rpmh\<close> the interface, \<^verbatim>\<open>Rpmh_Probe\<close> the probe. \<^verbatim>\<open>Rpmh_Tcs\<close> and
    \<^verbatim>\<open>Rpmh_Slots\<close> treat register layout and slot search, \<^verbatim>\<open>Rpmh_Flush\<close> the flush, \<^verbatim>\<open>Rpmh_Active\<close> active
    transfers, \<^verbatim>\<open>Rpmh_System\<close> the runs of a controller and \<^verbatim>\<open>Rpmh_Cache\<close> the vote cache as a map (locale
    \<^verbatim>\<open>keyed_store\<close>). \<^verbatim>\<open>Rpmh_Props\<close> shows that a clean cache is programmed, that active requests are
    exclusive and complete, and the bounds of the register layout.
  \<^item> \<^verbatim>\<open>drivers/interconnect/qcom/bcm-voter.c\<close>, \<^verbatim>\<open>icc-rpmh.c\<close>: \<^verbatim>\<open>Bcm_Voter\<close> has the voters, \<^verbatim>\<open>Icc_Rpmh\<close>
    the provider. \<^verbatim>\<open>Bcm_Batch\<close> has the loop invariant of the batches, \<^verbatim>\<open>Bcm_Agg\<close> the votes,
    \<^verbatim>\<open>Icc_Inv\<close> the invariant of the queues. \<^verbatim>\<open>Icc_Props\<close> shows how requests become votes and how a
    commit reaches the caches of RPMh, and three deviations.

  \<^bold>\<open>Bounds.\<close> Loops over data are structural or have a termination proof. Polling loops have the bounds of
  the code (100, 10 and 5 reads). The one loop without a bound, waiting for the channel registers of an
  RSC to agree, is a \<^verbatim>\<open>partial_function\<close>, and it is shown when it returns. Values read from volatile
  registers, and the interrupts that arrive while a call waits, are arguments; theorems on active
  transfers name what they assume of them. Constants of headers outside the sources (the payload of an
  RPMh request, the buckets and command layout of the interconnect) are parameters. The bitmap of slots
  of an RSC has 48 bits in the code and no bound in the model, so the theorems do not cover a group whose
  command sets have more slots than that. The bandwidths of a framework node are taken to have 32 bits. The item of the other side does not change
  while an SMP2P handler runs.

  \<^bold>\<open>Not modelled.\<close> Locks and the interleaving of processors: operations are atomic, except for the
  interrupts named above. Logging, tracing and debugfs. Of \<^verbatim>\<open>icc-rpmh.c\<close> the platform probe and removal
  and the detection of disabled parts. The CRM drivers behind the voter, an argument of it. The rest of
  the tree (sockets and transports, clocks, pin controllers, buses, networking, scheduler, GPU and other
  drivers) is outside the scope: register level drivers whose effect is on hardware, tables, or code
  whose core is outside these sources.
\<close>

subsection \<open>Signals over the shared memory heap\<close>

text \<open>
  C19. A new driver publishes its item through the heap of shared memory: on a host with a well-formed
  partition and an item that is still free, the allocated item is found by its number, holds the header
  of the protocol with the version of the other side (or 1 when there is none yet), the remote side is
  kicked, the partition stays well formed, and no other lookup in shared memory changes.
\<close>

theorem smp2p_outbound_item_published:
  assumes "has_partition smem host" "length (partitions smem) = SMEM_HOST_COUNT" "wf_partition (partitions smem ! host)"
    and "w_smem w = Some smem" "sp_remote_pid (w_dev w) = host" "sp_local_pid (w_dev w) < 2 ^ 16"
    and "sp_smem_out (w_dev w) < 2 ^ 16" "sp_smem_in (w_dev w) \<noteq> sp_smem_out (w_dev w)"
    and "qcom_smem_alloc (OK ()) (Some smem) host (sp_smem_out (w_dev w)) ITEM_SIZE = OK smem1"
    and "\<And>p n. qcom_smem_get (Some smem) host (sp_smem_in (w_dev w)) = OK (p, n) \<Longrightarrow> ITEM_SIZE \<le> n"
  shows "\<exists>w' s p. qcom_smp2p_alloc_outbound_item (OK ()) w = OK (OK (), w') \<and> w_smem w' = Some s \<and>
    sp_out (w_dev w') = Some p \<and> qcom_smem_get (Some s) host (sp_smem_out (w_dev w)) = OK (p, ITEM_SIZE) \<and>
    (\<forall>h i. (h, i) \<noteq> (host, sp_smem_out (w_dev w)) \<longrightarrow> qcom_smem_get (Some s) h i = qcom_smem_get (Some smem) h i) \<and>
    wf_partition (partitions s ! host) \<and> room s p ITEM_SIZE \<and>
    sm_num s p 0 4 = Some SMP2P_MAGIC \<and> sm_num s p it_local_pid 2 = Some (sp_local_pid (w_dev w)) \<and>
    sm_num s p it_remote_pid 2 = Some host \<and> sm_num s p it_total_entries 2 = Some SMP2P_MAX_ENTRY \<and>
    sm_num s p it_valid_entries 2 = Some 0 \<and> sm_num s p it_features 3 = Some SMP2P_ALL_FEATURES \<and>
    sm_num s p it_flags 4 = Some 0 \<and>
    sm_num s p it_version 1 = Some (let v = inbound_version s host (sp_smem_in (w_dev w)) in if v = 0 then 1 else v) \<and>
    w_kicks w' = w_kicks w @ [sp_route (w_dev w)]"
proof -
  let ?out = "sp_smem_out (w_dev w)" and ?in = "sp_smem_in (w_dev w)"
  obtain uend where u: "phdr_free_uncached (p_mem (partitions smem ! host)) = OK uend"
    using wf_partitionE [OF assms(3)] by blast
  let ?p = "InPartition host (uend + 16)"
  note heap = assms(1-3) valid_item [OF assms(7)] assms(9) u
  note get = get_after_writes [OF heap] and place = new_item_place [OF heap]
  have host: "sp_remote_pid (w_dev w) < 2 ^ 16" using assms(1,5) by (simp add: has_partition_def SMEM_HOST_COUNT_def)
  obtain s where s: "qcom_smp2p_alloc_outbound_item (OK ()) w = publish ?p (w\<lparr>w_smem := Some s\<rparr>)"
      "filled (w\<lparr>w_smem := Some s\<rparr>) ?p smem1 (header (sp_local_pid (w_dev w)) host)"
    using alloc_outbound_header [OF assms(4) _ _ place(1) assms(6) host, of ITEM_SIZE] get(1) [OF writes_in_refl, of host ?out] assms(5,9)
    by auto
  have wr: "writes_in ?p ITEM_SIZE smem1 s" using s(2) by (simp add: filled_def)
  have in_item: "room s q ITEM_SIZE \<and> separate q 0 ITEM_SIZE ?p 0 ITEM_SIZE" if "qcom_smem_get (Some smem) host ?in = OK (q, n)" for q n
    using place(2) [OF assms(8) that] assms(10) [OF that] writes_in_room [OF wr]
    by (auto simp: room_def separate_def)
  have in_get: "qcom_smem_get (Some s) host ?in = qcom_smem_get (Some smem) host ?in" using get(1) [OF wr] assms(8) by simp
  obtain s' where s': "publish ?p (w\<lparr>w_smem := Some s\<rparr>) = OK (OK (), set_dev (sp_out_update (\<lambda>_. Some ?p)) (qcom_smp2p_kick (w\<lparr>w_smem := Some s'\<rparr>)))"
      "filled (w\<lparr>w_smem := Some s'\<rparr>) ?p smem1 ((it_version, 1, (let v = inbound_version s host ?in in if v = 0 then 1 else v)) # header (sp_local_pid (w_dev w)) host)"
      "sm_store ?p it_version (le_bytes 1 (let v = inbound_version s host ?in in if v = 0 then 1 else v)) s = Some s'"
  proof -
    have nub: "qcom_smem_get (Some s) (sp_remote_pid (w_dev (w\<lparr>w_smem := Some s\<rparr>))) (sp_smem_in (w_dev (w\<lparr>w_smem := Some s\<rparr>))) \<noteq> UB"
      using get_not_UB [OF assms(1,3), of ?in] in_get assms(5) by simp
    show thesis by (rule publish_spec [OF s(2) _ nub]) (use in_get in_item assms(5) that in auto)
  qed
  have wr': "writes_in ?p ITEM_SIZE smem1 s'" using s'(2) by (simp add: filled_def)
  have "inbound_version s' host ?in = inbound_version s host ?in"
  proof (rule inbound_version_store [OF s'(3)])
    show "qcom_smem_get (Some s') host ?in = qcom_smem_get (Some s) host ?in" using get(1) [OF wr', of host ?in] in_get assms(8) by simp
    fix q n
    assume "qcom_smem_get (Some s) host ?in = OK (q, n)"
    then have "separate q 0 ITEM_SIZE ?p 0 ITEM_SIZE" using in_item in_get by simp
    then show "separate q it_version 1 ?p it_version (length (le_bytes 1 (let v = inbound_version s host ?in in if v = 0 then 1 else v)))"
      by (rule separate_within) (simp_all add: item_layout)
  qed
  then show ?thesis
    using s(1) s'(1,2) get(1) [OF wr'] get(2) [OF wr'] by (auto simp: filled_def header_def)
qed

definition outbound_part :: smem_partition where
  "outbound_part = \<lparr>p_virt_base = 4096, p_phys_base = 8192, p_cacheline = 32, p_size = 512,
     p_mem = SMEM_PART_MAGIC @ [0, 0, 1, 0, 0, 2, 0, 0, 32, 0, 0, 0, 0, 2, 0, 0] @ replicate 492 0\<rparr>"

definition outbound_smem :: qcom_smem where
  "outbound_smem = \<lparr>item_count = 512, ptable = [], global_partition = no_partition,
     partitions = (replicate SMEM_HOST_COUNT no_partition)[1 := outbound_part], regions = []\<rparr>"

definition outbound_driver :: smp2p where
  "outbound_driver = \<lparr>w_smem = Some outbound_smem, w_dev = zero_smp2p (429, 428) 0 1 KickMbox, w_kicks = [], w_irqs = [], w_oplus = None\<rparr>"

lemma outbound_part_header:
  "length (p_mem outbound_part) = 512" "phdr_free_uncached (p_mem outbound_part) = OK 32"
  "phdr_free_cached (p_mem outbound_part) = OK 512" "phdr_size (p_mem outbound_part) = OK 512"
  by (simp_all add: outbound_part_def SMEM_PART_MAGIC_def smem_layout num_def load_def)

lemma outbound_part_wf: "wf_partition outbound_part"
  using outbound_part_header by (simp add: wf_partition_def PHDR_SIZE_def outbound_part_def uncached_wf.simps)

lemma outbound_part_alloc: "\<exists>part'. qcom_smem_alloc_private outbound_part 428 ITEM_SIZE = OK part'"
proof -
  have "ALIGN 340 8 = 344" using ALIGN_8(1) [of 340] by simp
  moreover have "private_items outbound_part = []" "private_space outbound_part = 480"
    using outbound_part_header by (simp_all add: private_items_def private_space_def PHDR_SIZE_def uncached_items.simps)
  ultimately show ?thesis
    using alloc_private_outcome [OF outbound_part_wf, of 428 340] by (simp add: ENTRY_SIZE_def ITEM_SIZE_def)
qed

lemma outbound_smem_host: "has_partition outbound_smem 1" "partitions outbound_smem ! 1 = outbound_part"
  "length (partitions outbound_smem) = SMEM_HOST_COUNT"
  by (simp_all add: has_partition_def outbound_smem_def SMEM_HOST_COUNT_def outbound_part_def)

lemma outbound_no_item: "qcom_smem_get (Some outbound_smem) 1 429 \<noteq> OK r"
proof -
  have "get_uncached (p_mem outbound_part) 512 429 32 32 = OK (Inr 32)" by (simp add: get_uncached.simps)
  moreover have "p_size outbound_part = 512" by (simp add: outbound_part_def)
  ultimately have "qcom_smem_get_private outbound_part 429 \<noteq> OK r'" for r'
    using outbound_part_header
    by (auto simp: qcom_smem_get_private_def PHDR_SIZE_def IN_PARTITION_RANGE_def qcom_smem_get_cached_def
        phdr_to_first_cached_entry_def ENTRY_SIZE_def outbound_part_def get_cached.simps split: if_splits sum.splits)
  then show ?thesis using outbound_smem_host by (auto simp: qcom_smem_get_def split: if_splits)
qed

theorem smp2p_outbound_item_published_witness:
  "\<exists>w' s p. qcom_smp2p_alloc_outbound_item (OK ()) outbound_driver = OK (OK (), w') \<and> w_smem w' = Some s \<and>
     qcom_smem_get (Some s) 1 428 = OK (p, 340) \<and> sm_num s p 0 4 = Some 0x504d5324 \<and> w_kicks w' = [KickMbox]"
proof -
  obtain smem1 where a: "qcom_smem_alloc (OK ()) (Some outbound_smem) 1 428 ITEM_SIZE = OK smem1"
    using outbound_part_alloc outbound_smem_host by (auto simp: qcom_smem_alloc_def SMEM_ITEM_LAST_FIXED_def) (auto simp: outbound_smem_def)
  have d: "w_smem outbound_driver = Some outbound_smem" "sp_remote_pid (w_dev outbound_driver) = 1" "sp_local_pid (w_dev outbound_driver) = 0"
    "sp_smem_out (w_dev outbound_driver) = 428" "sp_smem_in (w_dev outbound_driver) = 429" "w_kicks outbound_driver = []"
    "sp_route (w_dev outbound_driver) = KickMbox"
    by (simp_all add: outbound_driver_def zero_smp2p_def)
  show ?thesis
    using smp2p_outbound_item_published [of outbound_smem 1 outbound_driver smem1] outbound_smem_host outbound_part_wf a outbound_no_item
    unfolding d by (fastforce simp: ITEM_SIZE_def SMP2P_MAGIC_def)
qed

end
